(* ===== verification/Zen_Prelude.thy ===== *)
theory Zen_Prelude
  imports Complex_Main "HOL-Library.Word" "HOL-Library.Monad_Syntax"
begin

text \<open>
  Shared vocabulary of the development: the C idioms the sources use (truncating integer
  division, NUL-terminated strings in fixed buffers, stores into an array), the intrusive
  lists of libwayland as an interface with its documented laws, and the collections of
  facts that carry the proofs of the component theories.
\<close>

unbundle bit_operations_syntax

section \<open>Collections of facts\<close>

text \<open>
  \<open>zen_ops\<close> collects the definitions of the operations, so that a proof can open a handler
  with \<open>simp add: zen_ops\<close>; \<open>zen_frame\<close> collects what an operation leaves unchanged;
  \<open>zen_inv\<close> collects the preservation lemmas of the components' invariants.
\<close>

named_theorems zen_ops
named_theorems zen_frame
named_theorems zen_inv

section \<open>Addresses and C values\<close>

type_synonym addr = nat
type_synonym ptr = "addr option"        \<comment> \<open>a C pointer: \<open>None\<close> is NULL\<close>
type_synonym cstring = "string option"  \<comment> \<open>a \<open>char *\<close> field: \<open>None\<close> is NULL\<close>
type_synonym u32 = "32 word"

text \<open>The \<open>struct ZenCompositor *\<close> argument of the public entry points: NULL or the compositor.\<close>

datatype cptr = CNULL | CPTR

text \<open>C integer division rounds towards zero.\<close>

definition c_div :: "int \<Rightarrow> int \<Rightarrow> int" where
  "c_div a b = sgn a * sgn b * (\<bar>a\<bar> div \<bar>b\<bar>)"

lemma c_div_nonneg: "0 \<le> a \<Longrightarrow> 0 < b \<Longrightarrow> c_div a b = a div b"
  by (cases "a = 0") (auto simp: c_div_def sgn_if)

lemma c_div_2_bounds: "2 * \<bar>c_div a 2\<bar> \<le> \<bar>a\<bar>" "\<bar>a\<bar> \<le> 2 * \<bar>c_div a 2\<bar> + 1"
  by (auto simp: c_div_def sgn_if abs_if)

subsection \<open>Strings in fixed buffers\<close>

abbreviation NUL :: char where "NUL \<equiv> CHR 0x00"

text \<open>What a C function sees of a buffer: the bytes before the first NUL.\<close>

definition c_str :: "char list \<Rightarrow> string" where
  "c_str buf = takeWhile (\<lambda>c. c \<noteq> NUL) buf"

text \<open>A store \<open>buf[i] = c\<close>; an index outside the array is undefined behaviour, \<open>None\<close>.\<close>

definition c_store :: "char list \<Rightarrow> int \<Rightarrow> char \<Rightarrow> char list option" where
  "c_store buf i c = (if 0 \<le> i \<and> nat i < length buf then Some (buf[nat i := c]) else None)"

lemma c_store_in_range:
  "0 \<le> i \<Longrightarrow> i < int (length buf) \<Longrightarrow> c_store buf i c = Some (buf[nat i := c])"
  by (simp add: c_store_def nat_less_iff)

lemma length_c_store: "c_store buf i c = Some buf' \<Longrightarrow> length buf' = length buf"
  by (auto simp: c_store_def split: if_splits)

lemma c_str_replicate_NUL [simp]: "c_str (replicate n NUL) = []"
  by (cases n) (simp_all add: c_str_def)

lemma c_str_append_NUL:
  "NUL \<notin> set s \<Longrightarrow> c_str (s @ NUL # rest) = s"
  by (induction s) (auto simp: c_str_def)

text \<open>The text a NUL-padded buffer of size \<open>n\<close> holds.\<close>

definition holds_text :: "nat \<Rightarrow> char list \<Rightarrow> string \<Rightarrow> bool" where
  "holds_text n buf s \<longleftrightarrow>
     NUL \<notin> set s \<and> length s < n \<and> buf = s @ replicate (n - length s) NUL"

lemma holds_text_length [simp]: "holds_text n buf s \<Longrightarrow> length buf = n"
  by (auto simp: holds_text_def)

lemma holds_text_less: "holds_text n buf s \<Longrightarrow> length s < n"
  unfolding holds_text_def by blast

lemma holds_text_no_NUL: "holds_text n buf s \<Longrightarrow> NUL \<notin> set s"
  unfolding holds_text_def by blast

lemma holds_text_iff:
  "holds_text n buf s \<longleftrightarrow>
     NUL \<notin> set s \<and> (\<exists>k. n = length s + Suc k \<and> buf = s @ NUL # replicate k NUL)"
proof
  assume "holds_text n buf s"
  then have nul: "NUL \<notin> set s" and lt: "length s < n"
    and buf: "buf = s @ replicate (n - length s) NUL" unfolding holds_text_def by blast+
  from lt obtain k where k: "n - length s = Suc k" by (metis Suc_diff_Suc)
  from lt k have "n = length s + Suc k" by arith
  moreover from buf have "buf = s @ NUL # replicate k NUL" unfolding k by simp
  ultimately show "NUL \<notin> set s \<and> (\<exists>k. n = length s + Suc k \<and> buf = s @ NUL # replicate k NUL)"
    using nul by blast
next
  assume "NUL \<notin> set s \<and> (\<exists>k. n = length s + Suc k \<and> buf = s @ NUL # replicate k NUL)"
  then obtain k where "NUL \<notin> set s" "n = length s + Suc k" "buf = s @ NUL # replicate k NUL"
    by blast
  moreover have "length s + Suc k - length s = Suc k" by (rule add_diff_cancel_left')
  ultimately show "holds_text n buf s" unfolding holds_text_def by (simp only:) simp
qed

lemma holds_text_c_str: "holds_text n buf s \<Longrightarrow> c_str buf = s"
  by (auto simp: holds_text_iff c_str_append_NUL)

lemma holds_text_empty: "0 < n \<Longrightarrow> holds_text n (replicate n NUL) []"
  by (simp add: holds_text_def)

lemma holds_text_snoc:
  assumes "holds_text n buf s" "c \<noteq> NUL" "Suc (length s) < n"
  shows "holds_text n (buf[length s := c, Suc (length s) := NUL]) (s @ [c])"
proof -
  from assms obtain k where k: "n = length s + Suc k" "buf = s @ NUL # replicate k NUL"
    and s: "NUL \<notin> set s" by (auto simp: holds_text_iff)
  then obtain j where j: "k = Suc j" using assms(3) by (cases k) auto
  have "buf[length s := c, Suc (length s) := NUL] = (s @ [c]) @ NUL # replicate j NUL"
    by (simp add: k(2) j list_update_append)
  moreover have "n = length (s @ [c]) + Suc j" by (simp add: k(1) j)
  ultimately show ?thesis using s assms(2) unfolding holds_text_iff by auto
qed

lemma holds_text_butlast:
  assumes "holds_text n buf s" "s \<noteq> []"
  shows "holds_text n (buf[length s - 1 := NUL]) (butlast s)"
proof -
  from assms(2) obtain t c where s: "s = t @ [c]" by (metis append_butlast_last_id)
  from assms(1) s obtain k where k: "n = length t + Suc (Suc k)"
      "buf = t @ c # NUL # replicate k NUL" and t: "NUL \<notin> set t"
    by (auto simp: holds_text_iff)
  have "buf[length s - 1 := NUL] = t @ NUL # replicate (Suc k) NUL"
    by (simp add: k(2) s list_update_append)
  then show ?thesis using k(1) t unfolding holds_text_iff s by auto
qed

lemma find_append:
  "find P (xs @ ys) = (case find P xs of None \<Rightarrow> find P ys | Some x \<Rightarrow> Some x)"
  by (induction xs) auto

lemma find_SomeD: "find P xs = Some x \<Longrightarrow> x \<in> set xs \<and> P x"
  by (auto simp: find_Some_iff)

section \<open>Intrusive lists\<close>

text \<open>
  libwayland's \<open>struct wl_list\<close> is used by the compositor only through
  \<open>wl_list_init\<close>, \<open>wl_list_insert\<close> (behind the head, or behind \<open>head.prev\<close>, which is the
  end), \<open>wl_list_remove\<close>, \<open>wl_list_empty\<close> and the iteration macros. The interface states
  what its documentation promises about the order in which iteration visits the elements.
  Every list of the compositor is kept as that order.
\<close>

locale wl_list_spec =
  fixes init :: "'l"
    and insert_head :: "'a \<Rightarrow> 'l \<Rightarrow> 'l"
    and insert_tail :: "'a \<Rightarrow> 'l \<Rightarrow> 'l"
    and unlink :: "'a \<Rightarrow> 'l \<Rightarrow> 'l"
    and elems :: "'l \<Rightarrow> 'a list"
  assumes elems_init: "elems init = []"
    and elems_insert_head: "elems (insert_head x l) = x # elems l"
    and elems_insert_tail: "elems (insert_tail x l) = elems l @ [x]"
    and elems_unlink: "distinct (elems l) \<Longrightarrow> elems (unlink x l) = filter (\<lambda>y. y \<noteq> x) (elems l)"
begin

lemma distinct_unlink: "distinct (elems l) \<Longrightarrow> distinct (elems (unlink x l))"
  by (simp add: elems_unlink)

lemma set_unlink: "distinct (elems l) \<Longrightarrow> set (elems (unlink x l)) = set (elems l) - {x}"
  by (auto simp: elems_unlink)

text \<open>Moving an element to the front, the idiom of a most-recently-used list.\<close>

lemma elems_move_to_front:
  "distinct (elems l) \<Longrightarrow>
   elems (insert_head x (unlink x l)) = x # filter (\<lambda>y. y \<noteq> x) (elems l)"
  by (simp add: elems_insert_head elems_unlink)

lemma move_to_front_distinct:
  "distinct (elems l) \<Longrightarrow> distinct (elems (insert_head x (unlink x l)))"
  by (simp add: elems_move_to_front)

lemma move_to_front_set:
  "distinct (elems l) \<Longrightarrow> x \<in> set (elems l) \<Longrightarrow>
   set (elems (insert_head x (unlink x l))) = set (elems l)"
  by (auto simp: elems_move_to_front)

text \<open>Iteration with an early exit finds the first element that passes the test.\<close>

lemma find_insert_tail:
  "find P (elems (insert_tail x l)) =
     (case find P (elems l) of None \<Rightarrow> if P x then Some x else None | Some y \<Rightarrow> Some y)"
  by (simp add: elems_insert_tail find_append split: option.split)

end

definition wl_list_init :: "'a list" where
  "wl_list_init = []"

definition wl_list_insert :: "'a \<Rightarrow> 'a list \<Rightarrow> 'a list" where
  "wl_list_insert x l = x # l"

definition wl_list_append :: "'a \<Rightarrow> 'a list \<Rightarrow> 'a list" where
  "wl_list_append x l = l @ [x]"

definition wl_list_remove :: "'a \<Rightarrow> 'a list \<Rightarrow> 'a list" where
  "wl_list_remove x l = remove1 x l"

lemmas wl_list_defs = wl_list_init_def wl_list_insert_def wl_list_append_def wl_list_remove_def

interpretation wl: wl_list_spec wl_list_init wl_list_insert wl_list_append wl_list_remove
  "\<lambda>l. l"
  by unfold_locales (simp_all add: wl_list_defs distinct_remove1_removeAll removeAll_filter_not_eq
      eq_commute)

end
