(* ===== verification/Zen_State.thy ===== *)
theory Zen_State
  imports Zen_Prelude
begin

text \<open>
  The data of the compositor: \<open>struct ZenCompositor\<close> and the per-object structs of
  \<open>src/compositor/include/zen\<close>, the module-level statics, the heap of live objects, and the
  two interfaces to code outside the repository: the trace of calls the compositor makes
  (\<open>call\<close>) and the answers it gets (\<open>env\<close>, a parameter of every operation that asks).
\<close>

section \<open>Keybindings\<close>

datatype ZenKeybindAction =
    ZEN_ACTION_LAUNCH_TERMINAL
  | ZEN_ACTION_TOGGLE_LAUNCHER
  | ZEN_ACTION_LOCK_SCREEN
  | ZEN_ACTION_SWITCH_WINDOW
  | ZEN_ACTION_CLOSE_WINDOW
  | ZEN_ACTION_CUSTOM
  | ZEN_ACTION_COUNT

record ZenKeybinding =
  modifiers :: u32
  keysym :: u32
  action :: ZenKeybindAction
  custom_cmd :: cstring

section \<open>The compositor\<close>

text \<open>
  The fields of \<open>struct ZenCompositor\<close>. A list head that was never initialised (its
  \<open>next\<close> is NULL) is \<open>None\<close>. The \<open>wl_listener\<close> members are not fields: whether a listener
  is linked is kept in \<open>lregs\<close> below. Coordinates of type \<open>double\<close> are rationals.
\<close>

record ZenCompositor =
  wl_display :: ptr
  backend :: ptr
  renderer :: ptr
  allocator :: ptr
  scene :: ptr
  scene_layout :: ptr
  output_layout :: ptr
  clear_color :: "rat list"
  wlr_comp :: ptr
  wlr_subcomp :: ptr
  xdg_shell :: ptr
  toplevels :: "addr list option"
  focused_toplevel :: ptr
  seat :: ptr
  cursor :: ptr
  xcursor_mgr :: ptr
  keyboards :: "addr list option"
  shell_overlay_tree :: ptr
  wallpaper_tree :: ptr
  test_overlay :: ptr
  layer_shell :: ptr
  layer_surfaces :: "addr list option"
  keybindings :: "ZenKeybinding list option"
  dark_mode :: bool
  bus :: ptr
  dbus_slot :: ptr
  dbus_event_source :: ptr
  lock_mgr :: ptr
  active_lock :: ptr
  locked :: bool
  xwayland :: ptr
  grabbed_toplevel :: ptr
  grab_x :: rat
  grab_y :: rat
  grab_node_x :: int
  grab_node_y :: int

section \<open>Objects on the heap\<close>

record ZenToplevel =
  xdg_toplevel :: ptr
  scene_tree :: ptr
  title :: cstring
  app_id :: cstring

record ZenKeyboard =
  wlr_keyboard :: addr

record ZenLayerSurface =
  layer_surface :: addr
  scene_layer :: ptr

record ZenCairoBuffer =
  surface :: ptr
  cr :: ptr
  pango_layout :: ptr
  wlr_buf :: ptr
  scene_buffer :: ptr
  buf_width :: int
  buf_height :: int

record ZenOutput =
  wlr_output :: addr
  scene_output :: ptr

record ZenXWaylandSurface =
  xwayland_surface :: addr
  scene_surface :: ptr
  xws_title :: cstring

text \<open>The wallpaper of one output, and the module's state with its list of them.\<close>

record ZenWallpaperOutput =
  wo_output :: addr
  wo_surface :: ptr
  wbuf :: ptr
  scene_buf :: ptr

record ZenWallpaperState =
  src_image :: ptr
  wp_outputs :: "ZenWallpaperOutput list"

section \<open>Module statics\<close>

record ZenLockScreen =
  wlr_lock :: ptr
  lock_buffer :: ptr
  ls_width :: int
  ls_height :: int
  show_error :: bool

section \<open>Listeners\<close>

text \<open>A \<open>wl_listener\<close> is a member of the object that embeds it.\<close>

datatype owner = Of_Compositor | Of_Toplevel addr | Of_Keyboard addr | Of_Layer addr
  | Of_Output addr | Of_Xws addr | Of_Module

datatype lfield =
    L_map | L_unmap | L_commit | L_destroy | L_request_move | L_request_resize
  | L_request_maximize | L_request_fullscreen | L_set_title | L_set_app_id
  | L_key | L_modifiers
  | L_new_output | L_new_input | L_cursor_motion | L_cursor_motion_absolute | L_cursor_button
  | L_new_xdg_toplevel | L_request_cursor | L_new_layer_surface | L_new_lock
  | L_frame | L_request_state
  | L_associate | L_dissociate | L_xwayland_ready | L_new_xwayland_surface

type_synonym listener = "owner \<times> lfield"

section \<open>Calls that leave the compositor\<close>

text \<open>
  Colours and coordinates of the drawing calls are the exact values of the arguments;
  the angles of \<open>cairo_arc\<close> are given in multiples of \<open>M_PI\<close>.
\<close>

datatype draw =
    Set_source_rgba rat rat rat rat
  | Cairo_paint
  | Cairo_rectangle int int int int
  | Cairo_fill
  | Cairo_new_sub_path
  | Cairo_arc rat rat rat rat rat
  | Cairo_close_path
  | Set_font string
  | Set_text string
  | Move_to int int
  | Show_layout
  | Set_source_rgb rat rat rat
  | Cairo_save
  | Cairo_translate rat rat
  | Cairo_scale rat rat
  | Set_source_surface addr
  | Cairo_restore

text \<open>\<open>wlr_xdg_toplevel\<close> requests, on the toplevel's handle.\<close>

datatype xdg_call =
    Set_activated addr bool
  | Set_size addr int int
  | Set_maximized addr bool
  | Set_fullscreen addr bool
  | Send_close addr

text \<open>\<open>wlr_seat\<close>: what clients are told about keyboard and pointer.\<close>

datatype keyboard_call =
    Keyboard_enter addr
  | Keyboard_clear_focus
  | Keyboard_key u32 u32 bool
  | Keyboard_modifiers addr

datatype pointer_call =
    Pointer_button u32 u32 bool
  | Pointer_enter addr rat rat
  | Pointer_motion u32 rat rat
  | Pointer_clear_focus

datatype seat_call =
    Set_keyboard addr
  | Set_capabilities u32

datatype cursor_call =
    Cursor_move rat rat
  | Cursor_warp_absolute rat rat
  | Cursor_set_xcursor string
  | Cursor_set_surface ptr int int
  | Cursor_attach_input_device addr
  | Cursor_attach_output_layout ptr

datatype device_call =
    Set_keymap addr
  | Set_repeat_info addr int int

text \<open>The scene graph.\<close>

datatype node_call =
    Set_enabled addr bool
  | Raise_to_top addr
  | Set_position addr int int
  | Scene_buffer_set_buffer addr addr
  | Layer_configure addr u32 u32
  | Layer_destroy addr
  | Rect_set_size addr int int

text \<open>Objects the compositor acquires from a library and gives back.\<close>

datatype kind =
    K_surface | K_cairo | K_pango | K_buffer | K_node | K_timer | K_slot | K_bus
  | K_cursor | K_xcursor_mgr | K_session_lock
  | K_event_source | K_display | K_backend | K_renderer | K_allocator | K_scene | K_xwayland

datatype proc_call =
    Fork_exec "string list list" \<comment> \<open>the argument vectors the child tries before \<open>_exit(127)\<close>\<close>
  | Fork_failed

text \<open>Outputs: rendering set up, states committed, frames shown.\<close>

datatype output_call =
    Init_render addr
  | Commit_mode addr ptr rat         \<comment> \<open>enabled, with the preferred mode if there is one, and a scale\<close>
  | Commit_requested addr
  | Layout_add_auto addr
  | Scene_layout_add addr ptr
  | Scene_commit ptr
  | Send_frame_done ptr

text \<open>D-Bus: the values of a reply, and what is sent.\<close>

datatype bus_value = BV_b bool | BV_i int | BV_as "string list"

datatype bus_call =
    Bus_reply bus_value
  | Bus_set_error string string

datatype x11_call =
    X11_activate addr bool
  | X11_set_seat addr addr

datatype call =
    Xdg xdg_call
  | Keyboard keyboard_call
  | Pointer pointer_call
  | Seat seat_call
  | Cursor cursor_call
  | Device device_call
  | Node node_call
  | Draw draw
  | Acquire kind addr
  | Release kind addr
  | Surface_flush addr
  | Send_locked addr
  | Timer_update addr int
  | Proc proc_call
  | Output output_call
  | Bus bus_call
  | X11 x11_call
  | Setenv string string
  | Serial "string list"

section \<open>The world\<close>

text \<open>
  The compositor, its heap, its statics and what it has done so far. An address that is not
  in a heap map is not (or no longer) allocated.
\<close>

record world = ZenCompositor +
  tops :: "addr \<rightharpoonup> ZenToplevel"
  kbds :: "addr \<rightharpoonup> ZenKeyboard"
  lays :: "addr \<rightharpoonup> ZenLayerSurface"
  bufs :: "addr \<rightharpoonup> ZenCairoBuffer"
  zouts :: "addr \<rightharpoonup> ZenOutput"
  xwss :: "addr \<rightharpoonup> ZenXWaylandSurface"
  shell :: ptr
  g_wallpaper_state :: "ZenWallpaperState option"
  lregs :: "listener list"
  s_lock :: ZenLockScreen
  s_password :: "char list"
  s_password_len :: int
  s_idle_timer :: ptr
  s_lock_signal_slot :: ptr
  calls :: "call list"

text \<open>
  Operations that dereference pointers are partial: \<open>None\<close> is undefined behaviour of the C
  program (a NULL or dangling dereference, a store outside an array).
\<close>

definition emit :: "call \<Rightarrow> world \<Rightarrow> world" where
  "emit c w = w\<lparr>calls := calls w @ [c]\<rparr>"

definition emits :: "call list \<Rightarrow> world \<Rightarrow> world" where
  "emits cs w = w\<lparr>calls := calls w @ cs\<rparr>"

lemma emits_Nil [simp]: "emits [] w = w"
  by (simp add: emits_def)

lemma emit_emits: "emit c w = emits [c] w"
  by (simp add: emit_def emits_def)

lemma emits_emits [simp]: "emits ds (emits cs w) = emits (cs @ ds) w"
  by (simp add: emits_def)

lemma calls_emits [simp]: "calls (emits cs w) = calls w @ cs"
  by (simp add: emits_def)

text \<open>
  \<open>wl_signal_add\<close> links a listener into a signal's list and \<open>wl_list_remove\<close> unlinks it.
  Linking a listener that is already linked corrupts the list it is in, and unlinking one
  that is not linked follows stale pointers: both are faults.
\<close>

definition listen :: "listener \<Rightarrow> world \<Rightarrow> world option" where
  "listen l w = (if l \<in> set (lregs w) then None else Some (w\<lparr>lregs := lregs w @ [l]\<rparr>))"

definition unlisten :: "listener \<Rightarrow> world \<Rightarrow> world option" where
  "unlisten l w = (if l \<in> set (lregs w) then Some (w\<lparr>lregs := remove1 l (lregs w)\<rparr>) else None)"

primrec listen_all :: "owner \<Rightarrow> lfield list \<Rightarrow> world \<Rightarrow> world option" where
  "listen_all ow [] w = Some w"
| "listen_all ow (f # fs) w = do { w \<leftarrow> listen (ow, f) w; listen_all ow fs w }"

primrec unlisten_all :: "owner \<Rightarrow> lfield list \<Rightarrow> world \<Rightarrow> world option" where
  "unlisten_all ow [] w = Some w"
| "unlisten_all ow (f # fs) w = do { w \<leftarrow> unlisten (ow, f) w; unlisten_all ow fs w }"

text \<open>Both succeed exactly on the right states, and then change \<open>lregs\<close> only.\<close>

lemma listen_all_Some:
  "distinct fs \<Longrightarrow> Pair ow ` set fs \<inter> set (lregs w) = {} \<Longrightarrow>
   listen_all ow fs w = Some (w\<lparr>lregs := lregs w @ map (Pair ow) fs\<rparr>)"
proof (induction fs arbitrary: w)
  case (Cons f fs)
  then have "Pair ow ` set fs \<inter> set (lregs w @ [(ow, f)]) = {}" by auto
  with Cons show ?case by (simp add: listen_def)
qed simp

lemma unlisten_all_Some:
  "distinct fs \<Longrightarrow> Pair ow ` set fs \<subseteq> set (lregs w) \<Longrightarrow>
   unlisten_all ow fs w = Some (w\<lparr>lregs := fold (\<lambda>f. remove1 (ow, f)) fs (lregs w)\<rparr>)"
proof (induction fs arbitrary: w)
  case (Cons f fs)
  have "(ow, x) \<in> set (remove1 (ow, f) (lregs w))" if "x \<in> set fs" for x
    using that Cons.prems by (cases "x = f") (auto simp: in_set_remove1)
  then have "Pair ow ` set fs \<subseteq> set (remove1 (ow, f) (lregs w))" by blast
  with Cons show ?case by (simp add: unlisten_def)
qed simp

lemma set_fold_remove1:
  "distinct xs \<Longrightarrow> set (fold (\<lambda>f. remove1 (ow, f)) fs xs) = set xs - Pair ow ` set fs"
  by (induction fs arbitrary: xs) (auto simp: set_remove1_eq)

lemma distinct_fold_remove1:
  "distinct xs \<Longrightarrow> distinct (fold (\<lambda>f. remove1 (ow, f)) fs xs)"
  by (induction fs arbitrary: xs) auto

section \<open>The zeroed state\<close>

text \<open>
  What \<open>memset(compositor, 0, sizeof(*compositor))\<close> and the zero-initialised statics give
  before anything has run: every pointer NULL, every list head unlinked, nothing allocated.
\<close>

definition zero_world :: world where
  "zero_world = \<lparr>
     wl_display = None, backend = None, renderer = None, allocator = None, scene = None,
     scene_layout = None, output_layout = None, clear_color = [0, 0, 0, 0], wlr_comp = None,
     wlr_subcomp = None, xdg_shell = None,
     toplevels = None, focused_toplevel = None, seat = None, cursor = None, xcursor_mgr = None,
     keyboards = None, shell_overlay_tree = None, wallpaper_tree = None, test_overlay = None,
     layer_shell = None, layer_surfaces = None, keybindings = None, dark_mode = False,
     bus = None, dbus_slot = None, dbus_event_source = None, lock_mgr = None, active_lock = None,
     locked = False, xwayland = None, grabbed_toplevel = None, grab_x = 0, grab_y = 0,
     grab_node_x = 0, grab_node_y = 0,
     tops = Map.empty, kbds = Map.empty, lays = Map.empty, bufs = Map.empty,
     zouts = Map.empty, xwss = Map.empty, shell = None, g_wallpaper_state = None, lregs = [],
     s_lock = \<lparr>wlr_lock = None, lock_buffer = None, ls_width = 0, ls_height = 0,
       show_error = False\<rparr>,
     s_password = replicate 256 NUL, s_password_len = 0, s_idle_timer = None,
     s_lock_signal_slot = None, calls = []\<rparr>"

end
