(* ===== verification/Zen_Xdg.thy ===== *)
theory Zen_Xdg
  imports Zen_State
begin

text \<open>
  The window management of \<open>src/compositor/src/xdg.c\<close>: the most-recently-used list of
  toplevels, focus, the ten listeners of a toplevel, initialisation and destruction.
\<close>

section \<open>What window management asks of wlroots\<close>

text \<open>The functions that read a library object take its handle.\<close>

record xdg_env =
  x_shell_create :: ptr                            \<comment> \<open>\<open>wlr_xdg_shell_create\<close>\<close>
  x_calloc :: ptr                                  \<comment> \<open>\<open>calloc\<close> of a \<open>ZenToplevel\<close>\<close>
  x_scene_create :: ptr                            \<comment> \<open>\<open>wlr_scene_xdg_surface_create\<close>\<close>
  x_strdup_ok :: bool
  x_surface :: "addr \<Rightarrow> addr"                      \<comment> \<open>\<open>xdg_toplevel->base->surface\<close>\<close>
  x_mapped :: "addr \<Rightarrow> bool"                       \<comment> \<open>whether that surface is mapped\<close>
  x_keyboard :: bool                               \<comment> \<open>\<open>wlr_seat_get_keyboard\<close> is not NULL\<close>
  x_cursor_pos :: "rat \<times> rat"
  x_node_pos :: "addr \<Rightarrow> int \<times> int"
  x_maximized :: "addr \<Rightarrow> bool"
  x_fullscreen :: "addr \<Rightarrow> bool"
  x_requested_output :: "addr \<Rightarrow> ptr"
  x_output_at :: "int \<Rightarrow> int \<Rightarrow> ptr"              \<comment> \<open>\<open>wlr_output_layout_output_at\<close>\<close>
  x_outputs :: "addr list"                         \<comment> \<open>the outputs of the layout\<close>
  x_box :: "addr \<Rightarrow> (int \<times> int) \<times> (int \<times> int)"    \<comment> \<open>position and size\<close>
  x_title :: "addr \<Rightarrow> cstring"
  x_app_id :: "addr \<Rightarrow> cstring"

section \<open>Focus\<close>

definition zen_xdg_get_focused :: "cptr \<Rightarrow> world \<Rightarrow> ptr" where
  "zen_xdg_get_focused c w = (if c = CNULL then None else focused_toplevel w)"

text \<open>The calls that clear the activation of the previous toplevel.\<close>

definition deactivate_prev :: "world \<Rightarrow> world option" where
  "deactivate_prev w = (case focused_toplevel w of
      None \<Rightarrow> Some w
    | Some p \<Rightarrow> do {
        prev \<leftarrow> tops w p;
        Some (case xdg_toplevel prev of
                None \<Rightarrow> w
              | Some x \<Rightarrow> emits [Xdg (Set_activated x False)] w) })"

definition seat_enter :: "xdg_env \<Rightarrow> addr \<Rightarrow> world \<Rightarrow> world" where
  "seat_enter E x w = (case seat w of
      None \<Rightarrow> w
    | Some _ \<Rightarrow> if x_keyboard E then emits [Keyboard (Keyboard_enter (x_surface E x))] w else w)"

definition zen_xdg_focus_toplevel :: "xdg_env \<Rightarrow> cptr \<Rightarrow> ptr \<Rightarrow> world \<Rightarrow> world option" where
  "zen_xdg_focus_toplevel E c toplevel w =
     (if c = CNULL then Some w
      else if focused_toplevel w = toplevel then Some w
      else do {
        w \<leftarrow> deactivate_prev w;
        let w = w\<lparr>focused_toplevel := toplevel\<rparr>;
        case toplevel of
          None \<Rightarrow> Some (case seat w of
                          None \<Rightarrow> w
                        | Some _ \<Rightarrow> emits [Keyboard Keyboard_clear_focus] w)
        | Some a \<Rightarrow> do {
            t \<leftarrow> tops w a;
            l \<leftarrow> toplevels w;
            w \<leftarrow> (if a \<in> set l
                  then Some (w\<lparr>toplevels := Some (wl_list_insert a (wl_list_remove a l))\<rparr>)
                  else None);
            x \<leftarrow> xdg_toplevel t;
            let w = emits [Xdg (Set_activated x True)] w;
            let w = seat_enter E x w;
            Some (case scene_tree t of
                    None \<Rightarrow> w
                  | Some n \<Rightarrow> emits [Node (Raise_to_top n)] w) } })"

section \<open>Initialisation and destruction\<close>

definition zen_xdg_init :: "xdg_env \<Rightarrow> cptr \<Rightarrow> world \<Rightarrow> (world \<times> int) option" where
  "zen_xdg_init E c w =
     (if c = CNULL \<or> wl_display w = None then Some (w, -1)
      else let w = w\<lparr>toplevels := Some wl_list_init, focused_toplevel := None,
                     xdg_shell := x_shell_create E\<rparr>
           in if xdg_shell w = None then Some (w, -1)
              else do { w \<leftarrow> listen (Of_Compositor, L_new_xdg_toplevel) w; Some (w, 0) })"

definition free_toplevel :: "addr \<Rightarrow> world \<Rightarrow> world option" where
  "free_toplevel a w = do {
     _ \<leftarrow> tops w a;
     l \<leftarrow> toplevels w;
     if a \<in> set l
     then Some (w\<lparr>toplevels := Some (wl_list_remove a l), tops := (tops w)(a := None)\<rparr>)
     else None }"

primrec free_toplevels :: "addr list \<Rightarrow> world \<Rightarrow> world option" where
  "free_toplevels [] w = Some w"
| "free_toplevels (a # as) w = do { w \<leftarrow> free_toplevel a w; free_toplevels as w }"

text \<open>
  The toplevels are freed while their ten listeners stay linked in the signals of their
  surfaces. The link of the compositor's own listener is zero until it is added.
\<close>

definition zen_xdg_destroy :: "cptr \<Rightarrow> world \<Rightarrow> world option" where
  "zen_xdg_destroy c w =
     (if c = CNULL then Some w
      else do {
        w \<leftarrow> (case toplevels w of None \<Rightarrow> Some w | Some l \<Rightarrow> free_toplevels l w);
        let w = w\<lparr>focused_toplevel := None\<rparr>;
        if (Of_Compositor, L_new_xdg_toplevel) \<in> set (lregs w)
        then unlisten (Of_Compositor, L_new_xdg_toplevel) w
        else Some w })"

section \<open>The listeners of a toplevel\<close>

definition toplevel_listeners :: "lfield list" where
  "toplevel_listeners = [L_map, L_unmap, L_commit, L_destroy, L_request_move, L_request_resize,
     L_request_maximize, L_request_fullscreen, L_set_title, L_set_app_id]"

definition handle_toplevel_map :: "xdg_env \<Rightarrow> addr \<Rightarrow> world \<Rightarrow> world option" where
  "handle_toplevel_map E a w = do {
     t \<leftarrow> tops w a;
     n \<leftarrow> scene_tree t;
     zen_xdg_focus_toplevel E CPTR (Some a) (emits [Node (Set_enabled n True)] w) }"

primrec next_mapped :: "xdg_env \<Rightarrow> addr \<Rightarrow> world \<Rightarrow> addr list \<Rightarrow> ptr option" where
  "next_mapped E a w [] = Some None"
| "next_mapped E a w (i # is) =
     (if i = a then next_mapped E a w is
      else do {
        t \<leftarrow> tops w i;
        case xdg_toplevel t of
          None \<Rightarrow> next_mapped E a w is
        | Some x \<Rightarrow> if x_mapped E x then Some (Some i) else next_mapped E a w is })"

definition handle_toplevel_unmap :: "xdg_env \<Rightarrow> addr \<Rightarrow> world \<Rightarrow> world option" where
  "handle_toplevel_unmap E a w = do {
     t \<leftarrow> tops w a;
     n \<leftarrow> scene_tree t;
     let w = emits [Node (Set_enabled n False)] w;
     if focused_toplevel w = Some a then do {
       l \<leftarrow> toplevels w;
       nxt \<leftarrow> next_mapped E a w l;
       zen_xdg_focus_toplevel E CPTR nxt w }
     else Some w }"

definition handle_toplevel_commit :: "addr \<Rightarrow> world \<Rightarrow> world option" where
  "handle_toplevel_commit a w = Some w"

definition cancel_grab :: "addr \<Rightarrow> world \<Rightarrow> world" where
  "cancel_grab a w =
     (if grabbed_toplevel w = Some a
      then w\<lparr>grabbed_toplevel := None, grab_x := 0, grab_y := 0, grab_node_x := 0, grab_node_y := 0\<rparr>
      else w)"

definition handle_toplevel_destroy :: "xdg_env \<Rightarrow> addr \<Rightarrow> world \<Rightarrow> world option" where
  "handle_toplevel_destroy E a w = do {
     _ \<leftarrow> tops w a;
     w \<leftarrow> (if focused_toplevel w = Some a then do {
             l \<leftarrow> toplevels w;
             zen_xdg_focus_toplevel E CPTR (find (\<lambda>i. i \<noteq> a) l) w }
           else Some w);
     let w = cancel_grab a w;
     w \<leftarrow> unlisten_all (Of_Toplevel a) toplevel_listeners w;
     free_toplevel a w }"

definition handle_toplevel_request_move :: "xdg_env \<Rightarrow> addr \<Rightarrow> world \<Rightarrow> world option" where
  "handle_toplevel_request_move E a w = do {
     t \<leftarrow> tops w a;
     case (cursor w, scene_tree t) of
       (Some _, Some n) \<Rightarrow> Some (w\<lparr>grabbed_toplevel := Some a, grab_x := fst (x_cursor_pos E),
          grab_y := snd (x_cursor_pos E), grab_node_x := fst (x_node_pos E n),
          grab_node_y := snd (x_node_pos E n)\<rparr>)
     | _ \<Rightarrow> Some w }"

definition handle_toplevel_request_resize :: "addr \<Rightarrow> world \<Rightarrow> world option" where
  "handle_toplevel_request_resize a w = Some w"

definition output_under :: "xdg_env \<Rightarrow> addr \<Rightarrow> ptr" where
  "output_under E n = (let (sx, sy) = x_node_pos E n in x_output_at E sx sy)"

definition first_output :: "xdg_env \<Rightarrow> ptr" where
  "first_output E = (case x_outputs E of [] \<Rightarrow> None | out # _ \<Rightarrow> Some out)"

definition or_else :: "ptr \<Rightarrow> ptr \<Rightarrow> ptr" where
  "or_else p q = (case p of None \<Rightarrow> q | Some a \<Rightarrow> Some a)"

text \<open>Both requests size and place the toplevel over a whole output when turned on.\<close>

definition fill_output ::
  "xdg_env \<Rightarrow> addr \<Rightarrow> addr \<Rightarrow> (addr \<Rightarrow> bool \<Rightarrow> xdg_call) \<Rightarrow> ptr \<Rightarrow> world \<Rightarrow> world" where
  "fill_output E x n set_state output w = (case output of
      None \<Rightarrow> w
    | Some out \<Rightarrow>
        let ((bx, by'), (bw, bh)) = x_box E out
        in emits [Xdg (Set_size x bw bh), Xdg (set_state x True), Node (Set_position n bx by')] w)"

definition handle_toplevel_request_maximize :: "xdg_env \<Rightarrow> addr \<Rightarrow> world \<Rightarrow> world option" where
  "handle_toplevel_request_maximize E a w = do {
     t \<leftarrow> tops w a;
     case xdg_toplevel t of
       None \<Rightarrow> Some w
     | Some x \<Rightarrow>
         if output_layout w = None then Some w
         else if \<not> x_maximized E x then do {
           n \<leftarrow> scene_tree t;
           Some (fill_output E x n Set_maximized (or_else (output_under E n) (first_output E)) w) }
         else Some (emits [Xdg (Set_size x 0 0), Xdg (Set_maximized x False)] w) }"

definition handle_toplevel_request_fullscreen :: "xdg_env \<Rightarrow> addr \<Rightarrow> world \<Rightarrow> world option" where
  "handle_toplevel_request_fullscreen E a w = do {
     t \<leftarrow> tops w a;
     case xdg_toplevel t of
       None \<Rightarrow> Some w
     | Some x \<Rightarrow>
         if output_layout w = None then Some w
         else if \<not> x_fullscreen E x then do {
           n \<leftarrow> scene_tree t;
           Some (fill_output E x n Set_fullscreen
             (or_else (x_requested_output E x) (or_else (output_under E n) (first_output E))) w) }
         else Some (emits [Xdg (Set_size x 0 0), Xdg (Set_fullscreen x False)] w) }"

definition strdup_opt :: "bool \<Rightarrow> cstring \<Rightarrow> cstring" where
  "strdup_opt ok s = (case s of None \<Rightarrow> None | Some v \<Rightarrow> if ok then Some v else None)"

definition handle_toplevel_set_title :: "xdg_env \<Rightarrow> addr \<Rightarrow> world \<Rightarrow> world option" where
  "handle_toplevel_set_title E a w = do {
     t \<leftarrow> tops w a;
     x \<leftarrow> xdg_toplevel t;
     Some (w\<lparr>tops := (tops w)(a \<mapsto> t\<lparr>title := strdup_opt (x_strdup_ok E) (x_title E x)\<rparr>)\<rparr>) }"

definition handle_toplevel_set_app_id :: "xdg_env \<Rightarrow> addr \<Rightarrow> world \<Rightarrow> world option" where
  "handle_toplevel_set_app_id E a w = do {
     t \<leftarrow> tops w a;
     x \<leftarrow> xdg_toplevel t;
     Some (w\<lparr>tops := (tops w)(a \<mapsto> t\<lparr>app_id := strdup_opt (x_strdup_ok E) (x_app_id E x)\<rparr>)\<rparr>) }"

definition handle_new_xdg_toplevel :: "xdg_env \<Rightarrow> addr \<Rightarrow> world \<Rightarrow> world option" where
  "handle_new_xdg_toplevel E x w = (case x_calloc E of
      None \<Rightarrow> Some w
    | Some a \<Rightarrow> do {
        _ \<leftarrow> scene w;
        case x_scene_create E of
          None \<Rightarrow> Some w
        | Some n \<Rightarrow> do {
            let w = w\<lparr>tops := (tops w)(a \<mapsto> \<lparr>xdg_toplevel = Some x, scene_tree = Some n,
                      title = None, app_id = None\<rparr>)\<rparr>;
            w \<leftarrow> listen_all (Of_Toplevel a) toplevel_listeners w;
            l \<leftarrow> toplevels w;
            Some (w\<lparr>toplevels := Some (wl_list_insert a l)\<rparr>) } })"

text \<open>Which handler a listener of a toplevel is set to.\<close>

definition toplevel_notify :: "xdg_env \<Rightarrow> lfield \<Rightarrow> addr \<Rightarrow> world \<Rightarrow> world option" where
  "toplevel_notify E f a w =
     (if f = L_map then handle_toplevel_map E a w
      else if f = L_unmap then handle_toplevel_unmap E a w
      else if f = L_commit then handle_toplevel_commit a w
      else if f = L_destroy then handle_toplevel_destroy E a w
      else if f = L_request_move then handle_toplevel_request_move E a w
      else if f = L_request_resize then handle_toplevel_request_resize a w
      else if f = L_request_maximize then handle_toplevel_request_maximize E a w
      else if f = L_request_fullscreen then handle_toplevel_request_fullscreen E a w
      else if f = L_set_title then handle_toplevel_set_title E a w
      else if f = L_set_app_id then handle_toplevel_set_app_id E a w
      else None)"

end
