(* ===== verification/Zen_Xdg_Inv.thy ===== *)
theory Zen_Xdg_Inv
  imports Zen_Xdg
begin

text \<open>
  The invariant of window management and what each handler does to it: the list holds
  exactly the live toplevels, focus and grab point into it, listeners are registered for
  exactly the live toplevels, and exactly the focused toplevel is activated.
\<close>

section \<open>Activation as clients see it\<close>

text \<open>Which toplevel handles are activated after a sequence of calls.\<close>

definition activation :: "call \<Rightarrow> (addr \<Rightarrow> bool) \<Rightarrow> addr \<Rightarrow> bool" where
  "activation c s = (case c of Xdg (Set_activated x b) \<Rightarrow> s(x := b) | _ \<Rightarrow> s)"

definition activated :: "call list \<Rightarrow> addr \<Rightarrow> bool" where
  "activated cs = fold activation cs (\<lambda>_. False)"

lemma activation_simps [simp]:
  "activation (Xdg (Set_activated x b)) s = s(x := b)"
  "activation (Xdg (Set_size x i j)) s = s"
  "activation (Xdg (Set_maximized x b)) s = s"
  "activation (Xdg (Set_fullscreen x b)) s = s"
  "activation (Xdg (Send_close x)) s = s"
  "activation (Keyboard k) s = s"
  "activation (Node n) s = s"
  "activation (Pointer pc) s = s"
  "activation (Cursor cc) s = s"
  "activation (Seat sc) s = s"
  "activation (Device dc) s = s"
  by (simp_all add: activation_def)

lemma activated_append: "activated (cs @ ds) = fold activation ds (activated cs)"
  by (simp add: activated_def)

definition focused_handle :: "world \<Rightarrow> addr option" where
  "focused_handle w = do { a \<leftarrow> focused_toplevel w; t \<leftarrow> tops w a; xdg_toplevel t }"

section \<open>The invariant\<close>

definition xdg_wf :: "world \<Rightarrow> bool" where
  "xdg_wf w \<longleftrightarrow> (\<exists>l. toplevels w = Some l \<and> distinct l \<and> set l = dom (tops w)) \<and>
     (\<forall>a. focused_toplevel w = Some a \<longrightarrow> a \<in> dom (tops w)) \<and>
     (\<forall>a. grabbed_toplevel w = Some a \<longrightarrow> a \<in> dom (tops w)) \<and>
     (\<forall>a t. tops w a = Some t \<longrightarrow> xdg_toplevel t \<noteq> None \<and> scene_tree t \<noteq> None) \<and>
     (\<forall>a b s t. tops w a = Some s \<longrightarrow> tops w b = Some t \<longrightarrow> xdg_toplevel s = xdg_toplevel t \<longrightarrow> a = b) \<and>
     distinct (lregs w) \<and>
     (\<forall>a f. (Of_Toplevel a, f) \<in> set (lregs w) \<longleftrightarrow> a \<in> dom (tops w) \<and> f \<in> set toplevel_listeners) \<and>
     activated (calls w) = (\<lambda>x. focused_handle w = Some x)"

lemma xdg_wf_list:
  assumes "xdg_wf w"
  obtains l where "toplevels w = Some l" "distinct l" "set l = dom (tops w)"
  using assms unfolding xdg_wf_def by blast

lemma xdg_wf_listD: "xdg_wf w \<Longrightarrow> toplevels w = Some l \<Longrightarrow> distinct l \<and> set l = dom (tops w)"
  unfolding xdg_wf_def by auto

lemma xdg_wf_live:
  assumes "xdg_wf w" "tops w a = Some t"
  obtains x n where "xdg_toplevel t = Some x" "scene_tree t = Some n"
  using assms unfolding xdg_wf_def by blast

lemma xdg_wf_focus: "xdg_wf w \<Longrightarrow> focused_toplevel w = Some a \<Longrightarrow> \<exists>t. tops w a = Some t"
  unfolding xdg_wf_def by blast

lemma xdg_wf_activated: "xdg_wf w \<Longrightarrow> activated (calls w) = (\<lambda>x. focused_handle w = Some x)"
  unfolding xdg_wf_def by blast

lemma xdg_wf_inj:
  "xdg_wf w \<Longrightarrow> tops w a = Some s \<Longrightarrow> tops w b = Some t \<Longrightarrow> xdg_toplevel s = xdg_toplevel t \<Longrightarrow> a = b"
  unfolding xdg_wf_def by blast

lemma xdg_wf_tops: "xdg_wf w \<Longrightarrow> tops w a = Some t \<Longrightarrow> xdg_toplevel t \<noteq> None \<and> scene_tree t \<noteq> None"
  unfolding xdg_wf_def by blast

lemma xdg_wf_grab: "xdg_wf w \<Longrightarrow> grabbed_toplevel w = Some a \<Longrightarrow> \<exists>t. tops w a = Some t"
  unfolding xdg_wf_def by blast

lemma xdg_wf_lregs:
  "xdg_wf w \<Longrightarrow> distinct (lregs w)"
  "xdg_wf w \<Longrightarrow> (Of_Toplevel a, f) \<in> set (lregs w) \<longleftrightarrow> tops w a \<noteq> None \<and> f \<in> set toplevel_listeners"
  unfolding xdg_wf_def by blast+

lemma xdg_wfI:
  assumes "toplevels w = Some l" "distinct l" "set l = dom (tops w)"
    "\<And>a. focused_toplevel w = Some a \<Longrightarrow> \<exists>t. tops w a = Some t"
    "\<And>a. grabbed_toplevel w = Some a \<Longrightarrow> \<exists>t. tops w a = Some t"
    "\<And>a t. tops w a = Some t \<Longrightarrow> xdg_toplevel t \<noteq> None \<and> scene_tree t \<noteq> None"
    "\<And>a b s t. tops w a = Some s \<Longrightarrow> tops w b = Some t \<Longrightarrow> xdg_toplevel s = xdg_toplevel t \<Longrightarrow> a = b"
    "distinct (lregs w)"
    "\<And>a f. (Of_Toplevel a, f) \<in> set (lregs w) \<longleftrightarrow> tops w a \<noteq> None \<and> f \<in> set toplevel_listeners"
    "activated (calls w) = (\<lambda>x. focused_handle w = Some x)"
  shows "xdg_wf w"
  unfolding xdg_wf_def using assms by blast

text \<open>The invariant reads six fields; calls that do not activate anything keep it.\<close>

lemma xdg_wf_cong:
  assumes "toplevels w' = toplevels w" "tops w' = tops w" "focused_toplevel w' = focused_toplevel w"
    "grabbed_toplevel w' = grabbed_toplevel w \<or> grabbed_toplevel w' = None \<or>
       (\<exists>a. grabbed_toplevel w' = Some a \<and> a \<in> dom (tops w))"
    "lregs w' = lregs w" "activated (calls w') = activated (calls w)"
  shows "xdg_wf w \<Longrightarrow> xdg_wf w'"
  using assms unfolding xdg_wf_def focused_handle_def by (elim disjE) auto

lemma xdg_wf_emits:
  assumes "xdg_wf w" "fold activation cs (activated (calls w)) = activated (calls w)"
  shows "xdg_wf (emits cs w)"
  by (rule xdg_wf_cong [of "emits cs w" w]) (use assms in \<open>simp_all add: emits_def activated_append\<close>)

section \<open>Focus\<close>

definition mru_after_focus :: "ptr \<Rightarrow> world \<Rightarrow> addr list \<Rightarrow> addr list" where
  "mru_after_focus p w l = (case p of
      None \<Rightarrow> l
    | Some a \<Rightarrow> if focused_toplevel w = p then l else a # filter (\<lambda>y. y \<noteq> a) l)"

lemma mru_after_focus_set:
  "p = None \<or> (\<exists>a. p = Some a \<and> a \<in> set l) \<Longrightarrow> distinct l \<Longrightarrow>
   set (mru_after_focus p w l) = set l \<and> distinct (mru_after_focus p w l)"
  by (auto simp: mru_after_focus_def split: if_splits)

lemma deactivate_prev_effect:
  assumes "xdg_wf w"
  shows "\<exists>cs. deactivate_prev w = Some (w\<lparr>calls := calls w @ cs\<rparr>) \<and>
    fold activation cs (activated (calls w)) = (\<lambda>_. False)"
proof (cases "focused_toplevel w")
  case None
  with xdg_wf_activated [OF assms] show ?thesis
    by (intro exI [of _ "[]"]) (simp add: deactivate_prev_def focused_handle_def)
next
  case (Some p)
  with xdg_wf_focus [OF assms] obtain t where t: "tops w p = Some t" by blast
  from assms t obtain x n where x: "xdg_toplevel t = Some x" "scene_tree t = Some n" by (rule xdg_wf_live)
  with Some t xdg_wf_activated [OF assms] show ?thesis
    by (intro exI [of _ "[Xdg (Set_activated x False)]"])
       (auto simp: deactivate_prev_def focused_handle_def emits_def fun_eq_iff)
qed

lemma focus_effect:
  assumes wf: "xdg_wf w" "toplevels w = Some l" and p: "p = None \<or> (\<exists>a. p = Some a \<and> a \<in> set l)"
  shows "\<exists>cs. zen_xdg_focus_toplevel E CPTR p w =
      Some (w\<lparr>toplevels := Some (mru_after_focus p w l), focused_toplevel := p, calls := calls w @ cs\<rparr>) \<and>
    activated (calls w @ cs) = (\<lambda>x. (do { a \<leftarrow> p; t \<leftarrow> tops w a; xdg_toplevel t }) = Some x)"
proof (cases "focused_toplevel w = p")
  case True
  with wf xdg_wf_activated [OF wf(1)] show ?thesis
    by (intro exI [of _ "[]"])
       (auto simp: zen_xdg_focus_toplevel_def mru_after_focus_def focused_handle_def split: option.split)
next
  case False
  from deactivate_prev_effect [OF wf(1)] obtain cs where
    cs: "deactivate_prev w = Some (w\<lparr>calls := calls w @ cs\<rparr>)"
    and act: "fold activation cs (activated (calls w)) = (\<lambda>_. False)" by blast
  show ?thesis
  proof (cases p)
    case None
    let ?ds = "case seat w of None \<Rightarrow> [] | Some _ \<Rightarrow> [Keyboard Keyboard_clear_focus]"
    from None False cs act wf(2) show ?thesis
      by (intro exI [of _ "cs @ ?ds"])
         (auto simp: zen_xdg_focus_toplevel_def mru_after_focus_def emits_def activated_append split: option.split)
  next
    case (Some a)
    with p have a: "a \<in> set l" "distinct l" using xdg_wf_listD [OF wf] by auto
    then obtain t where t: "tops w a = Some t" using xdg_wf_listD [OF wf] by auto
    from wf(1) t obtain x n where x: "xdg_toplevel t = Some x" "scene_tree t = Some n" by (rule xdg_wf_live)
    let ?ks = "case seat w of None \<Rightarrow> []
      | Some _ \<Rightarrow> if x_keyboard E then [Keyboard (Keyboard_enter (x_surface E x))] else []"
    have "zen_xdg_focus_toplevel E CPTR p w = Some (w\<lparr>toplevels := Some (mru_after_focus p w l),
        focused_toplevel := p,
        calls := calls w @ (cs @ Xdg (Set_activated x True) # ?ks @ [Node (Raise_to_top n)])\<rparr>)"
      using Some False cs a t x wf(2) wl.elems_move_to_front [OF a(2), of a]
      by (simp add: zen_xdg_focus_toplevel_def mru_after_focus_def emits_def seat_enter_def split: option.split)
    moreover have "activated (calls w @ (cs @ Xdg (Set_activated x True) # ?ks @ [Node (Raise_to_top n)])) =
        (\<lambda>y. Some x = Some y)"
      using act by (auto simp: activated_append fun_eq_iff split: option.split)
    ultimately show ?thesis using Some t x by (metis bind.bind_lunit)
  qed
qed

lemma focus_keeps_wf:
  assumes wf: "xdg_wf w" "toplevels w = Some l" and p: "p = None \<or> (\<exists>a. p = Some a \<and> a \<in> set l)"
  shows "\<exists>w' cs. zen_xdg_focus_toplevel E CPTR p w = Some w' \<and> xdg_wf w' \<and>
    w' = w\<lparr>toplevels := Some (mru_after_focus p w l), focused_toplevel := p, calls := calls w @ cs\<rparr>"
proof -
  from focus_effect [OF assms, of E] obtain cs where
    f: "zen_xdg_focus_toplevel E CPTR p w =
      Some (w\<lparr>toplevels := Some (mru_after_focus p w l), focused_toplevel := p, calls := calls w @ cs\<rparr>)"
    and act: "activated (calls w @ cs) = (\<lambda>x. (do { a \<leftarrow> p; t \<leftarrow> tops w a; xdg_toplevel t }) = Some x)"
    by blast
  let ?w = "w\<lparr>toplevels := Some (mru_after_focus p w l), focused_toplevel := p, calls := calls w @ cs\<rparr>"
  from xdg_wf_listD [OF wf] have l: "distinct l" "set l = dom (tops w)" by blast+
  note m = mru_after_focus_set [OF p l(1), of w]
  have "xdg_wf ?w" using wf(1) p m l(2) act unfolding xdg_wf_def focused_handle_def by auto
  with f show ?thesis by blast
qed

section \<open>The handlers\<close>

lemma map_wf:
  assumes wf: "xdg_wf w" "toplevels w = Some l" and t: "tops w a = Some t" "scene_tree t = Some n"
  shows "\<exists>w' cs. handle_toplevel_map E a w = Some w' \<and> xdg_wf w' \<and>
    w' = w\<lparr>toplevels := Some (mru_after_focus (Some a) w l), focused_toplevel := Some a,
      calls := calls w @ Node (Set_enabled n True) # cs\<rparr>"
proof -
  let ?w = "emits [Node (Set_enabled n True)] w"
  have "xdg_wf ?w" using wf(1) by (rule xdg_wf_emits) simp
  moreover have "toplevels ?w = Some l" using wf(2) by (simp add: emits_def)
  moreover have "a \<in> set l" using xdg_wf_listD [OF wf] t by auto
  ultimately show ?thesis
    using focus_keeps_wf [of ?w l "Some a" E] t
    by (auto simp: handle_toplevel_map_def emits_def mru_after_focus_def)
qed

lemma next_mapped_find:
  "\<forall>i \<in> set l. tops w i \<noteq> None \<Longrightarrow>
   next_mapped E a w l = Some (find (\<lambda>i. i \<noteq> a \<and>
     (\<exists>t x. tops w i = Some t \<and> xdg_toplevel t = Some x \<and> x_mapped E x)) l)"
  by (induction l) (auto split: option.split)

lemma next_mapped_total:
  assumes "xdg_wf w" "toplevels w = Some l"
  shows "\<exists>p. next_mapped E a w l = Some p \<and> (p = None \<or> (\<exists>b. p = Some b \<and> b \<in> set l \<and> b \<noteq> a))"
proof -
  have "\<forall>i \<in> set l. tops w i \<noteq> None" using xdg_wf_listD [OF assms] by auto
  from next_mapped_find [OF this, of E a] show ?thesis
    by (cases "find (\<lambda>i. i \<noteq> a \<and>
       (\<exists>t x. tops w i = Some t \<and> xdg_toplevel t = Some x \<and> x_mapped E x)) l")
       (use find_SomeD in fastforce)+
qed

lemma unmap_wf:
  assumes wf: "xdg_wf w" and t: "tops w a = Some t"
  shows "\<exists>w'. handle_toplevel_unmap E a w = Some w' \<and> xdg_wf w'"
proof -
  from wf t obtain x n where x: "xdg_toplevel t = Some x" "scene_tree t = Some n" by (rule xdg_wf_live)
  from wf obtain l where l: "toplevels w = Some l" by (rule xdg_wf_list)
  let ?w = "emits [Node (Set_enabled n False)] w"
  have wf': "xdg_wf ?w" using wf by (rule xdg_wf_emits) simp
  have l': "toplevels ?w = Some l" using l by (simp add: emits_def)
  from next_mapped_total [OF wf' l', of E a] obtain p where
    p: "next_mapped E a ?w l = Some p" "p = None \<or> (\<exists>b. p = Some b \<and> b \<in> set l)" by blast
  from focus_keeps_wf [OF wf' l' p(2), of E] show ?thesis
    using t x p(1) wf' l l' by (auto simp: handle_toplevel_unmap_def Let_def)
qed

lemma request_move_wf:
  assumes "xdg_wf w" "tops w a = Some t"
  shows "\<exists>w'. handle_toplevel_request_move E a w = Some w' \<and> xdg_wf w'"
proof (cases "cursor w = None \<or> scene_tree t = None")
  case True
  with assms show ?thesis by (auto simp: handle_toplevel_request_move_def split: option.split)
next
  case False
  then obtain c n where "cursor w = Some c" "scene_tree t = Some n" by auto
  with assms show ?thesis
    by (auto simp: handle_toplevel_request_move_def intro!: xdg_wf_cong [OF _ _ _ _ _ _ assms(1)])
qed

lemma fill_output_wf:
  assumes "xdg_wf w" "set_state = Set_maximized \<or> set_state = Set_fullscreen"
  shows "xdg_wf (fill_output E x n set_state out w)"
  using assms by (auto simp: fill_output_def split: option.split prod.split intro!: xdg_wf_emits)

lemma request_maximize_wf:
  assumes "xdg_wf w" "tops w a = Some t"
  shows "\<exists>w'. handle_toplevel_request_maximize E a w = Some w' \<and> xdg_wf w'"
proof -
  from assms obtain x n where "xdg_toplevel t = Some x" "scene_tree t = Some n" by (rule xdg_wf_live)
  with assms show ?thesis
    by (auto simp: handle_toplevel_request_maximize_def intro!: fill_output_wf xdg_wf_emits)
qed

lemma request_fullscreen_wf:
  assumes "xdg_wf w" "tops w a = Some t"
  shows "\<exists>w'. handle_toplevel_request_fullscreen E a w = Some w' \<and> xdg_wf w'"
proof -
  from assms obtain x n where "xdg_toplevel t = Some x" "scene_tree t = Some n" by (rule xdg_wf_live)
  with assms show ?thesis
    by (auto simp: handle_toplevel_request_fullscreen_def intro!: fill_output_wf xdg_wf_emits)
qed

text \<open>Changing the strings of a live toplevel.\<close>

lemma xdg_wf_relabel:
  assumes "xdg_wf w" "tops w a = Some t" "xdg_toplevel t' = xdg_toplevel t" "scene_tree t' = scene_tree t"
  shows "xdg_wf (w\<lparr>tops := (tops w)(a \<mapsto> t')\<rparr>)" (is "xdg_wf ?w")
proof -
  from assms(1) obtain l where l: "toplevels w = Some l" "distinct l" "set l = dom (tops w)"
    by (rule xdg_wf_list)
  have h: "\<exists>s. tops w b = Some s \<and> xdg_toplevel s = xdg_toplevel u \<and> scene_tree s = scene_tree u"
    if "tops ?w b = Some u" for b u using that assms(2-4) by (cases "b = a") auto
  have f: "focused_handle ?w = focused_handle w"
    using assms(2,3) by (cases "focused_toplevel w") (auto simp: focused_handle_def)
  show ?thesis
  proof (rule xdg_wfI)
    show "toplevels ?w = Some l" "distinct l" using l by simp_all
    show "set l = dom (tops ?w)" using l(3) assms(2) by auto
    show "\<exists>t. tops ?w b = Some t" if "focused_toplevel ?w = Some b" for b
      using that xdg_wf_focus [OF assms(1)] by simp
    show "\<exists>t. tops ?w b = Some t" if "grabbed_toplevel ?w = Some b" for b
      using that xdg_wf_grab [OF assms(1)] by simp
    show "xdg_toplevel u \<noteq> None \<and> scene_tree u \<noteq> None" if "tops ?w b = Some u" for b u
      using h [OF that] xdg_wf_tops [OF assms(1)] by metis
    show "b = c" if "tops ?w b = Some u" "tops ?w c = Some v" "xdg_toplevel u = xdg_toplevel v" for b c u v
      using h [OF that(1)] h [OF that(2)] that(3) xdg_wf_inj [OF assms(1)] by metis
    show "distinct (lregs ?w)" using xdg_wf_lregs(1) [OF assms(1)] by simp
    show "(Of_Toplevel b, f) \<in> set (lregs ?w) \<longleftrightarrow> tops ?w b \<noteq> None \<and> f \<in> set toplevel_listeners" for b f
      using xdg_wf_lregs(2) [OF assms(1), of b f] assms(2) by simp
    show "activated (calls ?w) = (\<lambda>x. focused_handle ?w = Some x)"
      using xdg_wf_activated [OF assms(1)] unfolding f by simp
  qed
qed

lemma set_title_wf:
  assumes "xdg_wf w" "tops w a = Some t"
  shows "\<exists>w'. handle_toplevel_set_title E a w = Some w' \<and> xdg_wf w'"
proof -
  from assms obtain x n where "xdg_toplevel t = Some x" "scene_tree t = Some n" by (rule xdg_wf_live)
  with assms show ?thesis
    by (auto simp: handle_toplevel_set_title_def intro!: xdg_wf_relabel)
qed

lemma set_app_id_wf:
  assumes "xdg_wf w" "tops w a = Some t"
  shows "\<exists>w'. handle_toplevel_set_app_id E a w = Some w' \<and> xdg_wf w'"
proof -
  from assms obtain x n where "xdg_toplevel t = Some x" "scene_tree t = Some n" by (rule xdg_wf_live)
  with assms show ?thesis
    by (auto simp: handle_toplevel_set_app_id_def intro!: xdg_wf_relabel)
qed

section \<open>Creation and destruction of a toplevel\<close>

lemma toplevel_listeners_distinct: "distinct toplevel_listeners"
  by (simp add: toplevel_listeners_def)

lemma new_toplevel_wf:
  assumes wf: "xdg_wf w" and a: "\<And>a. x_calloc E = Some a \<Longrightarrow> tops w a = None"
    and x: "\<And>b t. tops w b = Some t \<Longrightarrow> xdg_toplevel t \<noteq> Some x" and s: "scene w \<noteq> None"
  shows "\<exists>w'. handle_new_xdg_toplevel E x w = Some w' \<and> xdg_wf w'"
proof (cases "x_calloc E = None \<or> x_scene_create E = None")
  case True
  with wf s show ?thesis by (auto simp: handle_new_xdg_toplevel_def split: option.split)
next
  case False
  then obtain b n where b: "x_calloc E = Some b" "x_scene_create E = Some n" by auto
  from wf obtain l where l: "toplevels w = Some l" "distinct l" "set l = dom (tops w)" by (rule xdg_wf_list)
  let ?t = "\<lparr>xdg_toplevel = Some x, scene_tree = Some n, title = None, app_id = None\<rparr>"
  let ?w = "w\<lparr>tops := (tops w)(b \<mapsto> ?t), lregs := lregs w @ map (Pair (Of_Toplevel b)) toplevel_listeners,
    toplevels := Some (b # l)\<rparr>"
  have nb: "tops w b = None" using a b(1) by blast
  have nl: "(Of_Toplevel b, f) \<notin> set (lregs w)" for f using wf nb unfolding xdg_wf_def by auto
  have "listen_all (Of_Toplevel b) toplevel_listeners (w\<lparr>tops := (tops w)(b \<mapsto> ?t)\<rparr>) =
      Some (w\<lparr>tops := (tops w)(b \<mapsto> ?t), lregs := lregs w @ map (Pair (Of_Toplevel b)) toplevel_listeners\<rparr>)"
    using nl listen_all_Some [OF toplevel_listeners_distinct, of "Of_Toplevel b" "w\<lparr>tops := (tops w)(b \<mapsto> ?t)\<rparr>"]
    by auto
  with b l(1) s have h: "handle_new_xdg_toplevel E x w = Some ?w"
    by (auto simp: handle_new_xdg_toplevel_def wl_list_insert_def)
  have f: "focused_handle ?w = focused_handle w"
    using xdg_wf_focus [OF wf] nb by (cases "focused_toplevel w") (auto simp: focused_handle_def)
  have "xdg_wf ?w"
  proof (rule xdg_wfI)
    show "toplevels ?w = Some (b # l)" by simp
    show "distinct (b # l)" "set (b # l) = dom (tops ?w)" using l nb by auto
    show "\<exists>t. tops ?w c = Some t" if "focused_toplevel ?w = Some c" for c
      using that xdg_wf_focus [OF wf] by simp
    show "\<exists>t. tops ?w c = Some t" if "grabbed_toplevel ?w = Some c" for c
      using that xdg_wf_grab [OF wf] by simp
    show "xdg_toplevel u \<noteq> None \<and> scene_tree u \<noteq> None" if "tops ?w c = Some u" for c u
      using that xdg_wf_tops [OF wf, of c u] by (auto split: if_splits)
    show "c = d" if "tops ?w c = Some u" "tops ?w d = Some v" "xdg_toplevel u = xdg_toplevel v" for c d u v
      using that xdg_wf_inj [OF wf, of c u d v] x [of c u] x [of d v] by (auto split: if_splits)
    show "distinct (lregs ?w)"
      using xdg_wf_lregs(1) [OF wf] nl toplevel_listeners_distinct by (auto simp: distinct_map inj_on_def)
    show "(Of_Toplevel c, f) \<in> set (lregs ?w) \<longleftrightarrow> tops ?w c \<noteq> None \<and> f \<in> set toplevel_listeners" for c f
      using xdg_wf_lregs(2) [OF wf, of c f] nb by auto
    show "activated (calls ?w) = (\<lambda>x. focused_handle ?w = Some x)"
      using xdg_wf_activated [OF wf] unfolding f by simp
  qed
  with h show ?thesis by blast
qed

text \<open>Unlinking a toplevel that is neither focused nor grabbed.\<close>

lemma drop_toplevel_wf:
  assumes wf: "xdg_wf w" "toplevels w = Some l" and t: "tops w a = Some t"
    and nf: "focused_toplevel w \<noteq> Some a" "grabbed_toplevel w \<noteq> Some a"
  shows "\<exists>w'. do { w \<leftarrow> unlisten_all (Of_Toplevel a) toplevel_listeners w; free_toplevel a w } = Some w' \<and>
    xdg_wf w' \<and> w' = w\<lparr>lregs := fold (\<lambda>f. remove1 (Of_Toplevel a, f)) toplevel_listeners (lregs w),
      toplevels := Some (filter (\<lambda>y. y \<noteq> a) l), tops := (tops w)(a := None)\<rparr>"
proof -
  let ?ls = "fold (\<lambda>f. remove1 (Of_Toplevel a, f)) toplevel_listeners (lregs w)"
  let ?w = "w\<lparr>lregs := ?ls, toplevels := Some (filter (\<lambda>y. y \<noteq> a) l), tops := (tops w)(a := None)\<rparr>"
  note l = xdg_wf_listD [OF wf]
  note lr = xdg_wf_lregs [OF wf(1)]
  have sub: "Pair (Of_Toplevel a) ` set toplevel_listeners \<subseteq> set (lregs w)" using lr(2) [of a] t by auto
  have ls: "set ?ls = set (lregs w) - Pair (Of_Toplevel a) ` set toplevel_listeners" "distinct ?ls"
    using set_fold_remove1 [OF lr(1)] distinct_fold_remove1 [OF lr(1)] by blast+
  have "a \<in> set l" using l t by auto
  then have step: "do { w \<leftarrow> unlisten_all (Of_Toplevel a) toplevel_listeners w; free_toplevel a w } = Some ?w"
    using unlisten_all_Some [OF toplevel_listeners_distinct sub] wf(2) t wl.elems_unlink [of l a] l
    by (simp add: free_toplevel_def)
  have f: "focused_handle ?w = focused_handle w"
    using nf(1) by (cases "focused_toplevel w") (auto simp: focused_handle_def)
  have "xdg_wf ?w"
  proof (rule xdg_wfI)
    show "toplevels ?w = Some (filter (\<lambda>y. y \<noteq> a) l)" "distinct (filter (\<lambda>y. y \<noteq> a) l)"
      "set (filter (\<lambda>y. y \<noteq> a) l) = dom (tops ?w)" using l by auto
    show "\<exists>t. tops ?w c = Some t" if "focused_toplevel ?w = Some c" for c
      using that xdg_wf_focus [OF wf(1)] nf(1) by auto
    show "\<exists>t. tops ?w c = Some t" if "grabbed_toplevel ?w = Some c" for c
      using that xdg_wf_grab [OF wf(1)] nf(2) by auto
    show "xdg_toplevel u \<noteq> None \<and> scene_tree u \<noteq> None" if "tops ?w c = Some u" for c u
      using that xdg_wf_tops [OF wf(1), of c u] by (auto split: if_splits)
    show "c = d" if "tops ?w c = Some u" "tops ?w d = Some v" "xdg_toplevel u = xdg_toplevel v" for c d u v
      using that xdg_wf_inj [OF wf(1), of c u d v] by (auto split: if_splits)
    show "distinct (lregs ?w)" using ls(2) by simp
    show "(Of_Toplevel c, f) \<in> set (lregs ?w) \<longleftrightarrow> tops ?w c \<noteq> None \<and> f \<in> set toplevel_listeners" for c f
      using lr(2) [of c f] ls(1) by auto
    show "activated (calls ?w) = (\<lambda>x. focused_handle ?w = Some x)"
      using xdg_wf_activated [OF wf(1)] unfolding f by simp
  qed
  with step show ?thesis by blast
qed

lemma cancel_grab_wf: "xdg_wf w \<Longrightarrow> xdg_wf (cancel_grab a w)"
  by (auto simp: cancel_grab_def intro: xdg_wf_cong)

lemma cancel_grab_simps [simp]:
  "grabbed_toplevel (cancel_grab a w) \<noteq> Some a" "toplevels (cancel_grab a w) = toplevels w"
  "tops (cancel_grab a w) = tops w" "focused_toplevel (cancel_grab a w) = focused_toplevel w"
  "lregs (cancel_grab a w) = lregs w" "calls (cancel_grab a w) = calls w"
  by (auto simp: cancel_grab_def)

text \<open>The focus a destroyed toplevel leaves behind: the next of the list, mapped or not.\<close>

definition heir :: "addr \<Rightarrow> world \<Rightarrow> addr list \<Rightarrow> ptr" where
  "heir a w l = (if focused_toplevel w = Some a then find (\<lambda>i. i \<noteq> a) l else focused_toplevel w)"

lemma mru_filter:
  "p \<noteq> Some a \<Longrightarrow> filter (\<lambda>y. y \<noteq> a) (mru_after_focus p w l) = mru_after_focus p w (filter (\<lambda>y. y \<noteq> a) l)"
  by (auto simp: mru_after_focus_def filter_filter conj_commute split: option.split)

lemma find_filter_hd: "find P l = (case filter P l of [] \<Rightarrow> None | x # _ \<Rightarrow> Some x)"
  by (induction l) auto

lemma mru_heir:
  assumes "focused_toplevel w = Some a" "distinct l"
  shows "mru_after_focus (heir a w l) w (filter (\<lambda>y. y \<noteq> a) l) = filter (\<lambda>y. y \<noteq> a) l"
proof (cases "filter (\<lambda>y. y \<noteq> a) l")
  case Nil
  then show ?thesis using assms by (simp add: heir_def find_filter_hd mru_after_focus_def)
next
  case (Cons b bs)
  then have "b \<in> set (filter (\<lambda>y. y \<noteq> a) l)" by simp
  then have "b \<noteq> a" by simp
  moreover have "distinct (b # bs)" using assms(2) Cons by (metis distinct_filter)
  ultimately show ?thesis using assms Cons
    by (auto simp: heir_def find_filter_hd mru_after_focus_def filter_id_conv)
qed

lemma heir_live:
  assumes "xdg_wf w" "toplevels w = Some l"
  shows "(heir a w l = None \<or> (\<exists>b. heir a w l = Some b \<and> b \<in> set l)) \<and> heir a w l \<noteq> Some a"
proof (cases "heir a w l")
  case (Some b)
  show ?thesis
  proof (cases "focused_toplevel w = Some a")
    case True
    with Some have "find (\<lambda>i. i \<noteq> a) l = Some b" by (simp add: heir_def)
    from find_SomeD [OF this] Some show ?thesis by auto
  next
    case False
    with Some have "focused_toplevel w = Some b" by (simp add: heir_def)
    with Some False xdg_wf_focus [OF assms(1), of b] xdg_wf_listD [OF assms] show ?thesis by auto
  qed
qed simp

lemma destroy_effect:
  assumes wf: "xdg_wf w" "toplevels w = Some l" and t: "tops w a = Some t"
  shows "\<exists>w'. handle_toplevel_destroy E a w = Some w' \<and> xdg_wf w' \<and> tops w' = (tops w)(a := None) \<and>
    toplevels w' = Some (filter (\<lambda>y. y \<noteq> a) l) \<and> focused_toplevel w' = heir a w l \<and>
    grabbed_toplevel w' = (if grabbed_toplevel w = Some a then None else grabbed_toplevel w)"
proof -
  note l = xdg_wf_listD [OF wf]
  have p: "heir a w l = None \<or> (\<exists>b. heir a w l = Some b \<and> b \<in> set l)" "heir a w l \<noteq> Some a"
    using heir_live [OF wf, of a] by blast+
  have "\<exists>w1 l1. (if focused_toplevel w = Some a then do { l \<leftarrow> toplevels w;
        zen_xdg_focus_toplevel E CPTR (find (\<lambda>i. i \<noteq> a) l) w } else Some w) = Some w1 \<and> xdg_wf w1 \<and>
      tops w1 = tops w \<and> toplevels w1 = Some l1 \<and> filter (\<lambda>y. y \<noteq> a) l1 = filter (\<lambda>y. y \<noteq> a) l \<and>
      focused_toplevel w1 = heir a w l \<and> grabbed_toplevel w1 = grabbed_toplevel w"
  proof (cases "focused_toplevel w = Some a")
    case True
    from focus_keeps_wf [OF wf p(1), of E] obtain w1 cs where
      w1: "zen_xdg_focus_toplevel E CPTR (heir a w l) w = Some w1" "xdg_wf w1"
      "w1 = w\<lparr>toplevels := Some (mru_after_focus (heir a w l) w l), focused_toplevel := heir a w l,
        calls := calls w @ cs\<rparr>" by blast
    moreover have "find (\<lambda>i. i \<noteq> a) l = heir a w l" using True by (simp add: heir_def)
    ultimately show ?thesis
      using True wf(2) mru_filter [OF p(2), of w l] mru_heir [OF True] l by simp
  next
    case False
    with wf show ?thesis by (simp add: heir_def)
  qed
  then obtain w1 l1 where w1: "(if focused_toplevel w = Some a then do { l \<leftarrow> toplevels w;
        zen_xdg_focus_toplevel E CPTR (find (\<lambda>i. i \<noteq> a) l) w } else Some w) = Some w1" "xdg_wf w1"
      "tops w1 = tops w" "toplevels w1 = Some l1" "filter (\<lambda>y. y \<noteq> a) l1 = filter (\<lambda>y. y \<noteq> a) l"
      "focused_toplevel w1 = heir a w l" "grabbed_toplevel w1 = grabbed_toplevel w" by blast
  have "\<exists>w'. do { w \<leftarrow> unlisten_all (Of_Toplevel a) toplevel_listeners (cancel_grab a w1); free_toplevel a w } =
      Some w' \<and> xdg_wf w' \<and> w' = (cancel_grab a w1)\<lparr>lregs := fold (\<lambda>f. remove1 (Of_Toplevel a, f))
      toplevel_listeners (lregs w1), toplevels := Some (filter (\<lambda>y. y \<noteq> a) l1), tops := (tops w)(a := None)\<rparr>"
    using drop_toplevel_wf [of "cancel_grab a w1" l1 a t] w1 t p(2) cancel_grab_wf by simp
  with w1 t show ?thesis
    by (auto simp: handle_toplevel_destroy_def) (simp_all add: cancel_grab_def)
qed

section \<open>Properties\<close>

lemma notify_wf:
  assumes "xdg_wf w" "(Of_Toplevel a, f) \<in> set (lregs w)"
  shows "\<exists>w'. toplevel_notify E f a w = Some w' \<and> xdg_wf w'"
proof -
  from assms obtain t where t: "tops w a = Some t" and f: "f \<in> set toplevel_listeners"
    using xdg_wf_lregs(2) by blast
  from assms(1) obtain l where l: "toplevels w = Some l" by (rule xdg_wf_list)
  from assms(1) t obtain x n where "scene_tree t = Some n" by (rule xdg_wf_live)
  from map_wf [OF assms(1) l t this, of E] have "\<exists>w'. handle_toplevel_map E a w = Some w' \<and> xdg_wf w'" by blast
  moreover from destroy_effect [OF assms(1) l t, of E]
  have "\<exists>w'. handle_toplevel_destroy E a w = Some w' \<and> xdg_wf w'" by blast
  ultimately show ?thesis using f assms(1)
    unmap_wf [OF assms(1) t] request_move_wf [OF assms(1) t] request_maximize_wf [OF assms(1) t]
    request_fullscreen_wf [OF assms(1) t] set_title_wf [OF assms(1) t] set_app_id_wf [OF assms(1) t]
    by (auto simp: toplevel_listeners_def toplevel_notify_def handle_toplevel_commit_def
        handle_toplevel_request_resize_def)
qed

text \<open>
  Every signal a live toplevel can receive is handled without a fault (no dangling or
  NULL pointer is followed, no list is corrupted), and the invariant of window management
  holds again afterwards.
\<close>

theorem toplevel_signals_safe:
  assumes "xdg_wf w" "(Of_Toplevel a, f) \<in> set (lregs w)"
  shows "\<exists>w'. toplevel_notify E f a w = Some w' \<and> xdg_wf w'"
  using assms by (rule notify_wf)

subsection \<open>Reachable states\<close>

datatype xdg_event = New_toplevel addr | Toplevel_signal lfield addr | Focus_request addr

text \<open>
  wlroots announces a toplevel whose handle is not that of a live one, \<open>calloc\<close> returns
  memory that is not in use, and signals go to the listeners that are linked.
\<close>

inductive xdg_step :: "world \<Rightarrow> xdg_event \<times> xdg_env \<Rightarrow> world \<Rightarrow> bool" where
  step_new: "\<lbrakk>\<And>a. x_calloc E = Some a \<Longrightarrow> tops w a = None;
      \<And>b t. tops w b = Some t \<Longrightarrow> xdg_toplevel t \<noteq> Some x; scene w \<noteq> None;
      handle_new_xdg_toplevel E x w = Some w'\<rbrakk> \<Longrightarrow> xdg_step w (New_toplevel x, E) w'"
| step_signal: "\<lbrakk>(Of_Toplevel a, f) \<in> set (lregs w); toplevel_notify E f a w = Some w'\<rbrakk> \<Longrightarrow>
      xdg_step w (Toplevel_signal f a, E) w'"
| step_focus: "\<lbrakk>tops w a \<noteq> None; zen_xdg_focus_toplevel E CPTR (Some a) w = Some w'\<rbrakk> \<Longrightarrow>
      xdg_step w (Focus_request a, E) w'"

inductive_simps xdg_step_simps: "xdg_step w (ev, E) w'"

text \<open>A compositor before \<open>zen_xdg_init\<close>.\<close>

definition xdg_fresh :: "world \<Rightarrow> bool" where
  "xdg_fresh w \<longleftrightarrow> tops w = Map.empty \<and> grabbed_toplevel w = None \<and> distinct (lregs w) \<and>
     (Of_Compositor, L_new_xdg_toplevel) \<notin> set (lregs w) \<and>
     (\<forall>a f. (Of_Toplevel a, f) \<notin> set (lregs w)) \<and> activated (calls w) = (\<lambda>_. False)"

inductive xdg_reachable :: "world \<Rightarrow> bool" where
  reach_init: "xdg_fresh w \<Longrightarrow> zen_xdg_init E CPTR w = Some (w', 0) \<Longrightarrow> xdg_reachable w'"
| reach_step: "xdg_reachable w \<Longrightarrow> xdg_step w e w' \<Longrightarrow> xdg_reachable w'"

lemma init_wf:
  assumes "xdg_fresh w" "zen_xdg_init E CPTR w = Some (w', 0)"
  shows "xdg_wf w'"
proof -
  from assms obtain s where w': "w' = w\<lparr>toplevels := Some [], focused_toplevel := None,
      xdg_shell := Some s, lregs := lregs w @ [(Of_Compositor, L_new_xdg_toplevel)]\<rparr>"
    by (cases "x_shell_create E")
       (auto simp: zen_xdg_init_def listen_def xdg_fresh_def wl_list_init_def split: if_splits)
  show ?thesis
    by (rule xdg_wfI [of _ "[]"]) (use assms(1) in \<open>auto simp: w' xdg_fresh_def focused_handle_def\<close>)
qed

lemma step_wf:
  assumes "xdg_step w e w'" "xdg_wf w"
  shows "xdg_wf w'"
  using assms(1)
proof cases
  case (step_new E x)
  with new_toplevel_wf [OF assms(2), of E x] show ?thesis by auto
next
  case (step_signal a f E)
  with notify_wf [OF assms(2), of a f E] show ?thesis by auto
next
  case (step_focus a E)
  from assms(2) obtain l where l: "toplevels w = Some l" by (rule xdg_wf_list)
  with xdg_wf_listD [OF assms(2) l] step_focus(2) have "a \<in> set l" by auto
  with focus_keeps_wf [OF assms(2) l, of "Some a" E] step_focus(3) show ?thesis by auto
qed

text \<open>
  C10. In every state reached from initialisation by any sequence of new toplevels, signals
  and focus requests, the list of toplevels holds exactly the live ones, each once; focus
  and grab point to live toplevels; the listeners linked are exactly the ten of each live
  toplevel; and of all toplevels exactly the focused one has last been told to be activated.
\<close>

theorem xdg_reachable_invariant:
  assumes "xdg_reachable w"
  shows "(\<exists>l. toplevels w = Some l \<and> distinct l \<and> set l = dom (tops w)) \<and>
    (\<forall>a. focused_toplevel w = Some a \<or> grabbed_toplevel w = Some a \<longrightarrow> a \<in> dom (tops w)) \<and>
    (\<forall>a f. (Of_Toplevel a, f) \<in> set (lregs w) \<longleftrightarrow> a \<in> dom (tops w) \<and> f \<in> set toplevel_listeners) \<and>
    (\<forall>a t x. tops w a = Some t \<and> xdg_toplevel t = Some x \<longrightarrow>
       (activated (calls w) x \<longleftrightarrow> focused_toplevel w = Some a))"
proof -
  from assms have wf: "xdg_wf w"
    by (induction rule: xdg_reachable.induct) (auto intro: init_wf step_wf)
  have "activated (calls w) x \<longleftrightarrow> focused_toplevel w = Some a"
    if t: "tops w a = Some t" "xdg_toplevel t = Some x" for a t x
  proof -
    have "focused_handle w = Some x \<longleftrightarrow> focused_toplevel w = Some a"
    proof (cases "focused_toplevel w")
      case (Some b)
      with xdg_wf_focus [OF wf] obtain u where u: "tops w b = Some u" by blast
      show ?thesis using Some t u xdg_wf_inj [OF wf u t(1)] by (auto simp: focused_handle_def)
    qed (simp add: focused_handle_def)
    then show ?thesis using xdg_wf_activated [OF wf] by simp
  qed
  with wf show ?thesis unfolding xdg_wf_def by blast
qed

text \<open>
  Focus follows the most recent use: focusing a live toplevel moves it to the front of
  the list and keeps the order of the others, makes it the focused one and the only
  activated one.
\<close>

theorem focus_moves_to_front:
  assumes "xdg_wf w" "toplevels w = Some l" "tops w a = Some t" "xdg_toplevel t = Some x"
    "focused_toplevel w \<noteq> Some a"
  shows "\<exists>w'. zen_xdg_focus_toplevel E CPTR (Some a) w = Some w' \<and> focused_toplevel w' = Some a \<and>
    toplevels w' = Some (a # filter (\<lambda>b. b \<noteq> a) l) \<and> tops w' = tops w \<and>
    activated (calls w') = (\<lambda>y. y = x)"
proof -
  have "a \<in> set l" using xdg_wf_listD [OF assms(1,2)] assms(3) by auto
  with focus_effect [OF assms(1,2), of "Some a" E] obtain cs where
    "zen_xdg_focus_toplevel E CPTR (Some a) w = Some (w\<lparr>toplevels := Some (mru_after_focus (Some a) w l),
      focused_toplevel := Some a, calls := calls w @ cs\<rparr>)"
    "activated (calls w @ cs) = (\<lambda>y. (do { a \<leftarrow> Some a; t \<leftarrow> tops w a; xdg_toplevel t }) = Some y)" by blast
  with assms(3-5) show ?thesis by (auto simp: mru_after_focus_def fun_eq_iff)
qed

text \<open>
  When the focused toplevel is unmapped, focus goes to the most recently used other
  toplevel that is mapped, and to none when there is none.
\<close>

theorem unmap_transfers_focus:
  assumes "xdg_wf w" "toplevels w = Some l" "focused_toplevel w = Some a"
  shows "\<exists>w'. handle_toplevel_unmap E a w = Some w' \<and> xdg_wf w' \<and>
    focused_toplevel w' = find (\<lambda>b. b \<noteq> a \<and>
      (\<exists>t x. tops w b = Some t \<and> xdg_toplevel t = Some x \<and> x_mapped E x)) l"
proof -
  from xdg_wf_focus [OF assms(1,3)] obtain t where t: "tops w a = Some t" by blast
  from assms(1) t obtain x n where x: "xdg_toplevel t = Some x" "scene_tree t = Some n" by (rule xdg_wf_live)
  let ?w = "emits [Node (Set_enabled n False)] w"
  let ?p = "find (\<lambda>b. b \<noteq> a \<and> (\<exists>t x. tops w b = Some t \<and> xdg_toplevel t = Some x \<and> x_mapped E x)) l"
  have wf': "xdg_wf ?w" using assms(1) by (rule xdg_wf_emits) simp
  have l': "toplevels ?w = Some l" "tops ?w = tops w" "focused_toplevel ?w = Some a"
    using assms(2,3) by (simp_all add: emits_def)
  have "\<forall>i \<in> set l. tops ?w i \<noteq> None" using xdg_wf_listD [OF assms(1,2)] l'(2) by auto
  from next_mapped_find [OF this, of E a] have nm: "next_mapped E a ?w l = Some ?p" unfolding l'(2) .
  have p: "?p = None \<or> (\<exists>b. ?p = Some b \<and> b \<in> set l)"
  proof (cases ?p)
    case (Some b)
    with find_SomeD [OF Some] show ?thesis by blast
  qed blast
  from focus_keeps_wf [OF wf' l'(1) p, of E] obtain w' where
    w': "zen_xdg_focus_toplevel E CPTR ?p ?w = Some w'" "xdg_wf w'" "focused_toplevel w' = ?p" by auto
  have "handle_toplevel_unmap E a w = Some w'"
    using t x l' nm w'(1) by (simp add: handle_toplevel_unmap_def Let_def)
  with w' show ?thesis by blast
qed

text \<open>
  Destroying a toplevel removes it from the list and the heap, cancels a move of it, and
  unlinks all its listeners; when it was focused, focus goes to the next toplevel of the list.
\<close>

theorem destroy_removes_toplevel:
  assumes "xdg_wf w" "toplevels w = Some l" "tops w a = Some t"
  shows "\<exists>w'. handle_toplevel_destroy E a w = Some w' \<and> xdg_wf w' \<and>
    toplevels w' = Some (filter (\<lambda>b. b \<noteq> a) l) \<and> tops w' = (tops w)(a := None) \<and>
    (\<forall>f. (Of_Toplevel a, f) \<notin> set (lregs w')) \<and> grabbed_toplevel w' \<noteq> Some a \<and>
    focused_toplevel w' = (if focused_toplevel w = Some a then find (\<lambda>b. b \<noteq> a) l
      else focused_toplevel w)"
proof -
  from destroy_effect [OF assms, of E] obtain w' where w': "handle_toplevel_destroy E a w = Some w'"
    "xdg_wf w'" "tops w' = (tops w)(a := None)" "toplevels w' = Some (filter (\<lambda>y. y \<noteq> a) l)"
    "focused_toplevel w' = heir a w l"
    "grabbed_toplevel w' = (if grabbed_toplevel w = Some a then None else grabbed_toplevel w)" by blast
  have "(Of_Toplevel a, f) \<notin> set (lregs w')" for f
    using xdg_wf_lregs(2) [OF w'(2), of a f] w'(3) by simp
  with w' show ?thesis by (auto simp: heir_def)
qed

text \<open>
  The heir of a destroyed toplevel is not checked for being mapped: when the next toplevel
  of the list has not been mapped yet, it is activated before its surface is initialised,
  which the handler of new toplevels avoids because wlroots asserts against it.
\<close>

theorem destroy_activates_unmapped:
  assumes "xdg_wf w" "toplevels w = Some (a # b # l)" "focused_toplevel w = Some a"
    "tops w b = Some t" "xdg_toplevel t = Some x" "\<not> x_mapped E x"
  shows "\<exists>w'. handle_toplevel_destroy E a w = Some w' \<and> focused_toplevel w' = Some b \<and>
    activated (calls w') x"
proof -
  from xdg_wf_focus [OF assms(1,3)] obtain s where s: "tops w a = Some s" by blast
  have ab: "a \<noteq> b" using xdg_wf_listD [OF assms(1,2)] by simp
  from destroy_effect [OF assms(1,2) s, of E] obtain w' where w': "handle_toplevel_destroy E a w = Some w'"
    "xdg_wf w'" "tops w' = (tops w)(a := None)" "focused_toplevel w' = heir a w (a # b # l)" by blast
  moreover have h: "heir a w (a # b # l) = Some b" using assms(3) ab by (simp add: heir_def)
  moreover have "focused_handle w' = Some x"
    using w' h ab assms(4,5) by (simp add: focused_handle_def)
  ultimately show ?thesis using xdg_wf_activated [OF w'(2)] by simp
qed

subsection \<open>Destruction of the module\<close>

lemma free_toplevels_effect:
  "toplevels w = Some l \<Longrightarrow> distinct l \<Longrightarrow> set l \<subseteq> dom (tops w) \<Longrightarrow>
   free_toplevels l w = Some (w\<lparr>toplevels := Some [], tops := (\<lambda>b. if b \<in> set l then None else tops w b)\<rparr>)"
proof (induction l arbitrary: w)
  case (Cons a l)
  then obtain t where t: "tops w a = Some t" by auto
  let ?w = "w\<lparr>toplevels := Some l, tops := (tops w)(a := None)\<rparr>"
  from Cons.prems t have "free_toplevel a w = Some ?w"
    by (simp add: free_toplevel_def wl_list_remove_def)
  moreover have "free_toplevels l ?w =
      Some (?w\<lparr>toplevels := Some [], tops := (\<lambda>b. if b \<in> set l then None else tops ?w b)\<rparr>)"
    using Cons.prems by (intro Cons.IH) auto
  moreover have "(\<lambda>b. if b \<in> set l then None else tops ?w b) =
      (\<lambda>b. if b \<in> set (a # l) then None else tops w b)" by auto
  ultimately show ?case by simp
qed (simp add: fun_eq_iff)

lemma xdg_destroy_effect:
  assumes "xdg_wf w"
  shows "\<exists>w'. zen_xdg_destroy CPTR w = Some w' \<and> tops w' = Map.empty \<and> toplevels w' = Some [] \<and>
    focused_toplevel w' = None \<and> set (lregs w') = set (lregs w) - {(Of_Compositor, L_new_xdg_toplevel)}"
proof -
  from assms obtain l where l: "toplevels w = Some l" "distinct l" "set l = dom (tops w)"
    by (rule xdg_wf_list)
  have "(\<lambda>b. if b \<in> set l then None else tops w b) = Map.empty" using l(3) by (auto simp: fun_eq_iff)
  then have "free_toplevels l w = Some (w\<lparr>toplevels := Some [], tops := Map.empty\<rparr>)"
    using free_toplevels_effect [OF l(1,2)] l(3) by simp
  with l(1) show ?thesis using xdg_wf_lregs(1) [OF assms]
    by (auto simp: zen_xdg_destroy_def unlisten_def set_remove1_eq Let_def)
qed

text \<open>
  \<open>zen_xdg_destroy\<close> frees the toplevels but leaves their listeners linked: each toplevel that
  is open at that moment keeps ten listeners in freed memory, and when its surface is
  destroyed afterwards (as \<open>wl_display_destroy_clients\<close> does next) the handler runs on the freed
  struct.
\<close>

theorem xdg_destroy_leaves_dangling_listeners:
  assumes "xdg_wf w" "tops w a = Some t"
  shows "\<exists>w'. zen_xdg_destroy CPTR w = Some w' \<and> tops w' a = None \<and>
    (\<forall>f \<in> set toplevel_listeners. (Of_Toplevel a, f) \<in> set (lregs w')) \<and>
    toplevel_notify E L_destroy a w' = None"
proof -
  from xdg_destroy_effect [OF assms(1)] obtain w' where w': "zen_xdg_destroy CPTR w = Some w'"
    "tops w' = Map.empty" "set (lregs w') = set (lregs w) - {(Of_Compositor, L_new_xdg_toplevel)}" by blast
  have "(Of_Toplevel a, f) \<in> set (lregs w')" if "f \<in> set toplevel_listeners" for f
    using w'(3) xdg_wf_lregs(2) [OF assms(1), of a f] assms(2) that by simp
  with w' show ?thesis by (auto simp: toplevel_notify_def handle_toplevel_destroy_def)
qed

text \<open>
  Maximising and leaving it: a toplevel that is not maximised is sized and placed exactly
  over the output under its origin, or over the first output when its origin is outside of
  all, and told so; without any output nothing is sent. A maximised one is told to choose
  its own size.
\<close>

theorem maximize_fills_output:
  assumes "xdg_wf w" "tops w a = Some t" "xdg_toplevel t = Some x" "scene_tree t = Some n"
    "output_layout w = Some lay"
  shows "handle_toplevel_request_maximize E a w = Some (emits
    (if x_maximized E x then [Xdg (Set_size x 0 0), Xdg (Set_maximized x False)]
     else case (if x_output_at E (fst (x_node_pos E n)) (snd (x_node_pos E n)) = None
                then (if x_outputs E = [] then None else Some (hd (x_outputs E)))
                else x_output_at E (fst (x_node_pos E n)) (snd (x_node_pos E n))) of
            None \<Rightarrow> []
          | Some out \<Rightarrow> [Xdg (Set_size x (fst (snd (x_box E out))) (snd (snd (x_box E out)))),
              Xdg (Set_maximized x True),
              Node (Set_position n (fst (fst (x_box E out))) (snd (fst (x_box E out))))]) w)"
  using assms
  by (auto simp: handle_toplevel_request_maximize_def fill_output_def or_else_def output_under_def
      first_output_def hd_def split: option.split list.split prod.split)

section \<open>Two windows\<close>

text \<open>A focused window and one that has not been mapped yet.\<close>

definition demo_window :: "addr \<Rightarrow> ZenToplevel" where
  "demo_window a = \<lparr>xdg_toplevel = Some (a + 100), scene_tree = Some (a + 200), title = None, app_id = None\<rparr>"

definition demo_windows :: world where
  "demo_windows = zero_world\<lparr>toplevels := Some [10, 11], focused_toplevel := Some 10, scene := Some 1,
     output_layout := Some 2, tops := [10 \<mapsto> demo_window 10, 11 \<mapsto> demo_window 11],
     lregs := map (Pair (Of_Toplevel 10)) toplevel_listeners @ map (Pair (Of_Toplevel 11)) toplevel_listeners,
     calls := [Xdg (Set_activated 110 True)]\<rparr>"

definition demo_xdg :: xdg_env where
  "demo_xdg = \<lparr>x_shell_create = Some 3, x_calloc = Some 12, x_scene_create = Some 212, x_strdup_ok = True,
     x_surface = (\<lambda>x. x + 1000), x_mapped = (\<lambda>x. x = 110), x_keyboard = True, x_cursor_pos = (5, 6),
     x_node_pos = (\<lambda>_. (0, 0)), x_maximized = (\<lambda>_. False), x_fullscreen = (\<lambda>_. False),
     x_requested_output = (\<lambda>_. None), x_output_at = (\<lambda>_ _. Some 50), x_outputs = [50],
     x_box = (\<lambda>_. ((0, 0), (800, 600))), x_title = (\<lambda>_. Some ''zen''), x_app_id = (\<lambda>_. None)\<rparr>"

lemma demo_windows_simps:
  "toplevels demo_windows = Some [10, 11]" "focused_toplevel demo_windows = Some 10"
  "tops demo_windows 10 = Some (demo_window 10)" "tops demo_windows 11 = Some (demo_window 11)"
  "output_layout demo_windows = Some 2" "calls demo_windows = [Xdg (Set_activated 110 True)]"
  "xdg_toplevel (demo_window a) = Some (a + 100)" "scene_tree (demo_window a) = Some (a + 200)"
  by (simp_all add: demo_windows_def demo_window_def)

lemma demo_windows_wf: "xdg_wf demo_windows"
proof (rule xdg_wfI)
  show "toplevels demo_windows = Some [10, 11]" by (simp add: demo_windows_def)
  show "distinct (lregs demo_windows)"
    by (auto simp: demo_windows_def distinct_map toplevel_listeners_distinct inj_on_def)
  show "activated (calls demo_windows) = (\<lambda>x. focused_handle demo_windows = Some x)"
    by (auto simp: demo_windows_simps focused_handle_def activated_def fun_eq_iff)
qed (auto simp: demo_windows_def zero_world_def demo_window_def split: if_splits)

theorem toplevel_signals_safe_witness:
  "\<exists>w'. toplevel_notify demo_xdg L_map 11 demo_windows = Some w' \<and> xdg_wf w'"
  by (rule toplevel_signals_safe [OF demo_windows_wf])
     (simp add: demo_windows_def toplevel_listeners_def)

theorem focus_moves_to_front_witness:
  "\<exists>w'. zen_xdg_focus_toplevel demo_xdg CPTR (Some 11) demo_windows = Some w' \<and>
     toplevels w' = Some [11, 10] \<and> activated (calls w') = (\<lambda>y. y = 111)"
  using focus_moves_to_front [OF demo_windows_wf demo_windows_simps(1,4), of 111 demo_xdg]
  by (auto simp: demo_windows_simps)

theorem unmap_transfers_focus_witness:
  "\<exists>w'. handle_toplevel_unmap demo_xdg 10 demo_windows = Some w' \<and> focused_toplevel w' = None"
  using unmap_transfers_focus [OF demo_windows_wf demo_windows_simps(1,2), of demo_xdg]
  by (auto simp: demo_windows_simps) (auto simp: demo_xdg_def)

theorem destroy_removes_toplevel_witness:
  "\<exists>w'. handle_toplevel_destroy demo_xdg 10 demo_windows = Some w' \<and> toplevels w' = Some [11]"
  using destroy_removes_toplevel [OF demo_windows_wf demo_windows_simps(1,3), of demo_xdg] by auto

theorem destroy_activates_unmapped_witness:
  "\<exists>w'. handle_toplevel_destroy demo_xdg 10 demo_windows = Some w' \<and> focused_toplevel w' = Some 11 \<and>
     activated (calls w') 111"
  using destroy_activates_unmapped [OF demo_windows_wf demo_windows_simps(1,2,4), of 111 demo_xdg]
  by (simp add: demo_windows_simps) (simp add: demo_xdg_def)

theorem xdg_destroy_leaves_dangling_listeners_witness:
  "\<exists>w'. zen_xdg_destroy CPTR demo_windows = Some w' \<and> tops w' 10 = None \<and>
     (Of_Toplevel 10, L_destroy) \<in> set (lregs w') \<and> toplevel_notify demo_xdg L_destroy 10 w' = None"
  using xdg_destroy_leaves_dangling_listeners [OF demo_windows_wf demo_windows_simps(3), of demo_xdg]
  by (auto simp: toplevel_listeners_def)

theorem maximize_fills_output_witness:
  "\<exists>w'. handle_toplevel_request_maximize demo_xdg 10 demo_windows = Some w' \<and>
     Xdg (Set_size 110 800 600) \<in> set (calls w')"
  using maximize_fills_output [OF demo_windows_wf demo_windows_simps(3), of 110 210 2 demo_xdg]
  by (simp add: demo_windows_simps) (simp add: demo_xdg_def emits_def)

theorem xdg_reachable_invariant_witness:
  "\<exists>w. xdg_reachable w \<and> (\<exists>l. toplevels w = Some l \<and> distinct l \<and> set l = dom (tops w)) \<and> tops w 12 \<noteq> None"
proof -
  let ?w0 = "zero_world\<lparr>wl_display := Some 1, scene := Some 2\<rparr>"
  have fresh: "xdg_fresh ?w0" by (simp add: xdg_fresh_def zero_world_def activated_def)
  obtain w1 where w1: "zen_xdg_init demo_xdg CPTR ?w0 = Some (w1, 0)" "toplevels w1 = Some []"
      "tops w1 = Map.empty" "lregs w1 = [(Of_Compositor, L_new_xdg_toplevel)]" "scene w1 = Some 2"
    by (auto simp: zen_xdg_init_def demo_xdg_def zero_world_def listen_def wl_list_init_def)
  have r1: "xdg_reachable w1" using fresh w1(1) by (rule reach_init)
  define v where "v = w1\<lparr>tops := (tops w1)(12 \<mapsto> \<lparr>xdg_toplevel = Some 112, scene_tree = Some 212,
    title = None, app_id = None\<rparr>)\<rparr>"
  have "listen_all (Of_Toplevel 12) toplevel_listeners v =
      Some (v\<lparr>lregs := lregs v @ map (Pair (Of_Toplevel 12)) toplevel_listeners\<rparr>)"
    by (rule listen_all_Some) (use w1(4) in \<open>auto simp: v_def toplevel_listeners_def\<close>)
  then obtain w2 where w2: "handle_new_xdg_toplevel demo_xdg 112 w1 = Some w2" "tops w2 12 \<noteq> None"
    using w1(2,5) unfolding handle_new_xdg_toplevel_def
    by (auto simp: demo_xdg_def v_def)
  have "xdg_step w1 (New_toplevel 112, demo_xdg) w2"
    by (rule step_new) (use w1 w2 in auto)
  with r1 have r2: "xdg_reachable w2" by (rule reach_step)
  from xdg_reachable_invariant [OF r2] r2 w2(2) show ?thesis by blast
qed

end
