(* ===== verification/Zen_Cairo.thy ===== *)
theory Zen_Cairo
  imports Zen_State
begin

text \<open>
  The drawing buffer of \<open>src/compositor/src/cairo_buffer.c\<close>: five library objects that are
  acquired in order, a cleanup path that gives back what was acquired so far, and a
  destructor. The resource discipline (every object given back exactly once) is stated on
  the trace of calls.
\<close>

section \<open>Resources in a trace\<close>

text \<open>
  Replaying a trace from a multiset \<open>R\<close> of held objects (as a list) gives the objects held
  at the end; giving back an object that is not held is a double release, \<open>None\<close>.
\<close>

definition resource_step :: "call \<Rightarrow> (kind \<times> addr) list \<Rightarrow> (kind \<times> addr) list option" where
  "resource_step c R = (case c of
      Acquire k a \<Rightarrow> Some ((k, a) # R)
    | Release k a \<Rightarrow> if (k, a) \<in> set R then Some (remove1 (k, a) R) else None
    | _ \<Rightarrow> Some R)"

primrec replay :: "(kind \<times> addr) list \<Rightarrow> call list \<Rightarrow> (kind \<times> addr) list option" where
  "replay R [] = Some R"
| "replay R (c # cs) = do { R \<leftarrow> resource_step c R; replay R cs }"

lemma replay_append: "replay R (cs @ ds) = do { R' \<leftarrow> replay R cs; replay R' ds }"
  by (induction cs arbitrary: R) (auto simp: Option.bind_assoc)

lemma resource_step_simps [simp]:
  "resource_step (Acquire k a) R = Some ((k, a) # R)"
  "resource_step (Release k a) R = (if (k, a) \<in> set R then Some (remove1 (k, a) R) else None)"
  "resource_step (Xdg x) R = Some R"
  "resource_step (Keyboard kc) R = Some R"
  "resource_step (Pointer p) R = Some R"
  "resource_step (Seat s) R = Some R"
  "resource_step (Cursor cc) R = Some R"
  "resource_step (Device dc) R = Some R"
  "resource_step (Node n) R = Some R"
  "resource_step (Draw d) R = Some R"
  "resource_step (Surface_flush a) R = Some R"
  "resource_step (Send_locked a) R = Some R"
  "resource_step (Timer_update a t) R = Some R"
  "resource_step (Proc pc) R = Some R"
  "resource_step (Output oc) R = Some R"
  "resource_step (Bus bc) R = Some R"
  "resource_step (X11 xc) R = Some R"
  "resource_step (Setenv nm v) R = Some R"
  "resource_step (Serial ls) R = Some R"
  by (simp_all add: resource_step_def)

section \<open>The buffer\<close>

text \<open>What the libraries answer while a buffer is created.\<close>

record cairo_env =
  cb_surface :: addr        \<comment> \<open>\<open>cairo_image_surface_create\<close>, never NULL\<close>
  cb_surface_ok :: bool     \<comment> \<open>\<open>cairo_surface_status\<close> is success\<close>
  cb_cr :: addr             \<comment> \<open>\<open>cairo_create\<close>, never NULL\<close>
  cb_cr_ok :: bool          \<comment> \<open>\<open>cairo_status\<close> is success\<close>
  cb_pango :: ptr           \<comment> \<open>\<open>pango_cairo_create_layout\<close>\<close>
  cb_raw :: ptr             \<comment> \<open>\<open>calloc\<close> of the \<open>ZenRawBuffer\<close>\<close>
  cb_node :: ptr            \<comment> \<open>\<open>wlr_scene_buffer_create\<close>\<close>

text \<open>A zeroed struct, as \<open>calloc\<close> and \<open>memset\<close> leave it.\<close>

definition empty_cairo_buffer :: ZenCairoBuffer where
  "empty_cairo_buffer = \<lparr>surface = None, cr = None, pango_layout = None, wlr_buf = None,
     scene_buffer = None, buf_width = 0, buf_height = 0\<rparr>"

definition release_opt :: "kind \<Rightarrow> ptr \<Rightarrow> call list" where
  "release_opt k p = (case p of None \<Rightarrow> [] | Some a \<Rightarrow> [Release k a])"

lemma release_opt_simps [simp]:
  "release_opt k None = []" "release_opt k (Some a) = [Release k a]"
  by (simp_all add: release_opt_def)

definition buffer_releases :: "ZenCairoBuffer \<Rightarrow> call list" where
  "buffer_releases b = release_opt K_node (scene_buffer b) @ release_opt K_buffer (wlr_buf b) @
     release_opt K_pango (pango_layout b) @ release_opt K_cairo (cr b) @
     release_opt K_surface (surface b)"

definition zen_cairo_buffer_destroy :: "ptr \<Rightarrow> world \<Rightarrow> world option" where
  "zen_cairo_buffer_destroy buf w = (case buf of
      None \<Rightarrow> Some w
    | Some a \<Rightarrow> do {
        b \<leftarrow> bufs w a;
        let w = emits (buffer_releases b) w;
        Some (w\<lparr>bufs := (bufs w)(a \<mapsto> b\<lparr>scene_buffer := None, wlr_buf := None,
          pango_layout := None, cr := None, surface := None\<rparr>)\<rparr>) })"

definition store_buf :: "addr \<Rightarrow> ZenCairoBuffer \<Rightarrow> world \<Rightarrow> world" where
  "store_buf a b w = w\<lparr>bufs := (bufs w)(a \<mapsto> b)\<rparr>"

text \<open>The \<open>cleanup\<close> label with \<open>ret != 0\<close>.\<close>

definition cairo_buffer_cleanup :: "ptr \<Rightarrow> world \<Rightarrow> (world \<times> int) option" where
  "cairo_buffer_cleanup buf w = do { w \<leftarrow> zen_cairo_buffer_destroy buf w; Some (w, -1) }"

definition zen_cairo_buffer_create ::
  "cairo_env \<Rightarrow> ptr \<Rightarrow> ptr \<Rightarrow> int \<Rightarrow> int \<Rightarrow> world \<Rightarrow> (world \<times> int) option" where
  "zen_cairo_buffer_create C buf parent width height w =
    (if buf = None \<or> parent = None \<or> width \<le> 0 \<or> height \<le> 0 then cairo_buffer_cleanup buf w
     else do {
       a \<leftarrow> buf;
       p \<leftarrow> parent;
       _ \<leftarrow> bufs w a;
       let b = empty_cairo_buffer\<lparr>buf_width := width, buf_height := height\<rparr>;
       let w = emits [Acquire K_surface (cb_surface C)] w;
       if \<not> cb_surface_ok C then
         cairo_buffer_cleanup buf (store_buf a b (emits [Release K_surface (cb_surface C)] w))
       else do {
         let b = b\<lparr>surface := Some (cb_surface C)\<rparr>;
         let w = emits [Acquire K_cairo (cb_cr C)] w;
         if \<not> cb_cr_ok C then
           cairo_buffer_cleanup buf (store_buf a b (emits [Release K_cairo (cb_cr C)] w))
         else do {
           let b = b\<lparr>cr := Some (cb_cr C)\<rparr>;
           case cb_pango C of
             None \<Rightarrow> cairo_buffer_cleanup buf (store_buf a b w)
           | Some pl \<Rightarrow> do {
               let w = emits [Acquire K_pango pl] w;
               let b = b\<lparr>pango_layout := Some pl\<rparr>;
               case cb_raw C of
                 None \<Rightarrow> cairo_buffer_cleanup buf (store_buf a b w)
               | Some raw \<Rightarrow> do {
                   let w = emits [Acquire K_buffer raw] w;
                   let b = b\<lparr>wlr_buf := Some raw\<rparr>;
                   case cb_node C of
                     None \<Rightarrow>
                       cairo_buffer_cleanup buf
                         (store_buf a (b\<lparr>wlr_buf := None\<rparr>) (emits [Release K_buffer raw] w))
                   | Some nd \<Rightarrow>
                       Some (store_buf a (b\<lparr>scene_buffer := Some nd\<rparr>)
                         (emits [Acquire K_node nd] w), 0) } } } } })"

definition zen_cairo_buffer_get_pango :: "ptr \<Rightarrow> world \<Rightarrow> ptr option" where
  "zen_cairo_buffer_get_pango buf w = (case buf of
      None \<Rightarrow> Some None
    | Some a \<Rightarrow> do { b \<leftarrow> bufs w a; Some (pango_layout b) })"

definition zen_cairo_buffer_submit :: "ptr \<Rightarrow> world \<Rightarrow> (world \<times> int) option" where
  "zen_cairo_buffer_submit buf w = (case buf of
      None \<Rightarrow> Some (w, -1)
    | Some a \<Rightarrow> do {
        b \<leftarrow> bufs w a;
        case (surface b, scene_buffer b, wlr_buf b) of
          (Some s, Some n, Some wb) \<Rightarrow>
            Some (emits [Surface_flush s, Node (Scene_buffer_set_buffer n wb)] w, 0)
        | _ \<Rightarrow> Some (w, -1) })"

lemmas cairo_ops = zen_cairo_buffer_destroy_def zen_cairo_buffer_create_def
  cairo_buffer_cleanup_def store_buf_def buffer_releases_def empty_cairo_buffer_def
declare cairo_ops [zen_ops]

section \<open>The contract of the buffer\<close>

text \<open>A complete buffer holds all five objects; a released one holds none.\<close>

definition buffer_objects :: "ZenCairoBuffer \<Rightarrow> (kind \<times> addr) list" where
  "buffer_objects b =
     [(k, a). (k, p) \<leftarrow> [(K_node, scene_buffer b), (K_buffer, wlr_buf b),
        (K_pango, pango_layout b), (K_cairo, cr b), (K_surface, surface b)],
        a \<leftarrow> (case p of None \<Rightarrow> [] | Some a \<Rightarrow> [a])]"

definition buffer_complete :: "ZenCairoBuffer \<Rightarrow> bool" where
  "buffer_complete b \<longleftrightarrow> surface b \<noteq> None \<and> cr b \<noteq> None \<and> pango_layout b \<noteq> None \<and>
     wlr_buf b \<noteq> None \<and> scene_buffer b \<noteq> None"

lemma replay_release_opt [simp]:
  "replay (case p of None \<Rightarrow> R | Some a \<Rightarrow> (k, a) # R) (release_opt k p) = Some R"
  by (simp split: option.split)

lemma replay_buffer_releases: "replay (buffer_objects b @ R) (buffer_releases b) = Some R"
  by (cases "scene_buffer b"; cases "wlr_buf b"; cases "pango_layout b"; cases "cr b";
      cases "surface b")
     (simp_all add: buffer_objects_def buffer_releases_def)

text \<open>The two outcomes of creation, with what each leaves behind.\<close>

definition creation_outcome ::
  "world \<Rightarrow> addr \<Rightarrow> int \<Rightarrow> int \<Rightarrow> (world \<times> int) option \<Rightarrow> bool" where
  "creation_outcome w a width height x \<longleftrightarrow> (\<exists>w' r b cs. x = Some (w', r) \<and>
     w' = w\<lparr>bufs := (bufs w)(a \<mapsto> b), calls := calls w @ cs\<rparr> \<and>
     buf_width b = width \<and> buf_height b = height \<and>
     (r = 0 \<and> buffer_complete b \<and> (\<forall>R. replay R cs = Some (buffer_objects b @ R)) \<or>
      r = -1 \<and> buffer_objects b = [] \<and> (\<forall>R. replay R cs = Some R)))"

lemma outcome_fail:
  assumes "\<And>R. replay R cs = Some (buffer_objects b @ R)" "buf_width b = width" "buf_height b = height"
  shows "creation_outcome w a width height
    (cairo_buffer_cleanup (Some a) (store_buf a b (emits cs w)))"
proof -
  let ?b = "b\<lparr>scene_buffer := None, wlr_buf := None, pango_layout := None, cr := None,
    surface := None\<rparr>"
  have "cairo_buffer_cleanup (Some a) (store_buf a b (emits cs w)) =
      Some (w\<lparr>bufs := (bufs w)(a \<mapsto> ?b), calls := calls w @ cs @ buffer_releases b\<rparr>, -1)"
    by (simp add: cairo_buffer_cleanup_def store_buf_def zen_cairo_buffer_destroy_def emits_def)
  moreover have "\<forall>R. replay R (cs @ buffer_releases b) = Some R"
    using assms(1) by (simp add: replay_append replay_buffer_releases)
  moreover have "buffer_objects ?b = []" by (simp add: buffer_objects_def)
  ultimately show ?thesis unfolding creation_outcome_def
    using assms(2,3) by (intro exI conjI disjI2) simp_all
qed

lemma outcome_ok:
  assumes "\<And>R. replay R cs = Some (buffer_objects b @ R)" "buf_width b = width" "buf_height b = height"
    and "buffer_complete b"
  shows "creation_outcome w a width height (Some (store_buf a b (emits cs w), 0))"
proof -
  have "store_buf a b (emits cs w) = w\<lparr>bufs := (bufs w)(a \<mapsto> b), calls := calls w @ cs\<rparr>"
    by (simp add: store_buf_def emits_def)
  with assms show ?thesis unfolding creation_outcome_def
    by (intro exI conjI disjI1 allI) simp_all
qed

lemma create_outcome:
  assumes "bufs w a = Some b0" "0 < width" "0 < height"
  shows "creation_outcome w a width height
    (zen_cairo_buffer_create C (Some a) (Some p) width height w)"
  using assms
  by (auto simp: zen_cairo_buffer_create_def Let_def empty_cairo_buffer_def buffer_objects_def
        buffer_complete_def intro!: outcome_fail outcome_ok split: option.split)

lemma create_cases:
  assumes "bufs w a = Some b0" "0 < width" "0 < height"
  obtains w' r b cs where
    "zen_cairo_buffer_create C (Some a) (Some p) width height w = Some (w', r)"
    "w' = w\<lparr>bufs := (bufs w)(a \<mapsto> b), calls := calls w @ cs\<rparr>"
    "buf_width b = width" "buf_height b = height"
    "r = 0 \<and> buffer_complete b \<and> (\<forall>R. replay R cs = Some (buffer_objects b @ R)) \<or>
     r = -1 \<and> buffer_objects b = [] \<and> (\<forall>R. replay R cs = Some R)"
  using create_outcome [OF assms, of C p] unfolding creation_outcome_def by blast

definition released :: "ZenCairoBuffer \<Rightarrow> ZenCairoBuffer" where
  "released b = b\<lparr>scene_buffer := None, wlr_buf := None, pango_layout := None, cr := None,
     surface := None\<rparr>"

lemma buffer_objects_released [simp]: "buffer_objects (released b) = []"
  by (simp add: released_def buffer_objects_def)

lemma destroy_Some:
  "bufs w a = Some b \<Longrightarrow> zen_cairo_buffer_destroy (Some a) w =
     Some (w\<lparr>bufs := (bufs w)(a \<mapsto> released b), calls := calls w @ buffer_releases b\<rparr>)"
  by (simp add: zen_cairo_buffer_destroy_def emits_def released_def)

text \<open>
  C21. Creating a drawing buffer never faults on an allocated struct and positive
  dimensions, whatever the libraries answer: it either succeeds with all five objects held,
  or fails with \<open>-1\<close>, an empty struct, and every object acquired on the way given back.
\<close>

theorem cairo_create_all_or_nothing:
  assumes "bufs w a = Some b0" "0 < width" "0 < height"
  shows "\<exists>w' r b cs. zen_cairo_buffer_create C (Some a) (Some p) width height w = Some (w', r)
    \<and> bufs w' a = Some b \<and> calls w' = calls w @ cs
    \<and> (if r = 0 then buffer_complete b \<and> replay R cs = Some (buffer_objects b @ R)
       else r = -1 \<and> buffer_objects b = [] \<and> replay R cs = Some R)"
  by (rule create_cases [OF assms, of C p]) auto

definition cairo_env_ok :: cairo_env where
  "cairo_env_ok = \<lparr>cb_surface = 1, cb_surface_ok = True, cb_cr = 2, cb_cr_ok = True,
     cb_pango = Some 3, cb_raw = Some 4, cb_node = Some 5\<rparr>"

text \<open>
  Whatever creation did, the destructor afterwards leaves no object of the buffer
  behind and gives none back twice: replayed over any set of objects held before, the trace
  of a create followed by a destroy returns to exactly that set.
\<close>

theorem cairo_create_destroy_balanced:
  assumes "bufs w a = Some b0" "0 < width" "0 < height"
  shows "\<exists>w1 r w2 cs. zen_cairo_buffer_create C (Some a) (Some p) width height w = Some (w1, r)
    \<and> zen_cairo_buffer_destroy (Some a) w1 = Some w2
    \<and> calls w2 = calls w @ cs \<and> replay R cs = Some R"
proof (rule create_cases [OF assms, of C p])
  fix w' r b cs
  assume c: "zen_cairo_buffer_create C (Some a) (Some p) width height w = Some (w', r)"
    and w': "w' = w\<lparr>bufs := (bufs w)(a \<mapsto> b), calls := calls w @ cs\<rparr>"
    and alt: "r = 0 \<and> buffer_complete b \<and> (\<forall>R. replay R cs = Some (buffer_objects b @ R)) \<or>
      r = -1 \<and> buffer_objects b = [] \<and> (\<forall>R. replay R cs = Some R)"
  from w' have "bufs w' a = Some b" by simp
  from destroy_Some [OF this] obtain w2 where
    d: "zen_cairo_buffer_destroy (Some a) w' = Some w2"
    and "calls w2 = calls w' @ buffer_releases b" by auto
  with w' have "calls w2 = calls w @ (cs @ buffer_releases b)" by simp
  moreover from alt have "replay R (cs @ buffer_releases b) = Some R"
    using replay_buffer_releases [of b R] by (auto simp: replay_append)
  ultimately show ?thesis using c d by blast
qed

definition demo_canvas :: world where
  "demo_canvas = zero_world\<lparr>bufs := [7 \<mapsto> empty_cairo_buffer]\<rparr>"

theorem cairo_create_all_or_nothing_witness:
  "\<exists>w' b cs. zen_cairo_buffer_create (cairo_env_ok\<lparr>cb_raw := None\<rparr>) (Some 7) (Some 9) 800 600 demo_canvas =
     Some (w', -1) \<and> bufs w' 7 = Some b \<and> buffer_objects b = [] \<and> calls w' = calls demo_canvas @ cs \<and>
     replay [] cs = Some []"
proof -
  have d: "bufs demo_canvas 7 = Some empty_cairo_buffer" by (simp add: demo_canvas_def)
  have f: "\<exists>w'. zen_cairo_buffer_create (cairo_env_ok\<lparr>cb_raw := None\<rparr>) (Some 7) (Some 9) 800 600
      demo_canvas = Some (w', -1)"
    by (simp add: zen_cairo_buffer_create_def cairo_env_ok_def demo_canvas_def
        cairo_buffer_cleanup_def zen_cairo_buffer_destroy_def store_buf_def Let_def emits_def)
  from cairo_create_all_or_nothing [OF d, of 800 600 "cairo_env_ok\<lparr>cb_raw := None\<rparr>" 9 "[]"] f
  show ?thesis by (auto split: if_splits)
qed

theorem cairo_create_destroy_balanced_witness:
  "\<exists>w1 r w2 cs. zen_cairo_buffer_create cairo_env_ok (Some 7) (Some 9) 800 600 demo_canvas = Some (w1, r)
     \<and> zen_cairo_buffer_destroy (Some 7) w1 = Some w2
     \<and> calls w2 = calls demo_canvas @ cs \<and> replay [(K_timer, 1)] cs = Some [(K_timer, 1)]"
proof -
  have "bufs demo_canvas 7 = Some empty_cairo_buffer" by (simp add: demo_canvas_def)
  from cairo_create_destroy_balanced [OF this, of 800 600 cairo_env_ok 9 "[(K_timer, 1)]"]
  show ?thesis by simp
qed

end
