(* ===== verification/Zen_Lock.thy ===== *)
theory Zen_Lock
  imports Zen_Cairo
begin

text \<open>
  The screen lock of \<open>src/compositor/src/lock.c\<close>: the lock screen and its drawing, the
  password buffer, the conversation with PAM, activation and deactivation, the key handler
  and the three triggers (idle timer, logind, keybinding).
\<close>

section \<open>Constants\<close>

definition ZEN_LOCK_PASS_MAX :: int where "ZEN_LOCK_PASS_MAX = 255"
definition ZEN_LOCK_IDLE_TIMEOUT_MS :: int where "ZEN_LOCK_IDLE_TIMEOUT_MS = 300000"
definition ZEN_LOCK_AVATAR_SIZE :: int where "ZEN_LOCK_AVATAR_SIZE = 80"
definition ZEN_LOCK_PASS_W :: int where "ZEN_LOCK_PASS_W = 300"
definition ZEN_LOCK_PASS_H :: int where "ZEN_LOCK_PASS_H = 40"

lemmas lock_consts = ZEN_LOCK_PASS_MAX_def ZEN_LOCK_IDLE_TIMEOUT_MS_def
  ZEN_LOCK_AVATAR_SIZE_def ZEN_LOCK_PASS_W_def ZEN_LOCK_PASS_H_def

section \<open>What the lock asks of the outside\<close>

datatype pam_style = PAM_PROMPT_ECHO_OFF | PAM_PROMPT_ECHO_ON | PAM_OTHER_STYLE

datatype pam_ret = PAM_SUCCESS | PAM_BUF_ERR | PAM_OTHER int

text \<open>
  PAM is called with a conversation function, which it may call with a list of prompts; the
  conversation function answers with one optional string per prompt.
\<close>

type_synonym pam_conv = "pam_style list \<Rightarrow> pam_ret \<times> cstring list"

record pam_env =
  have_pam :: bool                                        \<comment> \<open>compiled with \<open>HAVE_PAM\<close>\<close>
  getenv_USER :: cstring
  getlogin_name :: cstring
  conv_calloc_ok :: bool
  conv_strdup_ok :: "nat \<Rightarrow> bool"
  pam_start :: "string \<Rightarrow> string \<Rightarrow> pam_ret"
  pam_authenticate :: "string \<Rightarrow> string \<Rightarrow> pam_conv \<Rightarrow> pam_ret"

record lock_env =
  time_str :: string                                      \<comment> \<open>\<open>strftime("%H:%M")\<close>\<close>
  text_size :: "string \<Rightarrow> string \<Rightarrow> int \<times> int"            \<comment> \<open>font and text to pixel size\<close>
  layout_sizes :: "(int \<times> int) option list"               \<comment> \<open>the layout's outputs\<close>
  lock_calloc :: ptr                                      \<comment> \<open>\<open>calloc\<close> of the buffer struct\<close>
  lock_cairo :: cairo_env
  lock_pam :: pam_env
  mgr_create :: ptr                                       \<comment> \<open>\<open>wlr_session_lock_manager_v1_create\<close>\<close>
  add_timer :: ptr                                        \<comment> \<open>\<open>wl_event_loop_add_timer\<close>\<close>
  have_systemd :: bool
  match_signal :: "int \<times> ptr"                             \<comment> \<open>\<open>sd_bus_match_signal\<close>: result, slot\<close>

section \<open>Lock UI rendering\<close>

definition draw_text :: "string \<Rightarrow> string \<Rightarrow> rat \<Rightarrow> rat \<Rightarrow> rat \<Rightarrow> rat \<Rightarrow> int \<Rightarrow> int \<Rightarrow> draw list" where
  "draw_text font txt r g b a x y =
     [Set_font font, Set_text txt, Set_source_rgba r g b a, Move_to x y, Show_layout]"

definition draw_clock :: "lock_env \<Rightarrow> int \<Rightarrow> int \<Rightarrow> draw list" where
  "draw_clock E w h =
     (let (tw, th) = text_size E ''Sans Bold 48'' (time_str E);
          cx = c_div (w - tw) 2;
          cy = c_div h 4 - c_div th 2
      in draw_text ''Sans Bold 48'' (time_str E) 1 1 1 1 cx cy)"

definition draw_avatar :: "int \<Rightarrow> int \<Rightarrow> draw list" where
  "draw_avatar w h =
     (let ax = c_div (w - ZEN_LOCK_AVATAR_SIZE) 2;
          ay = c_div h 2 - ZEN_LOCK_AVATAR_SIZE - 20
      in [Set_source_rgba (4/10) (4/10) (4/10) 1,
          Cairo_rectangle ax ay ZEN_LOCK_AVATAR_SIZE ZEN_LOCK_AVATAR_SIZE, Cairo_fill])"

definition draw_password_field :: "int \<Rightarrow> int \<Rightarrow> draw list" where
  "draw_password_field px py =
     (let radius = 8;
          l = of_int px + radius; r = of_int (px + ZEN_LOCK_PASS_W) - radius;
          t = of_int py + radius; b = of_int (py + ZEN_LOCK_PASS_H) - radius
      in [Set_source_rgba (2/10) (2/10) (2/10) (9/10), Cairo_new_sub_path,
          Cairo_arc r t radius (-1/2) 0, Cairo_arc r b radius 0 (1/2),
          Cairo_arc l b radius (1/2) 1, Cairo_arc l t radius 1 (3/2),
          Cairo_close_path, Cairo_fill])"

text \<open>
  The masked password is built in an array of \<open>ZEN_LOCK_PASS_MAX + 1\<close> bytes; a length
  outside \<open>0..ZEN_LOCK_PASS_MAX\<close> writes past it.
\<close>

definition draw_masked :: "lock_env \<Rightarrow> int \<Rightarrow> int \<Rightarrow> int \<Rightarrow> draw list option" where
  "draw_masked E len px py =
     (if len > 0 then
        if len > ZEN_LOCK_PASS_MAX then None
        else let masked = replicate (nat len) (CHR ''*'');
                 (tw, th) = text_size E ''Monospace 16'' masked
             in Some (draw_text ''Monospace 16'' masked 1 1 1 1
                  (px + c_div (ZEN_LOCK_PASS_W - tw) 2) (py + c_div (ZEN_LOCK_PASS_H - th) 2))
      else Some [])"

definition draw_error :: "lock_env \<Rightarrow> bool \<Rightarrow> int \<Rightarrow> int \<Rightarrow> draw list" where
  "draw_error E err w h =
     (if err then
        let (tw, th) = text_size E ''Sans 14'' ''Incorrect password'';
            ex = c_div (w - tw) 2;
            ey = c_div h 2 + ZEN_LOCK_PASS_H + 20
        in draw_text ''Sans 14'' ''Incorrect password'' 1 (2/10) (2/10) 1 ex ey
      else [])"

definition lock_ui :: "lock_env \<Rightarrow> int \<Rightarrow> int \<Rightarrow> int \<Rightarrow> bool \<Rightarrow> draw list option" where
  "lock_ui E w h len err =
     (let px = c_div (w - ZEN_LOCK_PASS_W) 2; py = c_div h 2 + 10
      in do {
        masked \<leftarrow> draw_masked E len px py;
        Some ([Set_source_rgba 0 0 0 (85/100), Cairo_paint] @ draw_clock E w h @
          draw_avatar w h @ draw_password_field px py @ masked @ draw_error E err w h) })"

text \<open>Drawing with the context of the buffer and its layout; Cairo and Pango follow both.\<close>

definition render_lock_ui :: "lock_env \<Rightarrow> world \<Rightarrow> world option" where
  "render_lock_ui E w = (case lock_buffer (s_lock w) of
      None \<Rightarrow> Some w
    | Some lb \<Rightarrow>
        if ls_width (s_lock w) \<le> 0 \<or> ls_height (s_lock w) \<le> 0 then Some w
        else do {
          b \<leftarrow> bufs w lb;
          _ \<leftarrow> cr b;
          _ \<leftarrow> pango_layout b;
          ui \<leftarrow> lock_ui E (ls_width (s_lock w)) (ls_height (s_lock w)) (s_password_len w)
                 (show_error (s_lock w));
          (w, _) \<leftarrow> zen_cairo_buffer_submit (Some lb) (emits (map Draw ui) w);
          Some w })"

section \<open>PAM authentication\<close>

definition pam_conv_fn :: "pam_env \<Rightarrow> cstring \<Rightarrow> pam_conv" where
  "pam_conv_fn P password msgs =
     (if \<not> conv_calloc_ok P then (PAM_BUF_ERR, [])
      else (PAM_SUCCESS, map (\<lambda>(i, style).
             if style = PAM_PROMPT_ECHO_OFF \<or> style = PAM_PROMPT_ECHO_ON
             then if conv_strdup_ok P i
                  then Some (case password of Some p \<Rightarrow> p | None \<Rightarrow> '''') else None
             else None) (enumerate 0 msgs)))"

definition lock_username :: "pam_env \<Rightarrow> string" where
  "lock_username P =
     (let u = (case getenv_USER P of Some u \<Rightarrow> if u = '''' then getlogin_name P else Some u
               | None \<Rightarrow> getlogin_name P)
      in case u of Some n \<Rightarrow> if n = '''' then ''root'' else n | None \<Rightarrow> ''root'')"

definition pam_authenticate_password :: "pam_env \<Rightarrow> string \<Rightarrow> bool" where
  "pam_authenticate_password P password =
     (if \<not> have_pam P then False
      else let username = lock_username P
           in if pam_start P ''login'' username \<noteq> PAM_SUCCESS then False
              else pam_authenticate P ''login'' username (pam_conv_fn P (Some password))
                     = PAM_SUCCESS)"

section \<open>Activation and deactivation\<close>

definition empty_lock_screen :: ZenLockScreen where
  "empty_lock_screen = \<lparr>wlr_lock = None, lock_buffer = None, ls_width = 0, ls_height = 0,
     show_error = False\<rparr>"

text \<open>\<open>memset(s_password, 0, sizeof(s_password)); s_password_len = 0;\<close>\<close>

definition wipe_password :: "world \<Rightarrow> world" where
  "wipe_password w = w\<lparr>s_password := replicate 256 NUL, s_password_len := 0\<rparr>"

definition set_show_error :: "bool \<Rightarrow> world \<Rightarrow> world" where
  "set_show_error b w = w\<lparr>s_lock := (s_lock w)\<lparr>show_error := b\<rparr>\<rparr>"

text \<open>\<open>zen_cairo_buffer_destroy(b); free(b); s_lock.lock_buffer = NULL;\<close>\<close>

definition free_lock_buffer :: "world \<Rightarrow> world option" where
  "free_lock_buffer w = (case lock_buffer (s_lock w) of
      None \<Rightarrow> Some w
    | Some a \<Rightarrow> do {
        w \<leftarrow> zen_cairo_buffer_destroy (Some a) w;
        Some (w\<lparr>bufs := (bufs w)(a := None), s_lock := (s_lock w)\<lparr>lock_buffer := None\<rparr>\<rparr>) })"

definition zen_lock_deactivate :: "world \<Rightarrow> world option" where
  "zen_lock_deactivate w =
     (if \<not> locked w then Some w
      else do {
        w \<leftarrow> free_lock_buffer w;
        let w = (case wlr_lock (s_lock w) of
                   None \<Rightarrow> w
                 | Some l \<Rightarrow> (emits [Release K_session_lock l] w)
                     \<lparr>s_lock := (s_lock w)\<lparr>wlr_lock := None\<rparr>\<rparr>);
        let w = w\<lparr>locked := False, active_lock := None, s_lock := empty_lock_screen\<rparr>;
        let w = wipe_password w;
        Some (case s_idle_timer w of
                None \<Rightarrow> w
              | Some t \<Rightarrow> emits [Timer_update t ZEN_LOCK_IDLE_TIMEOUT_MS] w) })"

definition primary_size :: "ptr \<Rightarrow> (int \<times> int) option list \<Rightarrow> int \<times> int" where
  "primary_size layout outs =
     (if layout = None then (1920, 1080)
      else case find (\<lambda>lo. case lo of None \<Rightarrow> False | Some (ow, oh) \<Rightarrow> ow > 0) outs of
             Some (Some sz) \<Rightarrow> sz
           | _ \<Rightarrow> (1920, 1080))"

text \<open>
  \<open>&compositor->scene->tree\<close> stands in for a missing overlay tree; without a scene the
  expression dereferences NULL.
\<close>

definition zen_lock_activate :: "lock_env \<Rightarrow> cptr \<Rightarrow> world \<Rightarrow> world option" where
  "zen_lock_activate E c w =
     (if c = CNULL \<or> locked w then Some w
      else do {
        let w = wipe_password (w\<lparr>locked := True, s_lock := empty_lock_screen\<rparr>);
        let (out_w, out_h) = primary_size (output_layout w) (layout_sizes E);
        let w = w\<lparr>s_lock := (s_lock w)\<lparr>ls_width := out_w, ls_height := out_h\<rparr>\<rparr>;
        case lock_calloc E of
          None \<Rightarrow> Some (w\<lparr>locked := False\<rparr>)
        | Some a \<Rightarrow> do {
            let w = w\<lparr>bufs := (bufs w)(a \<mapsto> empty_cairo_buffer),
                      s_lock := (s_lock w)\<lparr>lock_buffer := Some a\<rparr>\<rparr>;
            parent \<leftarrow> (case shell_overlay_tree w of Some t \<Rightarrow> Some t | None \<Rightarrow> scene w);
            (w, ret) \<leftarrow> zen_cairo_buffer_create (lock_cairo E) (Some a) (Some parent)
                          out_w out_h w;
            if ret \<noteq> 0 then
              Some (w\<lparr>bufs := (bufs w)(a := None), s_lock := (s_lock w)\<lparr>lock_buffer := None\<rparr>,
                      locked := False\<rparr>)
            else do {
              b \<leftarrow> bufs w a;
              n \<leftarrow> scene_buffer b;
              render_lock_ui E (emits [Node (Set_position n 0 0)] w) } } })"

definition zen_lock_is_active :: "cptr \<Rightarrow> world \<Rightarrow> bool" where
  "zen_lock_is_active c w = (if c = CNULL then False else locked w)"

section \<open>Keyboard input while locked\<close>

definition key_char :: "u32 \<Rightarrow> char" where
  "key_char ks = char_of (unat (ks AND 0xff))"

definition zen_lock_handle_key ::
  "lock_env \<Rightarrow> u32 \<Rightarrow> u32 \<Rightarrow> bool \<Rightarrow> world \<Rightarrow> (world \<times> bool) option" where
  "zen_lock_handle_key E keycode_xkb ks pressed w =
     (if \<not> locked w \<or> \<not> pressed then Some (w, locked w)
      else if ks = 0xff08 then
        if s_password_len w > 0 then do {
          pw \<leftarrow> c_store (s_password w) (s_password_len w - 1) NUL;
          w \<leftarrow> render_lock_ui E (set_show_error False
                 (w\<lparr>s_password := pw, s_password_len := s_password_len w - 1\<rparr>));
          Some (w, True) }
        else Some (w, True)
      else if ks = 0xff0d \<or> ks = 0xff8d then
        if pam_authenticate_password (lock_pam E) (c_str (s_password w)) then do {
          w \<leftarrow> zen_lock_deactivate w;
          Some (w, True) }
        else do {
          w \<leftarrow> render_lock_ui E (wipe_password (set_show_error True w));
          Some (w, True) }
      else if ks = 0xff1b then do {
        w \<leftarrow> render_lock_ui E (set_show_error False (wipe_password w));
        Some (w, True) }
      else if 0x20 \<le> ks \<and> ks \<le> 0x7e then
        if s_password_len w < ZEN_LOCK_PASS_MAX then do {
          pw \<leftarrow> c_store (s_password w) (s_password_len w) (key_char ks);
          pw \<leftarrow> c_store pw (s_password_len w + 1) NUL;
          w \<leftarrow> render_lock_ui E (set_show_error False
                 (w\<lparr>s_password := pw, s_password_len := s_password_len w + 1\<rparr>));
          Some (w, True) }
        else Some (w, True)
      else Some (w, True))"

section \<open>Triggers, initialisation, destruction\<close>

definition idle_timeout_cb :: "lock_env \<Rightarrow> world \<Rightarrow> (world \<times> int) option" where
  "idle_timeout_cb E w = do { w \<leftarrow> zen_lock_activate E CPTR w; Some (w, 0) }"

definition lock_signal_cb :: "lock_env \<Rightarrow> world \<Rightarrow> (world \<times> int) option" where
  "lock_signal_cb E w = do { w \<leftarrow> zen_lock_activate E CPTR w; Some (w, 0) }"

definition handle_new_lock :: "addr \<Rightarrow> world \<Rightarrow> world" where
  "handle_new_lock l w = emits [Send_locked l] w"

definition zen_lock_destroy :: "bool \<Rightarrow> cptr \<Rightarrow> world \<Rightarrow> world option" where
  "zen_lock_destroy systemd c w =
     (if c = CNULL then Some w
      else do {
        let w = (emits (release_opt K_timer (s_idle_timer w)) w)\<lparr>s_idle_timer := None\<rparr>;
        let w = (if systemd
                 then (emits (release_opt K_slot (s_lock_signal_slot w)) w)
                        \<lparr>s_lock_signal_slot := None\<rparr>
                 else w);
        w \<leftarrow> free_lock_buffer w;
        Some (wipe_password (w\<lparr>locked := False, active_lock := None, lock_mgr := None,
          s_lock := empty_lock_screen\<rparr>)) })"

definition zen_lock_init :: "lock_env \<Rightarrow> cptr \<Rightarrow> world \<Rightarrow> (world \<times> int) option" where
  "zen_lock_init E c w =
     (if c = CNULL \<or> wl_display w = None then
        do { w \<leftarrow> zen_lock_destroy (have_systemd E) c w; Some (w, -1) }
      else do {
        let w = wipe_password (w\<lparr>s_lock := empty_lock_screen\<rparr>)\<lparr>s_idle_timer := None,
                  lock_mgr := mgr_create E\<rparr>;
        if lock_mgr w = None then
          do { w \<leftarrow> zen_lock_destroy (have_systemd E) c w; Some (w, -1) }
        else do {
          w \<leftarrow> listen (Of_Module, L_new_lock) w;
          let w = (case add_timer E of
                     None \<Rightarrow> w
                   | Some t \<Rightarrow> emits [Acquire K_timer t, Timer_update t ZEN_LOCK_IDLE_TIMEOUT_MS]
                       (w\<lparr>s_idle_timer := Some t\<rparr>));
          let w = (if have_systemd E \<and> bus w \<noteq> None \<and> fst (match_signal E) \<ge> 0
                   then (emits (case snd (match_signal E) of None \<Rightarrow> []
                                | Some s \<Rightarrow> [Acquire K_slot s]) w)
                          \<lparr>s_lock_signal_slot := snd (match_signal E)\<rparr>
                   else w);
          Some (w, 0) } })"

section \<open>The password buffer\<close>

text \<open>
  The password always is a NUL-terminated text and the length counts it. The compositor is
  locked exactly while it has a lock buffer, which is live and complete; the protocol lock
  object is never set by this module.
\<close>

definition password_ok :: "world \<Rightarrow> bool" where
  "password_ok w \<longleftrightarrow> holds_text 256 (s_password w) (c_str (s_password w)) \<and>
     s_password_len w = int (length (c_str (s_password w)))"

definition lock_wf :: "world \<Rightarrow> bool" where
  "lock_wf w \<longleftrightarrow> password_ok w \<and> wlr_lock (s_lock w) = None \<and>
     (locked w \<longleftrightarrow> lock_buffer (s_lock w) \<noteq> None) \<and>
     (\<forall>a. lock_buffer (s_lock w) = Some a \<longrightarrow> (\<exists>b. bufs w a = Some b \<and> buffer_complete b))"

text \<open>The library objects the lock screen holds.\<close>

definition lock_objects :: "world \<Rightarrow> (kind \<times> addr) list" where
  "lock_objects w = (case lock_buffer (s_lock w) of None \<Rightarrow> []
     | Some a \<Rightarrow> (case bufs w a of None \<Rightarrow> [] | Some b \<Rightarrow> buffer_objects b))"

text \<open>
  A lawful change of the lock: it stays well-formed, and the calls made account for the
  objects held before and after.
\<close>

definition lock_evolves :: "world \<Rightarrow> world \<Rightarrow> bool" where
  "lock_evolves w w' \<longleftrightarrow> lock_wf w' \<and> (\<exists>cs. calls w' = calls w @ cs \<and>
     (\<forall>R. replay (lock_objects w @ R) cs = Some (lock_objects w' @ R)))"

lemma password_okI: "holds_text 256 (s_password w) s \<Longrightarrow> s_password_len w = int (length s) \<Longrightarrow> password_ok w"
  using holds_text_c_str [of 256 "s_password w" s] by (simp add: password_ok_def)

lemma password_ok_bounds:
  assumes "password_ok w"
  shows "0 \<le> s_password_len w" "s_password_len w \<le> ZEN_LOCK_PASS_MAX" "length (s_password w) = 256"
proof -
  from assms have h: "holds_text 256 (s_password w) (c_str (s_password w))"
    and l: "s_password_len w = int (length (c_str (s_password w)))"
    unfolding password_ok_def by blast+
  from holds_text_less [OF h] l show "0 \<le> s_password_len w" "s_password_len w \<le> ZEN_LOCK_PASS_MAX"
    by (simp_all add: lock_consts)
  from h show "length (s_password w) = 256" by (rule holds_text_length)
qed

lemma password_ok_wipe [simp]: "password_ok (wipe_password w)"
  by (rule password_okI [of _ "[]"]) (simp_all add: wipe_password_def holds_text_empty)

lemma c_str_wipe [simp]: "c_str (s_password (wipe_password w)) = []"
  by (simp add: wipe_password_def)

text \<open>Field access after the small updates; every other field is untouched.\<close>

lemma lock_upd_simps [simp]:
  "locked (wipe_password w) = locked w" "s_lock (wipe_password w) = s_lock w"
  "bufs (wipe_password w) = bufs w" "calls (wipe_password w) = calls w"
  "s_idle_timer (wipe_password w) = s_idle_timer w"
  "locked (set_show_error b w) = locked w" "bufs (set_show_error b w) = bufs w"
  "s_password (set_show_error b w) = s_password w" "calls (set_show_error b w) = calls w"
  "s_password_len (set_show_error b w) = s_password_len w"
  "lock_buffer (s_lock (set_show_error b w)) = lock_buffer (s_lock w)"
  "wlr_lock (s_lock (set_show_error b w)) = wlr_lock (s_lock w)"
  "show_error (s_lock (set_show_error b w)) = b"
  "locked (emits cs w) = locked w" "s_lock (emits cs w) = s_lock w"
  "bufs (emits cs w) = bufs w" "s_password (emits cs w) = s_password w"
  "s_password_len (emits cs w) = s_password_len w" "s_idle_timer (emits cs w) = s_idle_timer w"
  by (simp_all add: wipe_password_def set_show_error_def emits_def)

lemma password_ok_cong:
  "s_password w' = s_password w \<Longrightarrow> s_password_len w' = s_password_len w \<Longrightarrow>
   password_ok w' = password_ok w"
  by (simp add: password_ok_def)

lemma password_ok_emits [simp]: "password_ok (emits cs w) = password_ok w"
  by (rule password_ok_cong) simp_all

lemma lock_objects_simps [simp]:
  "lock_objects (emits cs w) = lock_objects w"
  "lock_objects (wipe_password w) = lock_objects w"
  "lock_objects (set_show_error b w) = lock_objects w"
  "lock_objects (w\<lparr>s_password := pw, s_password_len := len\<rparr>) = lock_objects w"
  by (simp_all add: lock_objects_def split: option.split)

lemma lock_wf_emits [simp]: "lock_wf (emits cs w) = lock_wf w"
  by (simp add: lock_wf_def)

subsection \<open>Drawing\<close>

text \<open>Drawing only adds calls, of three kinds, and never faults on a well-formed lock.\<close>

definition drawing_call :: "call \<Rightarrow> bool" where
  "drawing_call c \<longleftrightarrow> (case c of Draw _ \<Rightarrow> True | Surface_flush _ \<Rightarrow> True
     | Node (Scene_buffer_set_buffer _ _) \<Rightarrow> True | _ \<Rightarrow> False)"

lemma replay_drawing: "list_all drawing_call cs \<Longrightarrow> replay R cs = Some R"
proof (induction cs)
  case (Cons c cs)
  then have "resource_step c R = Some R"
    by (auto simp: drawing_call_def split: call.splits)
  with Cons show ?case by simp
qed simp

lemma lock_evolves_refl: "lock_wf w \<Longrightarrow> lock_evolves w w"
  by (auto simp: lock_evolves_def intro: exI [of _ "[]"])

lemma lock_evolves_trans:
  assumes "lock_evolves w v" "lock_evolves v u"
  shows "lock_evolves w u"
proof -
  from assms obtain cs ds where "calls v = calls w @ cs" "calls u = calls v @ ds"
    and cs: "\<And>R. replay (lock_objects w @ R) cs = Some (lock_objects v @ R)"
    and ds: "\<And>R. replay (lock_objects v @ R) ds = Some (lock_objects u @ R)"
    unfolding lock_evolves_def by blast
  then have "calls u = calls w @ cs @ ds"
    and "\<And>R. replay (lock_objects w @ R) (cs @ ds) = Some (lock_objects u @ R)"
    by (simp_all add: replay_append)
  with assms(2) show ?thesis unfolding lock_evolves_def by blast
qed

lemma lock_ui_total:
  "0 \<le> len \<Longrightarrow> len \<le> ZEN_LOCK_PASS_MAX \<Longrightarrow> \<exists>ui. lock_ui E wd ht len err = Some ui"
  by (auto simp: lock_ui_def draw_masked_def Let_def split: prod.split)

lemma submit_emits:
  assumes "bufs w a = Some b"
  obtains cs r where "zen_cairo_buffer_submit (Some a) w = Some (emits cs w, r)"
    "list_all drawing_call cs"
proof (cases "surface b = None \<or> scene_buffer b = None \<or> wlr_buf b = None")
  case True
  with assms have "zen_cairo_buffer_submit (Some a) w = Some (emits [] w, -1)"
    by (auto simp: zen_cairo_buffer_submit_def split: option.split)
  then show ?thesis by (rule that) simp
next
  case False
  then obtain s n wb where "surface b = Some s" "scene_buffer b = Some n" "wlr_buf b = Some wb"
    by auto
  with assms have "zen_cairo_buffer_submit (Some a) w =
      Some (emits [Surface_flush s, Node (Scene_buffer_set_buffer n wb)] w, 0)"
    by (simp add: zen_cairo_buffer_submit_def)
  then show ?thesis by (rule that) (simp add: drawing_call_def)
qed

lemma render_lock_ui_emits:
  assumes "lock_wf w"
  obtains cs where "render_lock_ui E w = Some (emits cs w)" "list_all drawing_call cs"
proof (cases "lock_buffer (s_lock w)")
  case None
  then have "render_lock_ui E w = Some (emits [] w)" by (simp add: render_lock_ui_def)
  then show ?thesis by (rule that) simp
next
  case (Some lb)
  with assms obtain b c l where b: "bufs w lb = Some b" "cr b = Some c" "pango_layout b = Some l"
    by (auto simp: lock_wf_def buffer_complete_def)
  from assms have "password_ok w" by (simp add: lock_wf_def)
  note bounds = password_ok_bounds [OF this]
  from lock_ui_total [OF bounds(1,2)] obtain ui where
    ui: "lock_ui E (ls_width (s_lock w)) (ls_height (s_lock w)) (s_password_len w)
      (show_error (s_lock w)) = Some ui" by blast
  show ?thesis
  proof (cases "ls_width (s_lock w) \<le> 0 \<or> ls_height (s_lock w) \<le> 0")
    case True
    with Some have "render_lock_ui E w = Some (emits [] w)" by (simp add: render_lock_ui_def)
    then show ?thesis by (rule that) simp
  next
    case False
    from b(1) have "bufs (emits (map Draw ui) w) lb = Some b" by simp
    from submit_emits [OF this] obtain cs r where
      cs: "zen_cairo_buffer_submit (Some lb) (emits (map Draw ui) w) =
        Some (emits cs (emits (map Draw ui) w), r)" "list_all drawing_call cs" by blast
    with False Some b ui have "render_lock_ui E w = Some (emits (map Draw ui @ cs) w)"
      by (simp add: render_lock_ui_def)
    then show ?thesis by (rule that) (use cs(2) in \<open>auto simp: drawing_call_def list_all_iff\<close>)
  qed
qed

section \<open>Refinement: an editor for one line of text\<close>

text \<open>
  What the lock promises, without buffers and drawing: it is unlocked, or locked with the
  text typed so far and whether an error is shown.
\<close>

datatype lock_abs = Unlocked | Locked string bool

fun lock_spec_key :: "(string \<Rightarrow> bool) \<Rightarrow> u32 \<Rightarrow> lock_abs \<Rightarrow> lock_abs" where
  "lock_spec_key auth ks Unlocked = Unlocked"
| "lock_spec_key auth ks (Locked s e) =
     (if ks = 0xff08 then if s = [] then Locked s e else Locked (butlast s) False
      else if ks = 0xff0d \<or> ks = 0xff8d then if auth s then Unlocked else Locked [] True
      else if ks = 0xff1b then Locked [] False
      else if 0x20 \<le> ks \<and> ks \<le> 0x7e \<and> length s < 255
      then Locked (s @ [char_of (unat ks)]) False
      else Locked s e)"

definition lock_abs_of :: "world \<Rightarrow> lock_abs" where
  "lock_abs_of w = (if locked w then Locked (c_str (s_password w)) (show_error (s_lock w))
     else Unlocked)"

lemma locked_iff_abs: "locked w \<longleftrightarrow> lock_abs_of w \<noteq> Unlocked"
  by (simp add: lock_abs_of_def)

lemma lock_abs_of_emits [simp]: "lock_abs_of (emits cs w) = lock_abs_of w"
  by (simp add: lock_abs_of_def)

lemma lock_abs_of_wipe [simp]:
  "lock_abs_of (wipe_password w) = (if locked w then Locked [] (show_error (s_lock w)) else Unlocked)"
  by (simp add: lock_abs_of_def)

lemma key_char_unat: "ks \<le> 0x7e \<Longrightarrow> key_char ks = char_of (unat ks)"
proof -
  assume "ks \<le> 0x7e"
  then have "unat ks < 256" by (simp add: word_le_nat_alt)
  moreover have "ks AND 0xff = take_bit 8 ks"
    by (simp add: take_bit_eq_mask mask_eq_exp_minus_1)
  ultimately show ?thesis
    by (simp add: key_char_def take_bit_eq_mod unat_mod)
qed

lemma key_char_not_NUL: "0x20 \<le> ks \<Longrightarrow> ks \<le> 0x7e \<Longrightarrow> key_char ks \<noteq> NUL"
proof
  assume "0x20 \<le> ks" "ks \<le> 0x7e" "key_char ks = NUL"
  then have "of_char (char_of (unat ks) :: char) = (0::nat)"
    by (simp add: key_char_unat)
  moreover from \<open>0x20 \<le> ks\<close> \<open>ks \<le> 0x7e\<close> have "32 \<le> unat ks" "unat ks \<le> 126"
    by (simp_all add: word_le_nat_alt)
  ultimately show False by simp
qed

text \<open>Rendering after an update of the password keeps what the update made.\<close>

lemma render_step:
  assumes "lock_wf w'" "lock_abs_of w' = st" "calls w' = calls w" "lock_objects w' = lock_objects w"
  shows "\<exists>w''. do { w \<leftarrow> render_lock_ui E w'; Some (w, True) } = Some (w'', True) \<and>
    lock_abs_of w'' = st \<and> lock_evolves w w''"
proof -
  from assms(1) obtain cs where cs: "render_lock_ui E w' = Some (emits cs w')"
    "list_all drawing_call cs" by (rule render_lock_ui_emits)
  then have "lock_evolves w (emits cs w')"
    using assms by (auto simp: lock_evolves_def replay_drawing)
  with cs(1) assms(2) show ?thesis by simp
qed

lemma lock_wf_set_show_error [simp]: "lock_wf (set_show_error b w) = lock_wf w"
  by (simp add: lock_wf_def password_ok_def)

lemma lock_wf_wipe: "lock_wf w \<Longrightarrow> lock_wf (wipe_password w)"
  by (simp add: lock_wf_def)

lemma lock_wf_store:
  assumes "lock_wf w" "holds_text 256 pw s" "len = int (length s)"
  shows "lock_wf (w\<lparr>s_password := pw, s_password_len := len\<rparr>)"
proof -
  have "password_ok (w\<lparr>s_password := pw, s_password_len := len\<rparr>)"
    by (rule password_okI [of _ s]) (use assms in simp_all)
  with assms(1) show ?thesis by (simp add: lock_wf_def)
qed

lemma free_lock_buffer_Some:
  assumes "lock_wf w"
  shows "\<exists>w' cs. free_lock_buffer w = Some w' \<and> lock_buffer (s_lock w') = None \<and>
    wlr_lock (s_lock w') = None \<and> calls w' = calls w @ cs \<and>
    (\<forall>R. replay (lock_objects w @ R) cs = Some R)"
proof (cases "lock_buffer (s_lock w)")
  case None
  with assms show ?thesis
    by (auto simp: free_lock_buffer_def lock_wf_def lock_objects_def intro: exI [of _ "[]"])
next
  case (Some a)
  with assms obtain b where "bufs w a = Some b" by (auto simp: lock_wf_def)
  with Some assms show ?thesis
    by (simp add: free_lock_buffer_def destroy_Some lock_objects_def replay_buffer_releases lock_wf_def)
qed

lemma deactivate_Some:
  assumes "lock_wf w" "locked w"
  shows "\<exists>w'. zen_lock_deactivate w = Some w' \<and> \<not> locked w' \<and> lock_evolves w w' \<and>
    s_password w' = replicate 256 NUL \<and> s_password_len w' = 0 \<and> s_lock w' = empty_lock_screen"
proof -
  from assms(1) obtain w1 cs where w1: "free_lock_buffer w = Some w1" "wlr_lock (s_lock w1) = None"
    and cs: "calls w1 = calls w @ cs" "\<And>R. replay (lock_objects w @ R) cs = Some R"
    using free_lock_buffer_Some by blast
  define w2 where "w2 = wipe_password (w1\<lparr>locked := False, active_lock := None,
    s_lock := empty_lock_screen\<rparr>)"
  let ?ts = "case s_idle_timer w1 of None \<Rightarrow> []
    | Some t \<Rightarrow> [Timer_update t ZEN_LOCK_IDLE_TIMEOUT_MS]"
  have w2: "\<not> locked w2" "s_password w2 = replicate 256 NUL" "s_password_len w2 = 0"
      "s_lock w2 = empty_lock_screen" "calls w2 = calls w1" "lock_wf w2" "lock_objects w2 = []"
    by (simp_all add: w2_def lock_wf_def empty_lock_screen_def lock_objects_def)
       (simp_all add: wipe_password_def)
  have "zen_lock_deactivate w = Some (emits ?ts w2)"
    using assms(2) w1 by (simp add: zen_lock_deactivate_def w2_def split: option.split)
  moreover have "lock_evolves w (emits ?ts w2)"
    using w2 cs by (simp add: lock_evolves_def replay_append split: option.split)
  ultimately show ?thesis using w2 by simp
qed

text \<open>The two edits of the buffer, as edits of the text.\<close>

lemma password_text: "lock_wf w \<Longrightarrow> holds_text 256 (s_password w) (c_str (s_password w))"
  and password_len: "lock_wf w \<Longrightarrow> s_password_len w = int (length (c_str (s_password w)))"
  unfolding lock_wf_def password_ok_def by blast+

lemma backspace_store:
  assumes "lock_wf w" "c_str (s_password w) \<noteq> []"
  obtains pw where "c_store (s_password w) (s_password_len w - 1) NUL = Some pw"
    "holds_text 256 pw (butlast (c_str (s_password w)))"
proof
  let ?s = "c_str (s_password w)"
  from assms(2) have "nat (int (length ?s) - 1) = length ?s - 1" by (cases ?s) simp_all
  moreover from holds_text_less [OF password_text [OF assms(1)]] assms(2)
  have "int (length ?s) - 1 < int (length (s_password w))" "0 \<le> int (length ?s) - 1"
    using holds_text_length [OF password_text [OF assms(1)]] by (cases ?s; simp)+
  ultimately show "c_store (s_password w) (s_password_len w - 1) NUL =
      Some ((s_password w)[length ?s - 1 := NUL])"
    by (simp add: password_len [OF assms(1)] c_store_in_range)
  show "holds_text 256 ((s_password w)[length ?s - 1 := NUL]) (butlast ?s)"
    using password_text [OF assms(1)] assms(2) by (rule holds_text_butlast)
qed

lemma append_store:
  assumes "lock_wf w" "length (c_str (s_password w)) < 255" "c \<noteq> NUL"
  obtains pw1 pw where "c_store (s_password w) (s_password_len w) c = Some pw1"
    "c_store pw1 (s_password_len w + 1) NUL = Some pw"
    "holds_text 256 pw (c_str (s_password w) @ [c])"
proof
  let ?s = "c_str (s_password w)"
  have len: "length (s_password w) = 256"
    using password_text [OF assms(1)] by (rule holds_text_length)
  show "c_store (s_password w) (s_password_len w) c = Some ((s_password w)[length ?s := c])"
    using assms(2) len by (simp add: password_len [OF assms(1)] c_store_in_range)
  have "nat (int (length ?s) + 1) = Suc (length ?s)" by simp
  then show "c_store ((s_password w)[length ?s := c]) (s_password_len w + 1) NUL =
      Some ((s_password w)[length ?s := c, Suc (length ?s) := NUL])"
    using assms(2) len by (simp add: password_len [OF assms(1)] c_store_in_range)
  show "holds_text 256 ((s_password w)[length ?s := c, Suc (length ?s) := NUL]) (?s @ [c])"
    using password_text [OF assms(1)] assms(3) by (rule holds_text_snoc) (use assms(2) in simp)
qed

lemma edit_step:
  assumes "lock_wf w" "locked w" "holds_text 256 pw s" "len = int (length s)"
  shows "\<exists>w''. do { w \<leftarrow> render_lock_ui E (set_show_error False
      (w\<lparr>s_password := pw, s_password_len := len\<rparr>)); Some (w, True) } = Some (w'', True) \<and>
    lock_abs_of w'' = Locked s False \<and> lock_evolves w w''"
proof -
  let ?w = "set_show_error False (w\<lparr>s_password := pw, s_password_len := len\<rparr>)"
  have "lock_wf ?w" using lock_wf_store [OF assms(1,3,4)] by simp
  moreover have "lock_abs_of ?w = Locked s False"
    using assms(2,3) by (simp add: lock_abs_of_def holds_text_c_str)
  ultimately show ?thesis by (rule render_step) simp_all
qed

subsection \<open>One key\<close>

definition key_refines :: "lock_env \<Rightarrow> u32 \<Rightarrow> u32 \<Rightarrow> world \<Rightarrow> bool" where
  "key_refines E kc ks w \<longleftrightarrow> (\<exists>w'. zen_lock_handle_key E kc ks True w = Some (w', True) \<and>
     lock_evolves w w' \<and> lock_abs_of w' =
       lock_spec_key (pam_authenticate_password (lock_pam E)) ks (lock_abs_of w))"

lemma lock_abs_of_locked:
  "locked w \<Longrightarrow> lock_abs_of w = Locked (c_str (s_password w)) (show_error (s_lock w))"
  by (simp add: lock_abs_of_def)

lemma key_backspace:
  assumes "lock_wf w" "locked w"
  shows "key_refines E kc 0xff08 w"
proof (cases "c_str (s_password w) = []")
  case True
  with assms password_len [OF assms(1)] show ?thesis
    by (simp add: key_refines_def zen_lock_handle_key_def lock_abs_of_locked lock_evolves_refl)
next
  case False
  let ?s = "c_str (s_password w)"
  from assms(1) False obtain pw where
    pw: "c_store (s_password w) (s_password_len w - 1) NUL = Some pw" "holds_text 256 pw (butlast ?s)"
    by (rule backspace_store)
  have "s_password_len w - 1 = int (length (butlast ?s))"
    using False password_len [OF assms(1)] by (cases ?s) simp_all
  from edit_step [OF assms pw(2) this, of E] False assms(2) password_len [OF assms(1)] pw(1)
  show ?thesis by (auto simp: key_refines_def zen_lock_handle_key_def lock_abs_of_locked)
qed

lemma key_return:
  assumes "lock_wf w" "locked w" "ks = 0xff0d \<or> ks = 0xff8d"
  shows "key_refines E kc ks w"
proof (cases "pam_authenticate_password (lock_pam E) (c_str (s_password w))")
  case True
  from deactivate_Some [OF assms(1,2)] True assms(2,3) show ?thesis
    by (auto simp: key_refines_def zen_lock_handle_key_def lock_abs_of_def)
next
  case False
  have "\<exists>w''. do { w \<leftarrow> render_lock_ui E (wipe_password (set_show_error True w)); Some (w, True) } =
      Some (w'', True) \<and> lock_abs_of w'' = Locked [] True \<and> lock_evolves w w''"
    by (rule render_step) (use assms in \<open>simp_all add: lock_wf_wipe\<close>)
  with False assms(2,3) show ?thesis
    by (auto simp: key_refines_def zen_lock_handle_key_def lock_abs_of_locked)
qed

lemma key_escape:
  assumes "lock_wf w" "locked w"
  shows "key_refines E kc 0xff1b w"
proof -
  have "\<exists>w''. do { w \<leftarrow> render_lock_ui E (set_show_error False (wipe_password w)); Some (w, True) } =
      Some (w'', True) \<and> lock_abs_of w'' = Locked [] False \<and> lock_evolves w w''"
    by (rule render_step) (use assms in \<open>simp_all add: lock_wf_wipe lock_abs_of_def\<close>)
  with assms(2) show ?thesis
    by (auto simp: key_refines_def zen_lock_handle_key_def lock_abs_of_locked)
qed

lemma key_printable:
  assumes "lock_wf w" "locked w" "0x20 \<le> ks" "ks \<le> 0x7e"
  shows "key_refines E kc ks w"
proof -
  let ?s = "c_str (s_password w)"
  have no: "ks \<noteq> 0xff08" "ks \<noteq> 0xff0d" "ks \<noteq> 0xff8d" "ks \<noteq> 0xff1b"
    using assms(4) by (auto simp: word_le_nat_alt)
  note len = password_len [OF assms(1)]
  show ?thesis
  proof (cases "length ?s < 255")
    case True
    with assms(1) obtain pw1 pw where
      pw: "c_store (s_password w) (s_password_len w) (key_char ks) = Some pw1"
      "c_store pw1 (s_password_len w + 1) NUL = Some pw" "holds_text 256 pw (?s @ [key_char ks])"
      using append_store key_char_not_NUL [OF assms(3,4)] by blast
    have "s_password_len w + 1 = int (length (?s @ [key_char ks]))" using len by simp
    from edit_step [OF assms(1,2) pw(3) this, of E] assms no True len pw(1,2) show ?thesis
      by (auto simp: key_refines_def zen_lock_handle_key_def lock_consts key_char_unat
          lock_abs_of_locked)
  next
    case False
    with assms no len show ?thesis
      by (simp add: key_refines_def zen_lock_handle_key_def lock_consts lock_abs_of_locked
          lock_evolves_refl)
  qed
qed

lemma key_refinement:
  assumes "lock_wf w" "locked w"
  shows "key_refines E kc ks w"
proof -
  consider "ks = 0xff08" | "ks = 0xff0d \<or> ks = 0xff8d" | "ks = 0xff1b" | "0x20 \<le> ks" "ks \<le> 0x7e"
    | (other) "ks \<notin> {0xff08, 0xff0d, 0xff8d, 0xff1b}" "\<not> (0x20 \<le> ks \<and> ks \<le> 0x7e)"
    by blast
  then show ?thesis
  proof cases
    case other
    with assms show ?thesis
      by (auto simp: key_refines_def zen_lock_handle_key_def lock_abs_of_locked lock_evolves_refl)
  qed (use assms in \<open>auto intro: key_backspace key_return key_escape key_printable\<close>)
qed

text \<open>
  C9. The key handler implements the one-line editor: on a well-formed lock it never faults
  (no store outside the 256-byte buffer, no dead buffer used), reports exactly whether the
  screen was locked, and moves the abstract state as the specification says: backspace
  drops the last character, return submits the text to PAM and unlocks only on success,
  escape clears, printable characters are appended up to 255, everything else is ignored.
\<close>

theorem lock_key_refines_spec:
  assumes "lock_wf w"
  shows "\<exists>w'. zen_lock_handle_key E kc ks pressed w = Some (w', locked w) \<and> lock_wf w' \<and>
    lock_abs_of w' = (if pressed
      then lock_spec_key (pam_authenticate_password (lock_pam E)) ks (lock_abs_of w)
      else lock_abs_of w)"
proof (cases "locked w \<and> pressed")
  case True
  with key_refinement [of w E kc ks] assms show ?thesis
    by (auto simp: key_refines_def lock_evolves_def)
next
  case False
  with assms show ?thesis
    by (auto simp: zen_lock_handle_key_def lock_abs_of_def)
qed

section \<open>Activation\<close>

lemma primary_width_pos: "0 < fst (primary_size layout outs)"
  by (auto simp: primary_size_def find_Some_iff split: option.split)

text \<open>The state in which activation asks for the drawing buffer.\<close>

definition lock_pending :: "lock_env \<Rightarrow> world \<Rightarrow> world" where
  "lock_pending E w =
     (let sz = primary_size (output_layout w) (layout_sizes E)
      in wipe_password (w\<lparr>locked := True,
           s_lock := empty_lock_screen\<lparr>ls_width := fst sz, ls_height := snd sz\<rparr>\<rparr>))"

lemma lock_pending_simps [simp]:
  "locked (lock_pending E w)" "bufs (lock_pending E w) = bufs w" "calls (lock_pending E w) = calls w"
  "wlr_lock (s_lock (lock_pending E w)) = None" "lock_buffer (s_lock (lock_pending E w)) = None"
  "show_error (s_lock (lock_pending E w)) = False" "c_str (s_password (lock_pending E w)) = []"
  "password_ok (lock_pending E w)"
  "output_layout (lock_pending E w) = output_layout w"
  "shell_overlay_tree (lock_pending E w) = shell_overlay_tree w" "scene (lock_pending E w) = scene w"
  by (simp_all add: lock_pending_def Let_def empty_lock_screen_def) (simp_all add: wipe_password_def)

text \<open>The same state with a fresh buffer struct installed, and what creation makes of it.\<close>

definition lock_with_buf :: "lock_env \<Rightarrow> addr \<Rightarrow> world \<Rightarrow> world" where
  "lock_with_buf E a w = (lock_pending E w)\<lparr>bufs := (bufs w)(a \<mapsto> empty_cairo_buffer),
     s_lock := (s_lock (lock_pending E w))\<lparr>lock_buffer := Some a\<rparr>\<rparr>"

lemma lock_with_buf_simps [simp]:
  "locked (lock_with_buf E a w)" "bufs (lock_with_buf E a w) = (bufs w)(a \<mapsto> empty_cairo_buffer)"
  "calls (lock_with_buf E a w) = calls w"
  "wlr_lock (s_lock (lock_with_buf E a w)) = None"
  "lock_buffer (s_lock (lock_with_buf E a w)) = Some a"
  "show_error (s_lock (lock_with_buf E a w)) = False" "c_str (s_password (lock_with_buf E a w)) = []"
  "password_ok (lock_with_buf E a w)"
  by (simp_all add: lock_with_buf_def)
     (rule password_ok_cong [THEN iffD2, of _ "lock_pending E w"]; simp)

lemma activate_unfold:
  assumes "\<not> locked w"
  shows "zen_lock_activate E CPTR w = (case lock_calloc E of
      None \<Rightarrow> Some ((lock_pending E w)\<lparr>locked := False\<rparr>)
    | Some a \<Rightarrow> do {
        parent \<leftarrow> (case shell_overlay_tree w of Some t \<Rightarrow> Some t | None \<Rightarrow> scene w);
        (w', ret) \<leftarrow> zen_cairo_buffer_create (lock_cairo E) (Some a) (Some parent)
          (fst (primary_size (output_layout w) (layout_sizes E)))
          (snd (primary_size (output_layout w) (layout_sizes E))) (lock_with_buf E a w);
        if ret \<noteq> 0 then
          Some (w'\<lparr>bufs := (bufs w')(a := None), s_lock := (s_lock w')\<lparr>lock_buffer := None\<rparr>,
                  locked := False\<rparr>)
        else do {
          b \<leftarrow> bufs w' a;
          n \<leftarrow> scene_buffer b;
          render_lock_ui E (emits [Node (Set_position n 0 0)] w') } })"
proof -
  have pend: "wipe_password (w\<lparr>locked := True, s_lock := empty_lock_screen\<rparr>)
      \<lparr>s_lock := (empty_lock_screen)\<lparr>ls_width := x, ls_height := y\<rparr>\<rparr> =
    wipe_password (w\<lparr>locked := True, s_lock := empty_lock_screen\<lparr>ls_width := x, ls_height := y\<rparr>\<rparr>)"
    for x y by (simp add: wipe_password_def)
  have out: "output_layout (wipe_password v) = output_layout v" for v
    by (simp add: wipe_password_def)
  show ?thesis
    using assms
    by (simp add: zen_lock_activate_def out pend lock_with_buf_def lock_pending_def
        split: option.split prod.split)
       (auto simp: wipe_password_def split: option.split)
qed

lemma create_nonpositive:
  assumes "bufs w a = Some b" "width \<le> 0 \<or> height \<le> 0"
  shows "zen_cairo_buffer_create C (Some a) (Some p) width height w =
    Some (w\<lparr>bufs := (bufs w)(a \<mapsto> released b), calls := calls w @ buffer_releases b\<rparr>, -1)"
  using assms by (simp add: zen_cairo_buffer_create_def cairo_buffer_cleanup_def destroy_Some)

lemma create_lock_buf:
  obtains w' r b cs where
    "zen_cairo_buffer_create C (Some a) (Some p) wd ht (lock_with_buf E a w) = Some (w', r)"
    "w' = (lock_with_buf E a w)\<lparr>bufs := (bufs w)(a \<mapsto> b), calls := calls w @ cs\<rparr>"
    "r = 0 \<and> buffer_complete b \<and> buf_width b = wd \<and> buf_height b = ht \<and>
       (\<forall>R. replay R cs = Some (buffer_objects b @ R)) \<or> r = -1 \<and> (\<forall>R. replay R cs = Some R)"
proof (cases "0 < wd \<and> 0 < ht")
  case True
  have e: "bufs (lock_with_buf E a w) a = Some empty_cairo_buffer" by simp
  show ?thesis
    by (rule create_cases [OF e, of wd ht C p]) (use True that in \<open>auto simp: fun_upd_upd\<close>)
next
  case False
  have "zen_cairo_buffer_create C (Some a) (Some p) wd ht (lock_with_buf E a w) =
      Some ((lock_with_buf E a w)\<lparr>bufs := (bufs w)(a \<mapsto> released empty_cairo_buffer),
        calls := calls w @ []\<rparr>, -1)"
    using False create_nonpositive [of "lock_with_buf E a w" a empty_cairo_buffer wd ht C p]
    by (auto simp: buffer_releases_def empty_cairo_buffer_def)
  then show ?thesis
    by (rule that [where b = "released empty_cairo_buffer" and cs = "[]"]) simp_all
qed

text \<open>The contract of activation from an unlocked, well-formed state.\<close>

definition activation_outcome :: "lock_env \<Rightarrow> world \<Rightarrow> world \<Rightarrow> bool" where
  "activation_outcome E w w' \<longleftrightarrow> lock_evolves w w' \<and>
     (if locked w' then lock_abs_of w' = Locked [] False \<and>
        (\<exists>a b. lock_calloc E = Some a \<and> lock_buffer (s_lock w') = Some a \<and>
           bufs w' = (bufs w)(a \<mapsto> b) \<and> buffer_complete b \<and>
           (buf_width b, buf_height b) = primary_size (output_layout w) (layout_sizes E))
      else bufs w' = bufs w)"

lemma activation_denied:
  assumes "lock_wf w" "\<not> locked w" "bufs w' = bufs w" "\<not> locked w'" "lock_buffer (s_lock w') = None"
    "wlr_lock (s_lock w') = None" "password_ok w'" "calls w' = calls w @ cs"
    "\<And>R. replay R cs = Some R"
  shows "activation_outcome E w w'"
proof -
  have "lock_objects w = []" "lock_objects w' = []"
    using assms by (simp_all add: lock_objects_def lock_wf_def)
  with assms show ?thesis
    by (simp add: activation_outcome_def lock_evolves_def lock_wf_def)
qed

lemma activation_granted:
  assumes "lock_wf w" "\<not> locked w" "lock_calloc E = Some a"
    and w': "w' = (lock_with_buf E a w)\<lparr>bufs := (bufs w)(a \<mapsto> b), calls := calls w @ cs\<rparr>"
    and b: "buffer_complete b"
      "(buf_width b, buf_height b) = primary_size (output_layout w) (layout_sizes E)"
    and cs: "\<And>R. replay R cs = Some (buffer_objects b @ R)"
  shows "\<exists>w''. render_lock_ui E (emits [Node (Set_position n 0 0)] w') = Some w'' \<and>
    activation_outcome E w w''"
proof -
  have pw: "password_ok w'"
    by (rule password_ok_cong [THEN iffD2, of _ "lock_with_buf E a w"]) (simp_all add: w')
  then have "lock_wf w'" using b(1) by (simp add: lock_wf_def w')
  then have "lock_wf (emits [Node (Set_position n 0 0)] w')" by simp
  then obtain ds where ds: "render_lock_ui E (emits [Node (Set_position n 0 0)] w') =
      Some (emits (Node (Set_position n 0 0) # ds) w')" "list_all drawing_call ds"
    by (rule render_lock_ui_emits [of _ E]) simp
  have "lock_objects w = []" using assms by (simp add: lock_objects_def lock_wf_def)
  moreover have "lock_objects w' = buffer_objects b" by (simp add: lock_objects_def w')
  ultimately have "lock_evolves w (emits (Node (Set_position n 0 0) # ds) w')"
    using \<open>lock_wf w'\<close> cs ds(2)
    by (auto simp: lock_evolves_def w' replay_append replay_drawing)
  then show ?thesis using ds(1) b assms(3)
    by (auto simp: activation_outcome_def lock_abs_of_def w')
qed

lemma activate_outcome:
  assumes wf: "lock_wf w" "\<not> locked w" "shell_overlay_tree w \<noteq> None \<or> scene w \<noteq> None"
    and fresh: "\<And>a. lock_calloc E = Some a \<Longrightarrow> bufs w a = None"
  shows "\<exists>w'. zen_lock_activate E CPTR w = Some w' \<and> activation_outcome E w w'"
proof (cases "lock_calloc E")
  case None
  have "activation_outcome E w ((lock_pending E w)\<lparr>locked := False\<rparr>)"
    by (rule activation_denied [where cs = "[]"])
       (use wf in \<open>simp_all add: password_ok_cong [of _ "lock_pending E w"]\<close>)
  with None wf(2) show ?thesis by (simp add: activate_unfold)
next
  case (Some a)
  from wf(3) obtain p where
    p: "(case shell_overlay_tree w of Some t \<Rightarrow> Some t | None \<Rightarrow> scene w) = Some p"
    by (cases "shell_overlay_tree w") auto
  let ?sz = "primary_size (output_layout w) (layout_sizes E)"
  obtain w' r b cs where c: "zen_cairo_buffer_create (lock_cairo E) (Some a) (Some p) (fst ?sz)
      (snd ?sz) (lock_with_buf E a w) = Some (w', r)"
    and w': "w' = (lock_with_buf E a w)\<lparr>bufs := (bufs w)(a \<mapsto> b), calls := calls w @ cs\<rparr>"
    and r: "r = 0 \<and> buffer_complete b \<and> buf_width b = fst ?sz \<and> buf_height b = snd ?sz \<and>
       (\<forall>R. replay R cs = Some (buffer_objects b @ R)) \<or> r = -1 \<and> (\<forall>R. replay R cs = Some R)"
    by (rule create_lock_buf)
  show ?thesis
  proof (cases "r = 0")
    case True
    with r obtain n where "scene_buffer b = Some n" by (auto simp: buffer_complete_def)
    moreover from True r have "\<exists>w''. render_lock_ui E (emits [Node (Set_position n 0 0)] w') = Some w'' \<and>
        activation_outcome E w w''"
      by (intro activation_granted [OF wf(1,2) Some w']) auto
    ultimately show ?thesis using True Some p c wf(2) by (auto simp: activate_unfold w')
  next
    case False
    let ?v = "w'\<lparr>bufs := (bufs w')(a := None), s_lock := (s_lock w')\<lparr>lock_buffer := None\<rparr>,
      locked := False\<rparr>"
    have "activation_outcome E w ?v"
      by (rule activation_denied [where cs = cs])
         (use wf False r fresh [OF Some] in
          \<open>auto simp: w' fun_upd_idem password_ok_cong [of _ "lock_with_buf E a w"]\<close>)
    with False Some p c wf(2) show ?thesis by (auto simp: activate_unfold)
  qed
qed

text \<open>
  C22. Activating the lock from an unlocked state, whatever the allocator and the graphics
  libraries answer: either the screen is locked with an empty password and a complete
  buffer of the size of the first output that has one (1920x1080 without any), or it is left
  unlocked with the heap as before. In both cases every library object acquired on the way
  is accounted for.
\<close>

theorem lock_activate_contract:
  assumes "lock_wf w" "\<not> locked w" "shell_overlay_tree w \<noteq> None \<or> scene w \<noteq> None"
    and "\<And>a. lock_calloc E = Some a \<Longrightarrow> bufs w a = None"
  shows "\<exists>w' cs. zen_lock_activate E CPTR w = Some w' \<and> lock_wf w' \<and> calls w' = calls w @ cs \<and>
    (if locked w' then lock_abs_of w' = Locked [] False \<and> replay R cs = Some (lock_objects w' @ R) \<and>
       (\<exists>a b. lock_buffer (s_lock w') = Some a \<and> bufs w' a = Some b \<and> buffer_complete b \<and>
          (buf_width b, buf_height b) = primary_size (output_layout w) (layout_sizes E))
     else bufs w' = bufs w \<and> replay R cs = Some R)"
proof -
  from activate_outcome [OF assms] obtain w' where w': "zen_lock_activate E CPTR w = Some w'"
    and out: "activation_outcome E w w'" by blast
  then obtain cs where wf: "lock_wf w'" and cs: "calls w' = calls w @ cs"
    and rp: "\<And>R. replay (lock_objects w @ R) cs = Some (lock_objects w' @ R)"
    by (auto simp: activation_outcome_def lock_evolves_def)
  have "lock_objects w = []" using assms(1,2) by (simp add: lock_objects_def lock_wf_def)
  with rp have rp': "replay R cs = Some (lock_objects w' @ R)" for R by (metis append_Nil)
  show ?thesis
  proof (cases "locked w'")
    case True
    with wf out have "\<exists>a b. lock_buffer (s_lock w') = Some a \<and> bufs w' a = Some b \<and>
        buffer_complete b \<and> (buf_width b, buf_height b) =
          primary_size (output_layout w) (layout_sizes E)"
      by (auto simp: activation_outcome_def)
    with True wf cs rp' out w' show ?thesis by (auto simp: activation_outcome_def)
  next
    case False
    with wf have "lock_objects w' = []" by (simp add: lock_objects_def lock_wf_def)
    with False wf cs rp' out w' show ?thesis by (auto simp: activation_outcome_def)
  qed
qed

section \<open>A concrete lock\<close>

text \<open>
  A locked screen with a live buffer, an outside in which PAM accepts the password
  \<open>zen\<close> only, and a state with that password typed.
\<close>

definition demo_pam :: pam_env where
  "demo_pam = \<lparr>have_pam = True, getenv_USER = Some ''ada'', getlogin_name = None,
     conv_calloc_ok = True, conv_strdup_ok = (\<lambda>_. True), pam_start = (\<lambda>_ _. PAM_SUCCESS),
     pam_authenticate = (\<lambda>_ u conv. if u = ''ada'' \<and>
       conv [PAM_PROMPT_ECHO_OFF] = (PAM_SUCCESS, [Some ''zen''])
       then PAM_SUCCESS else PAM_OTHER 7)\<rparr>"

definition demo_env :: lock_env where
  "demo_env = \<lparr>time_str = ''12:00'', text_size = (\<lambda>_ t. (10 * int (length t), 20)),
     layout_sizes = [None, Some (800, 600)], lock_calloc = Some 70, lock_cairo = cairo_env_ok,
     lock_pam = demo_pam, mgr_create = Some 80, add_timer = Some 81, have_systemd = True,
     match_signal = (0, Some 82)\<rparr>"

text \<open>A buffer as a successful creation leaves it.\<close>

definition demo_buffer :: ZenCairoBuffer where
  "demo_buffer = \<lparr>surface = Some 71, cr = Some 72, pango_layout = Some 73, wlr_buf = Some 74,
     scene_buffer = Some 75, buf_width = 800, buf_height = 600\<rparr>"

lemma demo_buffer_complete [simp]: "buffer_complete demo_buffer"
  by (simp add: buffer_complete_def demo_buffer_def)

definition demo_unlocked :: world where
  "demo_unlocked = zero_world\<lparr>wl_display := Some 1, scene := Some 2, output_layout := Some 3\<rparr>"

definition demo_locked :: world where
  "demo_locked = demo_unlocked\<lparr>locked := True, bufs := [70 \<mapsto> demo_buffer],
     s_lock := empty_lock_screen\<lparr>lock_buffer := Some 70, ls_width := 800, ls_height := 600\<rparr>\<rparr>"

definition demo_typed :: world where
  "demo_typed = demo_locked\<lparr>s_password := ''zen'' @ replicate 253 NUL, s_password_len := 3\<rparr>"

lemma zero_password: "password_ok (zero_world\<lparr>locked := b\<rparr>)"
  by (rule password_okI [of _ "[]"]) (simp_all add: zero_world_def holds_text_empty)

lemma demo_unlocked_wf: "lock_wf demo_unlocked" "\<not> locked demo_unlocked"
  "scene demo_unlocked = Some 2" "bufs demo_unlocked = Map.empty" "lregs demo_unlocked = []"
  by (auto simp: demo_unlocked_def zero_world_def lock_wf_def
      intro!: password_okI [of _ "[]"] holds_text_empty)

lemma demo_locked_wf: "lock_wf demo_locked" "locked demo_locked"
  by (auto simp: demo_locked_def demo_unlocked_def zero_world_def lock_wf_def empty_lock_screen_def
      intro!: password_okI [of _ "[]"] holds_text_empty)

lemma demo_typed_wf: "lock_wf demo_typed" "locked demo_typed" "c_str (s_password demo_typed) = ''zen''"
proof -
  have h: "holds_text 256 (''zen'' @ replicate 253 NUL) ''zen''" by (simp add: holds_text_def)
  show "lock_wf demo_typed"
    using lock_wf_store [OF demo_locked_wf(1) h, of 3] by (simp add: demo_typed_def)
  show "locked demo_typed" using demo_locked_wf by (simp add: demo_typed_def)
  show "c_str (s_password demo_typed) = ''zen''"
    using holds_text_c_str [OF h] by (simp add: demo_typed_def)
qed

lemma demo_auth: "pam_authenticate_password demo_pam ''zen''"
  by (simp add: pam_authenticate_password_def demo_pam_def lock_username_def pam_conv_fn_def)

theorem lock_key_refines_spec_witness:
  "lock_wf demo_typed \<and> (\<exists>w'. zen_lock_handle_key demo_env 0 0xff08 True demo_typed = Some (w', True) \<and>
     lock_wf w' \<and> lock_abs_of w' = Locked ''ze'' False)"
  using lock_key_refines_spec [OF demo_typed_wf(1), of demo_env 0 "0xff08" True] demo_typed_wf
  by (simp add: lock_abs_of_def)

theorem lock_activate_contract_witness:
  "\<exists>w' cs. zen_lock_activate demo_env CPTR demo_unlocked = Some w' \<and> lock_wf w' \<and>
    calls w' = calls demo_unlocked @ cs \<and> (if locked w' then replay [] cs = Some (lock_objects w')
      else replay [] cs = Some [])"
proof -
  have "bufs demo_unlocked a = None" for a using demo_unlocked_wf by simp
  from lock_activate_contract [OF demo_unlocked_wf(1,2) _ this, of demo_env "[]"] demo_unlocked_wf(3)
  show ?thesis by (auto split: if_splits)
qed

end
