(* ===== verification/Zen_Keybinds.thy ===== *)
theory Zen_Keybinds
  imports Zen_Lock
begin

text \<open>
  The global keybindings of \<open>src/compositor/src/keybinds.c\<close>: the registry and its lookup, the
  actions, and the hand-written parser of \<open>keybinds.json\<close>. A \<open>char *\<close> into the text of the
  file is the list of characters from there up to the terminating NUL; reading past the NUL
  is a fault.
\<close>

section \<open>Constants of wlroots and xkbcommon\<close>

definition WLR_MODIFIER_SHIFT :: u32 where "WLR_MODIFIER_SHIFT = 1"
definition WLR_MODIFIER_CTRL :: u32 where "WLR_MODIFIER_CTRL = 4"
definition WLR_MODIFIER_ALT :: u32 where "WLR_MODIFIER_ALT = 8"
definition WLR_MODIFIER_LOGO :: u32 where "WLR_MODIFIER_LOGO = 64"
definition XKB_KEY_NoSymbol :: u32 where "XKB_KEY_NoSymbol = 0"
definition XKB_KEY_t :: u32 where "XKB_KEY_t = 0x74"
definition XKB_KEY_l :: u32 where "XKB_KEY_l = 0x6c"
definition XKB_KEY_q :: u32 where "XKB_KEY_q = 0x71"
definition XKB_KEY_Tab :: u32 where "XKB_KEY_Tab = 0xff09"
definition XKB_KEY_Super_L :: u32 where "XKB_KEY_Super_L = 0xffeb"

lemmas wlr_modifiers = WLR_MODIFIER_SHIFT_def WLR_MODIFIER_CTRL_def WLR_MODIFIER_ALT_def
  WLR_MODIFIER_LOGO_def
lemmas xkb_keys = XKB_KEY_NoSymbol_def XKB_KEY_t_def XKB_KEY_l_def XKB_KEY_q_def
  XKB_KEY_Tab_def XKB_KEY_Super_L_def

section \<open>What the keybindings ask of the outside\<close>

text \<open>Whether the allocations made for one object of the file succeed.\<close>

record binding_alloc =
  al_key :: bool
  al_action :: bool
  al_command :: bool
  al_binding :: bool
  al_strdup :: bool

record config_file =
  cf_fseek_ok :: bool
  cf_ftell :: int
  cf_fread :: "int \<Rightarrow> char list"   \<comment> \<open>what \<open>fread\<close> delivers of so many bytes\<close>

record kb_env =
  kb_lock :: lock_env
  kb_fork_ok :: bool
  keysym_from_name :: "string \<Rightarrow> u32"
  kb_fopen :: "string \<Rightarrow> config_file option"
  kb_malloc_ok :: bool
  kb_alloc :: "nat \<Rightarrow> binding_alloc"
  kb_default_ok :: "nat \<Rightarrow> bool"
  getenv_HOME :: cstring

section \<open>Actions\<close>

fun action_name :: "ZenKeybindAction \<Rightarrow> string" where
  "action_name ZEN_ACTION_LAUNCH_TERMINAL = ''launch_terminal''"
| "action_name ZEN_ACTION_TOGGLE_LAUNCHER = ''toggle_launcher''"
| "action_name ZEN_ACTION_LOCK_SCREEN = ''lock_screen''"
| "action_name ZEN_ACTION_SWITCH_WINDOW = ''switch_window''"
| "action_name ZEN_ACTION_CLOSE_WINDOW = ''close_window''"
| "action_name ZEN_ACTION_CUSTOM = ''custom''"
| "action_name _ = ''unknown''"

definition fork_exec :: "kb_env \<Rightarrow> string list list \<Rightarrow> world \<Rightarrow> world" where
  "fork_exec E argvs w = emits [Proc (if kb_fork_ok E then Fork_exec argvs else Fork_failed)] w"

definition execute_action :: "kb_env \<Rightarrow> ZenKeybindAction \<Rightarrow> cstring \<Rightarrow> world \<Rightarrow> world option" where
  "execute_action E act cmd w = (case act of
      ZEN_ACTION_LAUNCH_TERMINAL \<Rightarrow> Some (fork_exec E [[''foot''], [''xterm'']] w)
    | ZEN_ACTION_LOCK_SCREEN \<Rightarrow> zen_lock_activate (kb_lock E) CPTR w
    | ZEN_ACTION_CLOSE_WINDOW \<Rightarrow>
        (case focused_toplevel w of
           None \<Rightarrow> Some w
         | Some t \<Rightarrow> do {
             focused \<leftarrow> tops w t;
             Some (case xdg_toplevel focused of
                     None \<Rightarrow> w
                   | Some x \<Rightarrow> emits [Xdg (Send_close x)] w) })
    | ZEN_ACTION_CUSTOM \<Rightarrow>
        (case cmd of
           None \<Rightarrow> Some w
         | Some s \<Rightarrow> Some (if s = [] then w else fork_exec E [[''sh'', ''-c'', s]] w))
    | _ \<Rightarrow> Some w)"

section \<open>The registry\<close>

definition binding_matches :: "u32 \<Rightarrow> u32 \<Rightarrow> ZenKeybinding \<Rightarrow> bool" where
  "binding_matches mods ks b \<longleftrightarrow> modifiers b = mods \<and> keysym b = ks"

definition zen_keybinds_handle_key ::
  "kb_env \<Rightarrow> cptr \<Rightarrow> u32 \<Rightarrow> u32 \<Rightarrow> world \<Rightarrow> (world \<times> bool) option" where
  "zen_keybinds_handle_key E c mods ks w =
     (if c = CNULL then Some (w, False)
      else do {
        bindings \<leftarrow> keybindings w;
        case find (binding_matches mods ks) bindings of
          Some b \<Rightarrow> do { w \<leftarrow> execute_action E (action b) (custom_cmd b) w; Some (w, True) }
        | None \<Rightarrow> Some (w, False) })"

definition zen_keybinds_destroy :: "cptr \<Rightarrow> world \<Rightarrow> world" where
  "zen_keybinds_destroy c w =
     (if c = CNULL then w
      else case keybindings w of
             None \<Rightarrow> w
           | Some bs \<Rightarrow> w\<lparr>keybindings := Some (fold wl_list_remove bs bs)\<rparr>)"

definition register_binding ::
  "bool \<Rightarrow> bool \<Rightarrow> u32 \<Rightarrow> u32 \<Rightarrow> ZenKeybindAction \<Rightarrow> cstring \<Rightarrow> world \<Rightarrow> (world \<times> int) option" where
  "register_binding calloc_ok strdup_ok mods ks act cmd w =
     (if \<not> calloc_ok then Some (w, -1)
      else if cmd \<noteq> None \<and> \<not> strdup_ok then Some (w, -1)
      else do {
        bindings \<leftarrow> keybindings w;
        Some (w\<lparr>keybindings := Some (wl_list_append
          \<lparr>modifiers = mods, keysym = ks, action = act, custom_cmd = cmd\<rparr> bindings)\<rparr>, 0) })"

section \<open>The parser\<close>

abbreviation QUOTE :: char where "QUOTE \<equiv> CHR 0x22"
abbreviation BACKSLASH :: char where "BACKSLASH \<equiv> CHR 0x5C"

definition is_space :: "char \<Rightarrow> bool" where
  "is_space c \<longleftrightarrow> c = CHR '' '' \<or> c = CHR 0x09 \<or> c = CHR 0x0A \<or> c = CHR 0x0D"

definition skip_space :: "string \<Rightarrow> string" where
  "skip_space p = dropWhile is_space p"

definition skip_separators :: "string \<Rightarrow> string" where
  "skip_separators p = dropWhile (\<lambda>c. is_space c \<or> c = CHR '','') p"

definition c_tolower :: "char \<Rightarrow> char" where
  "c_tolower c = (let n = of_char c :: nat in if 65 \<le> n \<and> n \<le> 90 then char_of (n + 32) else c)"

definition parse_modifier_token :: "string \<Rightarrow> u32" where
  "parse_modifier_token tok =
     (let t = map c_tolower tok
      in if t = ''ctrl'' then WLR_MODIFIER_CTRL
         else if t = ''alt'' then WLR_MODIFIER_ALT
         else if t = ''super'' then WLR_MODIFIER_LOGO
         else if t = ''shift'' then WLR_MODIFIER_SHIFT
         else 0)"

text \<open>
  The loop over the array. When the text ends behind separators, \<open>*p\<close> is the NUL, which is
  not a quote, so \<open>p++\<close> steps over it and the loop condition reads beyond the buffer: \<open>None\<close>.
\<close>

lemma skip_separators_length: "length (skip_separators p) \<le> length p"
  by (simp add: skip_separators_def length_dropWhile_le)

function parse_modifiers_loop :: "u32 \<Rightarrow> string \<Rightarrow> u32 option" where
  "parse_modifiers_loop mods p =
     (if p = [] \<or> hd p = CHR '']'' then Some mods
      else case skip_separators p of
             [] \<Rightarrow> None
           | c # cs \<Rightarrow>
               if c = CHR '']'' then Some mods
               else if c \<noteq> QUOTE then parse_modifiers_loop mods cs
               else parse_modifiers_loop
                      (mods OR parse_modifier_token (takeWhile (\<lambda>c. c \<noteq> QUOTE) cs))
                      (drop 1 (dropWhile (\<lambda>c. c \<noteq> QUOTE) cs)))"
  by pat_completeness auto
termination
proof (relation "measure (\<lambda>(m, p). length p)", simp_all)
  fix p :: string and c cs
  assume "skip_separators p = c # cs"
  with skip_separators_length [of p] have "Suc (length cs) \<le> length p" by simp
  then show "length cs < length p" by simp
  moreover have "length (dropWhile (\<lambda>c. c \<noteq> QUOTE) cs) \<le> length cs" by (rule length_dropWhile_le)
  ultimately show "length (dropWhile (\<lambda>c. c \<noteq> QUOTE) cs) - Suc 0 < length p" by simp
qed

declare parse_modifiers_loop.simps [simp del]

definition parse_modifiers_array :: "string \<Rightarrow> u32 option" where
  "parse_modifiers_array p = (case dropWhile (\<lambda>c. c \<noteq> CHR ''['') p of
      [] \<Rightarrow> Some 0
    | _ # cs \<Rightarrow> parse_modifiers_loop 0 cs)"

definition action_table :: "(string \<times> ZenKeybindAction) list" where
  "action_table =
     [(''launch_terminal'', ZEN_ACTION_LAUNCH_TERMINAL),
      (''toggle_launcher'', ZEN_ACTION_TOGGLE_LAUNCHER),
      (''lock_screen'', ZEN_ACTION_LOCK_SCREEN),
      (''switch_window'', ZEN_ACTION_SWITCH_WINDOW),
      (''close_window'', ZEN_ACTION_CLOSE_WINDOW),
      (''custom'', ZEN_ACTION_CUSTOM)]"

definition parse_action_string :: "string \<Rightarrow> ZenKeybindAction" where
  "parse_action_string s = (case map_of action_table s of
      Some a \<Rightarrow> a | None \<Rightarrow> ZEN_ACTION_COUNT)"

text \<open>\<open>memmem\<close>, and \<open>strstr\<close> on text without NUL: the text from the first occurrence on.\<close>

fun memmem :: "string \<Rightarrow> string \<Rightarrow> string option" where
  "memmem pat [] = (if pat = [] then Some [] else None)"
| "memmem pat (c # cs) =
     (if take (length pat) (c # cs) = pat then Some (c # cs) else memmem pat cs)"

text \<open>The scan of a string value up to its closing quote; \<open>None\<close> when the object ends first.\<close>

fun scan_value :: "string \<Rightarrow> string option" where
  "scan_value [] = None"
| "scan_value [c] = (if c = QUOTE then Some [] else None)"
| "scan_value (c # d # cs) =
     (if c = QUOTE then Some []
      else if c = BACKSLASH then map_option (\<lambda>v. c # d # v) (scan_value cs)
      else map_option (Cons c) (scan_value (d # cs)))"

definition quoted :: "string \<Rightarrow> string" where
  "quoted key = QUOTE # key @ [QUOTE]"

lemma memmem_length: "memmem pat s = Some t \<Longrightarrow> length t \<le> length s"
  by (induction pat s rule: memmem.induct) (auto split: if_splits)

lemma memmem_drop_shorter:
  assumes "memmem (quoted key) s = Some t"
  shows "length (skip_space (drop (length (quoted key)) t)) < length s"
proof -
  have "t \<noteq> []" using assms by (induction "quoted key" s rule: memmem.induct) (auto simp: quoted_def split: if_splits)
  then have "length (drop (length (quoted key)) t) < length t" by (simp add: quoted_def)
  moreover have "length (skip_space u) \<le> length u" for u
    by (simp add: skip_space_def length_dropWhile_le)
  ultimately show ?thesis using memmem_length [OF assms] by (metis le_less_trans less_le_trans)
qed

text \<open>
  \<open>obj\<close> is the text from \<open>pos\<close> to \<open>obj_end\<close>. The three \<open>continue\<close>s search on behind what was
  skipped. The pattern buffer of 64 bytes is large enough for the three keys in use.
\<close>

function extract_string_field :: "bool \<Rightarrow> string \<Rightarrow> string \<Rightarrow> cstring" where
  "extract_string_field malloc_ok obj key =
     (if length key + 2 \<ge> 64 then None
      else case memmem (quoted key) obj of
             None \<Rightarrow> None
           | Some t \<Rightarrow>
               let pos = skip_space (drop (length (quoted key)) t)
               in if pos = [] \<or> hd pos \<noteq> CHR '':'' then extract_string_field malloc_ok pos key
                  else let pos' = skip_space (tl pos)
                       in if pos' = [] \<or> hd pos' \<noteq> QUOTE
                          then extract_string_field malloc_ok pos' key
                          else case scan_value (tl pos') of
                                 None \<Rightarrow> None
                               | Some v \<Rightarrow> if malloc_ok then Some v else None)"
  by pat_completeness auto
termination
proof (relation "measure (\<lambda>(m, obj, key). length obj)", simp_all del: length_0_conv)
  fix obj key t :: string
  assume t: "memmem (quoted key) obj = Some t"
  let ?pos = "skip_space (drop (length (quoted key)) t)"
  from memmem_drop_shorter [OF t] show lt: "length ?pos < length obj" .
  have "length (skip_space (tl ?pos)) \<le> length ?pos"
    using length_dropWhile_le [of is_space "tl ?pos"] by (simp add: skip_space_def)
  with lt show "length (skip_space (tl ?pos)) < length obj" by simp
qed

declare extract_string_field.simps [simp del]

text \<open>
  The array is parsed from \<open>pos\<close> without the bound \<open>obj_end\<close>: \<open>rest\<close> is the text behind the
  object.
\<close>

function extract_modifiers_field :: "string \<Rightarrow> string \<Rightarrow> u32 option" where
  "extract_modifiers_field obj rest =
     (case memmem (quoted ''modifiers'') obj of
        None \<Rightarrow> Some 0
      | Some t \<Rightarrow>
          let pos = skip_space (drop (length (quoted ''modifiers'')) t)
          in if pos = [] \<or> hd pos \<noteq> CHR '':'' then extract_modifiers_field pos rest
             else parse_modifiers_array (tl pos @ rest))"
  by pat_completeness auto
termination
  by (relation "measure (\<lambda>(obj, rest). length obj)") (use memmem_drop_shorter in \<open>auto\<close>)

declare extract_modifiers_field.simps [simp del]

text \<open>The text of an object up to its matching brace, and what follows it.\<close>

fun split_object :: "int \<Rightarrow> string \<Rightarrow> string \<times> string" where
  "split_object depth [] = ([], [])"
| "split_object depth (c # cs) =
     (if c = CHR ''{'' then (case split_object (depth + 1) cs of (a, b) \<Rightarrow> (c # a, b))
      else if c = CHR ''}'' then
        if depth - 1 = 0 then ([c], cs)
        else (case split_object (depth - 1) cs of (a, b) \<Rightarrow> (c # a, b))
      else (case split_object depth cs of (a, b) \<Rightarrow> (c # a, b)))"

lemma split_object_append: "split_object d s = (a, b) \<Longrightarrow> s = a @ b"
  by (induction d s arbitrary: a b rule: split_object.induct) (auto split: if_splits prod.splits)

lemma split_object_nonempty: "split_object d s = (a, b) \<Longrightarrow> s \<noteq> [] \<Longrightarrow> a \<noteq> []"
  by (cases s) (auto split: if_splits prod.splits)

lemma split_object_shorter:
  assumes "(obj, rest) = split_object 0 (skip_separators p)" "skip_separators p \<noteq> []"
  shows "length rest < length p"
proof -
  from assms have "skip_separators p = obj @ rest" "obj \<noteq> []"
    using split_object_append [of 0 "skip_separators p" obj rest]
      split_object_nonempty [of 0 "skip_separators p" obj rest] by simp_all
  then have "length rest < length (skip_separators p)" by simp
  then show ?thesis using skip_separators_length [of p] by simp
qed

text \<open>
  One object of the array, from its fields to the registry: the result is 0 or the reason to
  give up, -1. \<open>n\<close> counts the bindings loaded so far.
\<close>

definition load_binding :: "kb_env \<Rightarrow> nat \<Rightarrow> string \<Rightarrow> string \<Rightarrow> world \<Rightarrow> (world \<times> int) option" where
  "load_binding E n obj rest w = do {
     mods \<leftarrow> extract_modifiers_field obj rest;
     let key_str = extract_string_field (al_key (kb_alloc E n)) obj ''key'';
     let action_str = extract_string_field (al_action (kb_alloc E n)) obj ''action'';
     let cmd_str = extract_string_field (al_command (kb_alloc E n)) obj ''command'';
     case (key_str, action_str) of
       (Some key, Some act_name) \<Rightarrow>
         let ks = keysym_from_name E key;
             act = parse_action_string act_name
         in if ks = XKB_KEY_NoSymbol then Some (w, -1)
            else if act = ZEN_ACTION_COUNT then Some (w, -1)
            else register_binding (al_binding (kb_alloc E n)) (al_strdup (kb_alloc E n))
                   mods ks act cmd_str w
     | _ \<Rightarrow> Some (w, -1) }"

text \<open>The loop over the objects.\<close>

function load_bindings :: "kb_env \<Rightarrow> nat \<Rightarrow> string \<Rightarrow> world \<Rightarrow> (world \<times> int) option" where
  "load_bindings E n p0 w =
     (let p = skip_separators p0
      in if p = [] \<or> hd p = CHR '']'' then Some (w, 0)
         else if hd p \<noteq> CHR ''{'' then Some (w, -1)
         else case split_object 0 p of (obj, rest) \<Rightarrow>
           (case load_binding E n obj rest w of
              None \<Rightarrow> None
            | Some (w', rc) \<Rightarrow>
                if rc \<noteq> 0 then Some (w', -1) else load_bindings E (Suc n) rest w'))"
  by pat_completeness auto
termination
  by (relation "measure (\<lambda>(E, n, p, w). length p)") (auto dest!: split_object_shorter)

declare load_bindings.simps [simp del]

text \<open>The part of \<open>zen_keybinds_load_config\<close> behind \<open>buf[fsize] = 0\<close>.\<close>

definition load_text :: "kb_env \<Rightarrow> string \<Rightarrow> world \<Rightarrow> (world \<times> int) option" where
  "load_text E buf w =
     (case memmem (quoted ''bindings'') buf of
        None \<Rightarrow> Some (w, -1)
      | Some t \<Rightarrow>
          (case dropWhile (\<lambda>c. c \<noteq> CHR ''['') (drop (length (quoted ''bindings'')) t) of
             [] \<Rightarrow> Some (w, -1)
           | _ # p \<Rightarrow> load_bindings E 0 p w))"

definition zen_keybinds_load_config ::
  "kb_env \<Rightarrow> cptr \<Rightarrow> cstring \<Rightarrow> world \<Rightarrow> (world \<times> int) option" where
  "zen_keybinds_load_config E c path w =
     (if c = CNULL then Some (w, -1)
      else case path of
        None \<Rightarrow> Some (w, -1)
      | Some pth \<Rightarrow>
          (case kb_fopen E pth of
             None \<Rightarrow> Some (w, 0)
           | Some f \<Rightarrow>
               if \<not> cf_fseek_ok f then Some (w, -1)
               else let fsize = cf_ftell f
                    in if fsize \<le> 0 \<or> fsize > 65536 then Some (w, -1)
                       else if \<not> kb_malloc_ok E then Some (w, -1)
                       else let buf = cf_fread f fsize
                            in if int (length buf) \<noteq> fsize then Some (w, -1)
                               else load_text E (c_str buf) w))"

section \<open>Initialisation\<close>

definition default_bindings :: "(u32 \<times> u32 \<times> ZenKeybindAction) list" where
  "default_bindings =
     [(WLR_MODIFIER_CTRL OR WLR_MODIFIER_ALT, XKB_KEY_t, ZEN_ACTION_LAUNCH_TERMINAL),
      (0, XKB_KEY_Super_L, ZEN_ACTION_TOGGLE_LAUNCHER),
      (WLR_MODIFIER_LOGO, XKB_KEY_l, ZEN_ACTION_LOCK_SCREEN),
      (WLR_MODIFIER_ALT, XKB_KEY_Tab, ZEN_ACTION_SWITCH_WINDOW),
      (WLR_MODIFIER_LOGO, XKB_KEY_q, ZEN_ACTION_CLOSE_WINDOW)]"

primrec register_defaults ::
  "kb_env \<Rightarrow> nat \<Rightarrow> (u32 \<times> u32 \<times> ZenKeybindAction) list \<Rightarrow> world \<Rightarrow> (world \<times> int) option" where
  "register_defaults E i [] w = Some (w, 0)"
| "register_defaults E i (d # ds) w =
     (case d of (mods, ks, act) \<Rightarrow> do {
        (w, rc) \<leftarrow> register_binding (kb_default_ok E i) True mods ks act None w;
        if rc \<noteq> 0 then Some (zen_keybinds_destroy CPTR w, -1)
        else register_defaults E (Suc i) ds w })"

definition config_path :: "string \<Rightarrow> string" where
  "config_path home = take 511 (home @ ''/.config/zenos/keybinds.json'')"

definition zen_keybinds_init :: "kb_env \<Rightarrow> cptr \<Rightarrow> world \<Rightarrow> (world \<times> int) option" where
  "zen_keybinds_init E c w =
     (if c = CNULL then Some (w, -1)
      else do {
        (w, ret) \<leftarrow> register_defaults E 0 default_bindings (w\<lparr>keybindings := Some wl_list_init\<rparr>);
        if ret \<noteq> 0 then Some (w, -1)
        else case getenv_HOME E of
               None \<Rightarrow> Some (w, 0)
             | Some home \<Rightarrow> do {
                 (w, _) \<leftarrow> zen_keybinds_load_config E CPTR (Some (config_path home)) w;
                 Some (w, 0) } })"

end
