(* ===== verification/Zen_Double.thy ===== *)
theory Zen_Double
  imports Zen_Prelude "HOL-Library.Log_Nat"
begin

text \<open>
  C's \<open>double\<close> arithmetic: a finite double is the rational it denotes, and each operation is
  the exact result rounded to 53 bits, to nearest with ties to even, as IEEE 754 prescribes.
  Infinities do not occur: every value the compositor computes is far below \<open>2 ^ 1024\<close>.
\<close>

definition pow2 :: "int \<Rightarrow> rat" where
  "pow2 k = (if 0 \<le> k then 2 ^ nat k else 1 / 2 ^ nat (- k))"

lemma pow2_powi: "pow2 k = 2 powi k"
  by (simp add: pow2_def power_int_def inverse_eq_divide power_one_over)

lemma pow2_pos [simp]: "0 < pow2 k"
  by (simp add: pow2_def)

lemma pow2_nonzero [simp]: "pow2 k \<noteq> 0"
  by (simp add: pow2_def)

lemma pow2_add: "pow2 (a + b) = pow2 a * pow2 b"
  by (simp add: pow2_powi power_int_add)

lemma pow2_less: "a < b \<Longrightarrow> pow2 a < pow2 b"
  by (simp add: pow2_powi power_int_strict_increasing)

lemma pow2_mono: "pow2 a \<le> pow2 b \<longleftrightarrow> a \<le> b"
  using pow2_less [of a b] pow2_less [of b a] by (cases a b rule: linorder_cases) auto

lemma pow2_neg_int: "e \<le> 0 \<Longrightarrow> \<exists>m. inverse (pow2 e) = of_int m"
  by (rule exI [of _ "2 ^ nat (- e)"]) (auto simp: pow2_def)

text \<open>The exponent of the leading bit of a positive rational.\<close>

definition log2_floor :: "rat \<Rightarrow> int" where
  "log2_floor x = (let (p, q) = quotient_of x; k = bitlen p - bitlen q
     in if pow2 k \<le> x then k else k - 1)"

definition round_even :: "rat \<Rightarrow> int" where
  "round_even x = (let f = \<lfloor>x\<rfloor>; d = x - of_int f
     in if d < 1/2 then f else if d > 1/2 then f + 1 else if even f then f else f + 1)"

definition fl :: "rat \<Rightarrow> rat" where
  "fl x = (if x = 0 then 0
     else let e = max (log2_floor \<bar>x\<bar> - 52) (-1074)
          in sgn x * (of_int (round_even (\<bar>x\<bar> / pow2 e)) * pow2 e))"

lemma round_even_int [simp]: "round_even (of_int n) = n"
  by (simp add: round_even_def)

lemma bitlen_pow2_bounds:
  assumes "0 < n"
  shows "pow2 (bitlen n - 1) \<le> of_int n" "of_int n < pow2 (bitlen n)"
proof -
  have b: "1 \<le> bitlen n" using assms bitlen_eq_zero_iff [of n] bitlen_nonneg [of n] by linarith
  from bitlen_bounds [OF assms] have "2 ^ nat (bitlen n - 1) \<le> n" "n < 2 ^ nat (bitlen n)" by auto
  then have "(of_int (2 ^ nat (bitlen n - 1)) :: rat) \<le> of_int n" "(of_int n :: rat) < of_int (2 ^ nat (bitlen n))"
    by (simp_all only: of_int_le_iff of_int_less_iff)
  with b show "pow2 (bitlen n - 1) \<le> of_int n" "of_int n < pow2 (bitlen n)"
    by (simp_all add: pow2_def)
qed

lemma log2_floor_le:
  assumes "0 < x"
  shows "pow2 (log2_floor x) \<le> x"
proof -
  obtain p q where pq: "quotient_of x = (p, q)" by (cases "quotient_of x")
  have q: "0 < q" using quotient_of_denom_pos [OF pq] .
  have x: "x = of_int p / of_int q" using quotient_of_div [OF pq] .
  with assms q have p: "0 < p" by (simp add: zero_less_divide_iff)
  let ?k = "bitlen p - bitlen q"
  have "pow2 (?k - 1) * of_int q \<le> pow2 (?k - 1) * pow2 (bitlen q)"
    using bitlen_pow2_bounds(2) [OF q] by (intro mult_left_mono) (auto simp: less_imp_le)
  also have "\<dots> = pow2 (bitlen p - 1)" by (simp flip: pow2_add)
  also have "\<dots> \<le> of_int p" using bitlen_pow2_bounds(1) [OF p] .
  finally have "pow2 (?k - 1) \<le> x" using q by (simp add: x field_simps)
  then show ?thesis by (simp add: log2_floor_def pq Let_def)
qed

lemma log2_floor_upper:
  assumes "0 < x"
  shows "x < pow2 (log2_floor x + 1)"
proof -
  obtain p q where pq: "quotient_of x = (p, q)" by (cases "quotient_of x")
  have q: "0 < q" using quotient_of_denom_pos [OF pq] .
  have x: "x = of_int p / of_int q" using quotient_of_div [OF pq] .
  with assms q have p: "0 < p" by (simp add: zero_less_divide_iff)
  let ?k = "bitlen p - bitlen q"
  have "of_int p < pow2 (bitlen p)" using bitlen_pow2_bounds(2) [OF p] .
  also have "\<dots> = pow2 (?k + 1) * pow2 (bitlen q - 1)" by (simp flip: pow2_add)
  also have "\<dots> \<le> pow2 (?k + 1) * of_int q"
    using bitlen_pow2_bounds(1) [OF q] by (intro mult_left_mono) (simp_all add: less_imp_le)
  finally have "x < pow2 (?k + 1)" using q by (simp add: x field_simps)
  then show ?thesis by (auto simp: log2_floor_def pq Let_def not_le)
qed

lemma log2_floor_ge:
  assumes "0 < x" "pow2 k \<le> x"
  shows "k \<le> log2_floor x"
proof (rule ccontr)
  assume "\<not> k \<le> log2_floor x"
  then have "pow2 (log2_floor x + 1) \<le> pow2 k" by (simp add: pow2_mono)
  with log2_floor_upper [OF assms(1)] assms(2) show False by simp
qed

text \<open>Integers of up to 53 bits are doubles.\<close>

lemma fl_int:
  assumes "\<bar>n\<bar> < 2 ^ 53"
  shows "fl (of_int n) = of_int n"
proof (cases "n = 0")
  case False
  let ?x = "\<bar>of_int n\<bar> :: rat"
  let ?e = "max (log2_floor ?x - 52) (-1074)"
  have x: "0 < ?x" using False by simp
  have "pow2 (log2_floor ?x) \<le> ?x" using x by (rule log2_floor_le)
  also have "?x < 2 ^ 53"
  proof -
    have "(of_int \<bar>n\<bar> :: rat) < of_int (2 ^ 53)" using assms by (simp only: of_int_less_iff)
    then show ?thesis by simp
  qed
  also have "\<dots> = pow2 53" by (simp add: pow2_def)
  finally have "\<not> pow2 53 \<le> pow2 (log2_floor ?x)" by simp
  then have "?e \<le> 0" unfolding pow2_mono by simp
  from pow2_neg_int [OF this] obtain m where m: "inverse (pow2 ?e) = of_int m" by blast
  then have "?x / pow2 ?e = of_int (\<bar>n\<bar> * m)" by (simp add: divide_inverse)
  then have "of_int (round_even (?x / pow2 ?e)) * pow2 ?e = ?x / pow2 ?e * pow2 ?e" by (simp only: round_even_int)
  also have "\<dots> = ?x" by simp
  finally have "fl (of_int n) = sgn (of_int n) * ?x" using False by (simp only: fl_def Let_def) simp
  then show ?thesis by (simp add: mult_sgn_abs)
qed (simp add: fl_def)

text \<open>The error of rounding: half of the last place, at most one part in \<open>2 ^ 53\<close>.\<close>

lemma round_even_error: "\<bar>of_int (round_even x) - x\<bar> \<le> 1/2"
proof -
  define f where "f = \<lfloor>x\<rfloor>"
  have f: "of_int f \<le> x" "x < of_int f + 1" unfolding f_def by linarith+
  have "round_even x = f \<and> x - of_int f \<le> 1/2 \<or> round_even x = f + 1 \<and> 1/2 \<le> x - of_int f"
    unfolding round_even_def Let_def f_def [symmetric] by auto
  with f show ?thesis by (elim disjE) (simp_all add: abs_le_iff)
qed

lemma fl_error:
  assumes "pow2 (-1022) \<le> \<bar>x\<bar>"
  shows "\<bar>fl x - x\<bar> \<le> \<bar>x\<bar> * pow2 (-53)"
proof -
  have x0: "x \<noteq> 0"
  proof
    assume "x = 0"
    with assms have "\<not> 0 < pow2 (-1022)" by (simp only: abs_zero not_less)
    then show False using pow2_pos by blast
  qed
  then have pos: "0 < \<bar>x\<bar>" by simp
  let ?l = "log2_floor \<bar>x\<bar>"
  define e where "e = max (?l - 52) (-1074)"
  define n where "n = round_even (\<bar>x\<bar> / pow2 e)"
  have e: "e = ?l - 52"
  proof -
    from log2_floor_ge [OF pos assms] show ?thesis by (simp add: e_def)
  qed
  have "fl x = sgn x * (of_int n * pow2 e)" using x0 unfolding fl_def Let_def e_def n_def by simp
  moreover have "x = sgn x * \<bar>x\<bar>" by (simp add: sgn_mult_abs)
  ultimately have "fl x - x = sgn x * (of_int n * pow2 e - \<bar>x\<bar>)" by (metis right_diff_distrib)
  then have "\<bar>fl x - x\<bar> = \<bar>of_int n * pow2 e - \<bar>x\<bar>\<bar>" using x0 by (simp add: abs_mult abs_sgn_eq)
  also have "\<dots> = \<bar>of_int n - \<bar>x\<bar> / pow2 e\<bar> * pow2 e"
  proof -
    have "of_int n * pow2 e - \<bar>x\<bar> = (of_int n - \<bar>x\<bar> / pow2 e) * pow2 e" by (simp add: left_diff_distrib)
    then show ?thesis by (simp only: abs_mult) (simp add: less_imp_le)
  qed
  also have "\<dots> \<le> 1/2 * pow2 e"
    using round_even_error [of "\<bar>x\<bar> / pow2 e"] by (intro mult_right_mono) (simp_all add: n_def less_imp_le)
  also have "\<dots> = pow2 ?l * pow2 (-53)"
  proof -
    have "pow2 e = pow2 ?l * pow2 (-52)" unfolding e by (simp flip: pow2_add)
    moreover have "1/2 * pow2 (-52) = pow2 (-53)" by (simp add: pow2_def)
    ultimately show ?thesis by simp
  qed
  also have "\<dots> \<le> \<bar>x\<bar> * pow2 (-53)"
    using log2_floor_le [OF pos] by (intro mult_right_mono) (simp_all add: less_imp_le)
  finally show ?thesis .
qed

section \<open>Conversion to int\<close>

text \<open>
  \<open>(int)d\<close> discards the fraction; a value outside the range of \<open>int\<close> is undefined behaviour,
  as is an overflow of a signed addition.
\<close>

definition INT_MAX :: int where "INT_MAX = 2147483647"
definition INT_MIN :: int where "INT_MIN = -2147483648"

definition in_int :: "int \<Rightarrow> bool" where
  "in_int i \<longleftrightarrow> INT_MIN \<le> i \<and> i \<le> INT_MAX"

definition c_trunc :: "rat \<Rightarrow> int" where
  "c_trunc x = (if 0 \<le> x then \<lfloor>x\<rfloor> else \<lceil>x\<rceil>)"

definition c_int_of_double :: "rat \<Rightarrow> int option" where
  "c_int_of_double x = (if in_int (c_trunc x) then Some (c_trunc x) else None)"

definition c_add :: "int \<Rightarrow> int \<Rightarrow> int option" where
  "c_add a b = (if in_int (a + b) then Some (a + b) else None)"

lemma c_trunc_of_int [simp]: "c_trunc (of_int n) = n"
  by (simp add: c_trunc_def)

lemma c_trunc_near: "\<bar>of_int (c_trunc x) - x\<bar> < 1"
  unfolding c_trunc_def by (auto simp: abs_if) linarith+

end
