(* ===== verification/Zen_Tracked.thy ===== *)
theory Zen_Tracked
  imports Zen_State
begin

text \<open>
  Keyboards, layer surfaces and toplevels follow one discipline: an object is allocated,
  its listeners are linked into the signals of a library object, and it is put on a list of
  the compositor; when the library object goes away the listeners are unlinked, the object
  leaves the list and is freed. The interface states what an instance needs, and the lemmas
  show what the discipline guarantees for every instance.
\<close>

locale tracked_objects =
  fixes own :: "addr \<Rightarrow> owner"
    and fields :: "lfield list"
    and heap :: "world \<Rightarrow> addr \<rightharpoonup> 'o"
    and list_of :: "world \<Rightarrow> addr list option"
  assumes own_inj: "own a = own b \<Longrightarrow> a = b"
    and fields_distinct: "distinct fields"
begin

text \<open>The list holds the live objects, and exactly their listeners are linked.\<close>

definition tracked :: "world \<Rightarrow> bool" where
  "tracked w \<longleftrightarrow> (\<exists>l. list_of w = Some l \<and> distinct l \<and> set l = dom (heap w)) \<and> distinct (lregs w) \<and>
     (\<forall>a f. (own a, f) \<in> set (lregs w) \<longleftrightarrow> a \<in> dom (heap w) \<and> f \<in> set fields)"

lemma tracked_list:
  "tracked w \<Longrightarrow> list_of w = Some l \<Longrightarrow> distinct l \<and> set l = dom (heap w)"
  unfolding tracked_def by auto

lemma tracked_lregs:
  "tracked w \<Longrightarrow> distinct (lregs w)"
  "tracked w \<Longrightarrow> (own a, f) \<in> set (lregs w) \<longleftrightarrow> heap w a \<noteq> None \<and> f \<in> set fields"
  unfolding tracked_def by blast+

lemma tracked_cong:
  assumes "tracked w" "heap w' = heap w" "list_of w' = list_of w" "lregs w' = lregs w"
  shows "tracked w'"
  using assms by (simp add: tracked_def)

text \<open>A listener of another kind may come and go.\<close>

lemma tracked_lregs_other:
  assumes "tracked w" "heap w' = heap w" "list_of w' = list_of w" "distinct (lregs w')"
    "\<And>a f. (own a, f) \<in> set (lregs w') \<longleftrightarrow> (own a, f) \<in> set (lregs w)"
  shows "tracked w'"
  using assms by (simp add: tracked_def)

text \<open>Linking the listeners of a fresh object and putting it on the list.\<close>

lemma tracked_listen:
  assumes "tracked w" "heap w a = None" "lregs v = lregs w"
  shows "listen_all (own a) fields v = Some (v\<lparr>lregs := lregs w @ map (Pair (own a)) fields\<rparr>)"
proof -
  have "Pair (own a) ` set fields \<inter> set (lregs v) = {}"
    using tracked_lregs(2) [OF assms(1), of a] assms(2,3) by auto
  from listen_all_Some [OF fields_distinct this] show ?thesis by (simp add: assms(3))
qed

lemma tracked_add:
  assumes "tracked w" "list_of w = Some l" "heap w a = None"
    and w': "heap w' = (heap w)(a \<mapsto> obj)" "list_of w' = Some l'" "distinct l'" "set l' = insert a (set l)"
      "lregs w' = lregs w @ map (Pair (own a)) fields"
  shows "tracked w'"
proof -
  note l = tracked_list [OF assms(1,2)]
  note lr = tracked_lregs [OF assms(1)]
  have new: "(own a, f) \<notin> set (lregs w)" for f using lr(2) assms(3) by blast
  have "distinct (lregs w')"
    using lr(1) new fields_distinct by (auto simp: w' distinct_map inj_on_def)
  moreover have "(own b, f) \<in> set (lregs w') \<longleftrightarrow> b \<in> dom (heap w') \<and> f \<in> set fields" for b f
    using lr(2) [of b f] new own_inj [of a b] assms(3) by (auto simp: w')
  moreover have "set l' = dom (heap w')" using l by (simp add: w')
  ultimately show ?thesis using w'(2,3) unfolding tracked_def by blast
qed

text \<open>Unlinking the listeners of a live object and taking it off the list.\<close>

lemma tracked_unlisten:
  assumes "tracked w" "heap w a \<noteq> None"
  shows "unlisten_all (own a) fields w =
    Some (w\<lparr>lregs := fold (\<lambda>f. remove1 (own a, f)) fields (lregs w)\<rparr>)"
  by (rule unlisten_all_Some [OF fields_distinct])
     (use tracked_lregs(2) [OF assms(1), of a] assms(2) in auto)

lemma tracked_drop:
  assumes "tracked w" "list_of w = Some l"
    and w': "heap w' = (heap w)(a := None)" "list_of w' = Some (filter (\<lambda>b. b \<noteq> a) l)"
      "lregs w' = fold (\<lambda>f. remove1 (own a, f)) fields (lregs w)"
  shows "tracked w'"
proof -
  note l = tracked_list [OF assms(1,2)]
  note lr = tracked_lregs [OF assms(1)]
  have "set (lregs w') = set (lregs w) - Pair (own a) ` set fields" "distinct (lregs w')"
    using set_fold_remove1 [OF lr(1)] distinct_fold_remove1 [OF lr(1)] by (simp_all add: w')
  then have "(own b, f) \<in> set (lregs w') \<longleftrightarrow> b \<in> dom (heap w') \<and> f \<in> set fields" for b f
    using lr(2) [of b f] own_inj [of a b] by (auto simp: w')
  with l \<open>distinct (lregs w')\<close> w'(1,2) show ?thesis unfolding tracked_def by auto
qed

text \<open>After the last object is dropped no listener of the kind is linked.\<close>

lemma tracked_empty: "tracked w \<Longrightarrow> heap w = Map.empty \<Longrightarrow> (own a, f) \<notin> set (lregs w)"
  using tracked_lregs(2) by simp

text \<open>The loop of a destructor: the listeners, the link and the object of each go away.\<close>

lemma tracked_drop_all:
  assumes drop: "\<And>a w l. tracked w \<Longrightarrow> list_of w = Some l \<Longrightarrow> a \<in> set l \<Longrightarrow>
      \<exists>w'. drop_one a w = Some w' \<and> tracked w' \<and> list_of w' = Some (filter (\<lambda>b. b \<noteq> a) l) \<and> P w w'"
    and refl: "\<And>w. P w w" and trans: "\<And>u v w. P u v \<Longrightarrow> P v w \<Longrightarrow> P u w"
    and nil: "\<And>w. drop_list [] w = Some w"
    and cons: "\<And>a as w. drop_list (a # as) w = (case drop_one a w of None \<Rightarrow> None | Some w' \<Rightarrow> drop_list as w')"
  shows "tracked w \<Longrightarrow> list_of w = Some l \<Longrightarrow>
    \<exists>w'. drop_list l w = Some w' \<and> tracked w' \<and> list_of w' = Some [] \<and> heap w' = Map.empty \<and> P w w'"
proof (induction l arbitrary: w)
  case Nil
  from tracked_list [OF Nil] have "heap w = Map.empty" by (metis dom_eq_empty_conv list.set(1))
  with Nil refl show ?case by (simp add: nil)
next
  case (Cons a l)
  from drop [OF Cons.prems, of a] obtain w1 where
    w1: "drop_one a w = Some w1" "tracked w1" "list_of w1 = Some (filter (\<lambda>b. b \<noteq> a) (a # l))" "P w w1" by auto
  have "filter (\<lambda>b. b \<noteq> a) (a # l) = l" using tracked_list [OF Cons.prems] by (auto simp: filter_id_conv)
  with w1 Cons.IH [of w1] trans show ?case by (fastforce simp: cons)
qed

end

end
