(* ===== verification/Zen_Input.thy ===== *)
theory Zen_Input
  imports Zen_Xdg_Inv Zen_Keybinds Zen_Double Zen_Tracked
begin

text \<open>
  The input module of \<open>src/compositor/src/input.c\<close>: keyboards and their three listeners, the
  routing of keys to the lock, the keybindings or the focused client, pointer motion with
  the interactive move, buttons, cursor images, initialisation and destruction.
\<close>

section \<open>What input asks of the outside\<close>

record in_env =
  i_xdg :: xdg_env
  i_kb :: kb_env
  i_lock :: "nat \<Rightarrow> lock_env"         \<comment> \<open>the lock's outside, for each symbol of a key\<close>
  i_syms :: "u32 \<Rightarrow> u32 list"          \<comment> \<open>\<open>xkb_state_key_get_syms\<close>\<close>
  i_mods :: u32                        \<comment> \<open>\<open>wlr_keyboard_get_modifiers\<close>\<close>
  i_pos :: "rat \<times> rat"                 \<comment> \<open>the cursor, after the event moved it\<close>
  i_node_path :: "ptr list"            \<comment> \<open>the \<open>data\<close> of the node under the cursor and its parents\<close>
  i_surface :: ptr                     \<comment> \<open>the surface of that node, if it shows one\<close>
  i_local :: "rat \<times> rat"               \<comment> \<open>surface-local coordinates\<close>
  i_focused_client :: ptr              \<comment> \<open>\<open>seat->pointer_state.focused_client\<close>\<close>
  i_calloc :: ptr
  i_wlr_keyboard :: addr               \<comment> \<open>\<open>wlr_keyboard_from_input_device\<close>\<close>
  i_keymap_ok :: bool
  i_seat_create :: ptr
  i_cursor_create :: ptr
  i_xcursor_create :: ptr

definition ZEN_KB_REPEAT_RATE :: int where "ZEN_KB_REPEAT_RATE = 25"
definition ZEN_KB_REPEAT_DELAY :: int where "ZEN_KB_REPEAT_DELAY = 600"
definition WL_SEAT_CAPABILITY_POINTER :: u32 where "WL_SEAT_CAPABILITY_POINTER = 1"
definition WL_SEAT_CAPABILITY_KEYBOARD :: u32 where "WL_SEAT_CAPABILITY_KEYBOARD = 2"

section \<open>The node under the cursor\<close>

definition toplevel_at_scene_node :: "ptr list \<Rightarrow> ptr" where
  "toplevel_at_scene_node path = (case dropWhile (\<lambda>d. d = None) path of [] \<Rightarrow> None | d # _ \<Rightarrow> d)"

section \<open>Keyboards\<close>

primrec lock_keys ::
  "(nat \<Rightarrow> lock_env) \<Rightarrow> nat \<Rightarrow> u32 \<Rightarrow> u32 list \<Rightarrow> bool \<Rightarrow> world \<Rightarrow> world option" where
  "lock_keys L i keycode [] pressed w = Some w"
| "lock_keys L i keycode (s # ss) pressed w = do {
     (w, _) \<leftarrow> zen_lock_handle_key (L i) keycode s pressed w;
     lock_keys L (Suc i) keycode ss pressed w }"

primrec try_bindings :: "kb_env \<Rightarrow> u32 \<Rightarrow> u32 list \<Rightarrow> world \<Rightarrow> (world \<times> bool) option" where
  "try_bindings E mods [] w = Some (w, False)"
| "try_bindings E mods (s # ss) w = do {
     (w, hit) \<leftarrow> zen_keybinds_handle_key E CPTR mods s w;
     if hit then Some (w, True) else try_bindings E mods ss w }"

definition handle_keyboard_key :: "in_env \<Rightarrow> addr \<Rightarrow> u32 \<Rightarrow> u32 \<Rightarrow> bool \<Rightarrow> world \<Rightarrow> world option" where
  "handle_keyboard_key E kb time_msec keycode pressed w = do {
     _ \<leftarrow> kbds w kb;
     let keycode_xkb = keycode + 8;
     let syms = i_syms E keycode_xkb;
     if locked w then lock_keys (i_lock E) 0 keycode_xkb syms pressed w
     else do {
       (w, consumed) \<leftarrow> (if pressed then try_bindings (i_kb E) (i_mods E) syms w
                          else Some (w, False));
       if consumed then Some w
       else do {
         _ \<leftarrow> seat w;
         Some (emits [Keyboard (Keyboard_key time_msec keycode pressed)] w) } } }"

definition handle_keyboard_modifiers :: "addr \<Rightarrow> world \<Rightarrow> world option" where
  "handle_keyboard_modifiers kb w = do {
     k \<leftarrow> kbds w kb;
     _ \<leftarrow> seat w;
     Some (emits [Seat (Set_keyboard (wlr_keyboard k)), Keyboard (Keyboard_modifiers (wlr_keyboard k))] w) }"

definition keyboard_listeners :: "lfield list" where
  "keyboard_listeners = [L_key, L_modifiers, L_destroy]"

definition handle_keyboard_destroy :: "addr \<Rightarrow> world \<Rightarrow> world option" where
  "handle_keyboard_destroy kb w = do {
     _ \<leftarrow> kbds w kb;
     w \<leftarrow> unlisten_all (Of_Keyboard kb) keyboard_listeners w;
     l \<leftarrow> keyboards w;
     if kb \<in> set l
     then Some (w\<lparr>keyboards := Some (wl_list_remove kb l), kbds := (kbds w)(kb := None)\<rparr>)
     else None }"

section \<open>Cursor motion\<close>

definition move_grabbed :: "in_env \<Rightarrow> addr \<Rightarrow> world \<Rightarrow> world option" where
  "move_grabbed E g w = do {
     tl \<leftarrow> tops w g;
     case scene_tree tl of
       None \<Rightarrow> Some w
     | Some n \<Rightarrow> do {
         dx \<leftarrow> c_int_of_double (fl (fst (i_pos E) - grab_x w));
         dy \<leftarrow> c_int_of_double (fl (snd (i_pos E) - grab_y w));
         new_x \<leftarrow> c_add (grab_node_x w) dx;
         new_y \<leftarrow> c_add (grab_node_y w) dy;
         let w = emits [Node (Set_position n new_x new_y)] w;
         case xdg_toplevel tl of
           None \<Rightarrow> Some w
         | Some _ \<Rightarrow> do { _ \<leftarrow> output_layout w; Some w } } }"

definition zen_input_process_cursor_motion :: "in_env \<Rightarrow> cptr \<Rightarrow> u32 \<Rightarrow> world \<Rightarrow> world option" where
  "zen_input_process_cursor_motion E c time_msec w =
     (if c = CNULL \<or> cursor w = None \<or> seat w = None then Some w
      else case grabbed_toplevel w of
        Some g \<Rightarrow> move_grabbed E g w
      | None \<Rightarrow> do {
          _ \<leftarrow> output_layout w;
          _ \<leftarrow> scene w;
          Some (case i_surface E of
                  None \<Rightarrow> emits [Cursor (Cursor_set_xcursor ''default''), Pointer Pointer_clear_focus] w
                | Some s \<Rightarrow> emits [Pointer (Pointer_enter s (fst (i_local E)) (snd (i_local E))),
                    Pointer (Pointer_motion time_msec (fst (i_local E)) (snd (i_local E)))] w) })"

definition handle_cursor_motion :: "in_env \<Rightarrow> u32 \<Rightarrow> rat \<Rightarrow> rat \<Rightarrow> world \<Rightarrow> world option" where
  "handle_cursor_motion E time_msec dx dy w = do {
     _ \<leftarrow> cursor w;
     zen_input_process_cursor_motion E CPTR time_msec (emits [Cursor (Cursor_move dx dy)] w) }"

definition handle_cursor_motion_absolute :: "in_env \<Rightarrow> u32 \<Rightarrow> rat \<Rightarrow> rat \<Rightarrow> world \<Rightarrow> world option" where
  "handle_cursor_motion_absolute E time_msec x y w = do {
     _ \<leftarrow> cursor w;
     zen_input_process_cursor_motion E CPTR time_msec (emits [Cursor (Cursor_warp_absolute x y)] w) }"

section \<open>Buttons and cursor images\<close>

definition release_grab :: "world \<Rightarrow> world" where
  "release_grab w = w\<lparr>grabbed_toplevel := None, grab_x := 0, grab_y := 0, grab_node_x := 0, grab_node_y := 0\<rparr>"

definition handle_cursor_button :: "in_env \<Rightarrow> u32 \<Rightarrow> u32 \<Rightarrow> bool \<Rightarrow> world \<Rightarrow> world option" where
  "handle_cursor_button E time_msec button pressed w = do {
     let w = (if \<not> pressed \<and> grabbed_toplevel w \<noteq> None then release_grab w else w);
     w \<leftarrow> (if pressed then do {
             _ \<leftarrow> scene w;
             _ \<leftarrow> cursor w;
             case toplevel_at_scene_node (i_node_path E) of
               None \<Rightarrow> Some w
             | Some a \<Rightarrow> zen_xdg_focus_toplevel (i_xdg E) CPTR (Some a) w }
           else Some w);
     _ \<leftarrow> seat w;
     Some (emits [Pointer (Pointer_button time_msec button pressed)] w) }"

definition handle_request_cursor ::
  "in_env \<Rightarrow> ptr \<Rightarrow> ptr \<Rightarrow> int \<Rightarrow> int \<Rightarrow> world \<Rightarrow> world option" where
  "handle_request_cursor E seat_client surf hx hy w = do {
     _ \<leftarrow> seat w;
     if i_focused_client E = seat_client then do {
       _ \<leftarrow> cursor w;
       Some (emits [Cursor (Cursor_set_surface surf hx hy)] w) }
     else Some w }"

section \<open>Devices\<close>

datatype device_type = WLR_INPUT_DEVICE_KEYBOARD | WLR_INPUT_DEVICE_POINTER | WLR_INPUT_DEVICE_TOUCH
  | Device_other

definition update_capabilities :: "world \<Rightarrow> world option" where
  "update_capabilities w = do {
     l \<leftarrow> keyboards w;
     _ \<leftarrow> seat w;
     Some (emits [Seat (Set_capabilities (if l = [] then WL_SEAT_CAPABILITY_POINTER
       else WL_SEAT_CAPABILITY_POINTER OR WL_SEAT_CAPABILITY_KEYBOARD))] w) }"

definition attach_keyboard :: "in_env \<Rightarrow> addr \<Rightarrow> world \<Rightarrow> world option" where
  "attach_keyboard E a w = do {
     let k = i_wlr_keyboard E;
     let w = w\<lparr>kbds := (kbds w)(a \<mapsto> \<lparr>wlr_keyboard = k\<rparr>)\<rparr>;
     let w = emits ((if i_keymap_ok E then [Device (Set_keymap k)] else []) @
               [Device (Set_repeat_info k ZEN_KB_REPEAT_RATE ZEN_KB_REPEAT_DELAY)]) w;
     w \<leftarrow> listen_all (Of_Keyboard a) keyboard_listeners w;
     _ \<leftarrow> seat w;
     let w = emits [Seat (Set_keyboard k)] w;
     l \<leftarrow> keyboards w;
     Some (w\<lparr>keyboards := Some (wl_list_insert a l)\<rparr>) }"

definition handle_new_input :: "in_env \<Rightarrow> device_type \<Rightarrow> addr \<Rightarrow> world \<Rightarrow> world option" where
  "handle_new_input E ty device w = (case ty of
      WLR_INPUT_DEVICE_KEYBOARD \<Rightarrow>
        (case i_calloc E of
           None \<Rightarrow> Some w
         | Some a \<Rightarrow> do { w \<leftarrow> attach_keyboard E a w; update_capabilities w })
    | WLR_INPUT_DEVICE_POINTER \<Rightarrow> do {
        _ \<leftarrow> cursor w;
        update_capabilities (emits [Cursor (Cursor_attach_input_device device)] w) }
    | WLR_INPUT_DEVICE_TOUCH \<Rightarrow> do {
        _ \<leftarrow> cursor w;
        update_capabilities (emits [Cursor (Cursor_attach_input_device device)] w) }
    | Device_other \<Rightarrow> update_capabilities w)"

section \<open>Initialisation and destruction\<close>

primrec free_keyboards :: "addr list \<Rightarrow> world \<Rightarrow> world option" where
  "free_keyboards [] w = Some w"
| "free_keyboards (kb # kbs) w = (case handle_keyboard_destroy kb w of
      None \<Rightarrow> None | Some w' \<Rightarrow> free_keyboards kbs w')"

definition input_listeners :: "lfield list" where
  "input_listeners = [L_cursor_motion, L_cursor_motion_absolute, L_cursor_button, L_request_cursor,
     L_new_input]"

text \<open>
  A listener's \<open>notify\<close> is set when it is linked and cleared when it is unlinked, so testing
  it is testing whether it is linked.
\<close>

primrec unlisten_linked :: "owner \<Rightarrow> lfield list \<Rightarrow> world \<Rightarrow> world option" where
  "unlisten_linked ow [] w = Some w"
| "unlisten_linked ow (f # fs) w = do {
     w \<leftarrow> (if (ow, f) \<in> set (lregs w) then unlisten (ow, f) w else Some w);
     unlisten_linked ow fs w }"

definition zen_input_destroy :: "cptr \<Rightarrow> world \<Rightarrow> world option" where
  "zen_input_destroy c w =
     (if c = CNULL then Some w
      else do {
        w \<leftarrow> (case keyboards w of None \<Rightarrow> Some w | Some l \<Rightarrow> free_keyboards l w);
        w \<leftarrow> unlisten_linked Of_Compositor input_listeners w;
        let w = (case xcursor_mgr w of
                   None \<Rightarrow> w
                 | Some m \<Rightarrow> (emits [Release K_xcursor_mgr m] w)\<lparr>xcursor_mgr := None\<rparr>);
        let w = (case cursor w of
                   None \<Rightarrow> w
                 | Some cu \<Rightarrow> (emits [Release K_cursor cu] w)\<lparr>cursor := None\<rparr>);
        Some (w\<lparr>seat := None\<rparr>) })"

definition input_init_failed :: "cptr \<Rightarrow> world \<Rightarrow> (world \<times> int) option" where
  "input_init_failed c w = do { w \<leftarrow> zen_input_destroy c w; Some (w, -1) }"

definition zen_input_init :: "in_env \<Rightarrow> cptr \<Rightarrow> world \<Rightarrow> (world \<times> int) option" where
  "zen_input_init E c w =
     (if c = CNULL \<or> wl_display w = None then input_init_failed c w
      else do {
        let w = w\<lparr>keyboards := Some wl_list_init, seat := i_seat_create E\<rparr>;
        if seat w = None then input_init_failed c w
        else do {
          let w = w\<lparr>cursor := i_cursor_create E\<rparr>;
          case cursor w of
            None \<Rightarrow> input_init_failed c w
          | Some cu \<Rightarrow> do {
              let w = emits [Acquire K_cursor cu, Cursor (Cursor_attach_output_layout (output_layout w))] w;
              let w = w\<lparr>xcursor_mgr := i_xcursor_create E\<rparr>;
              case xcursor_mgr w of
                None \<Rightarrow> input_init_failed c w
              | Some m \<Rightarrow> do {
                  let w = emits [Acquire K_xcursor_mgr m] w;
                  w \<leftarrow> listen_all Of_Compositor [L_cursor_motion, L_cursor_motion_absolute,
                        L_cursor_button, L_request_cursor] w;
                  _ \<leftarrow> backend w;
                  w \<leftarrow> listen (Of_Compositor, L_new_input) w;
                  Some (w, 0) } } } })"

end
