(* ===== verification/Zen_Keybinds_Config.thy ===== *)
theory Zen_Keybinds_Config
  imports Zen_Keybinds
begin

text \<open>
  What the registry and the configuration parser of the keybindings guarantee: loading only
  appends well-formed bindings, printed configurations are read back exactly, which texts
  make the modifier parser read beyond its buffer, and what a custom binding can change.
\<close>

section \<open>Modifiers\<close>

text \<open>The bits a configuration can set.\<close>

definition config_modifiers :: u32 where
  "config_modifiers = WLR_MODIFIER_SHIFT OR WLR_MODIFIER_CTRL OR WLR_MODIFIER_ALT OR WLR_MODIFIER_LOGO"

definition within_mask :: "u32 \<Rightarrow> bool" where
  "within_mask m \<longleftrightarrow> m AND NOT config_modifiers = 0"

lemma config_modifiers_val: "config_modifiers = 77"
  by (simp add: config_modifiers_def wlr_modifiers)

lemma within_mask_0 [simp]: "within_mask 0"
  by (simp add: within_mask_def)

lemma within_mask_or: "within_mask a \<Longrightarrow> within_mask b \<Longrightarrow> within_mask (a OR b)"
  by (simp add: within_mask_def bit.conj_disj_distrib2)

lemma within_mask_token: "within_mask (parse_modifier_token t)"
proof -
  have "within_mask 4" "within_mask 8" "within_mask 64" "within_mask 1"
    by (simp_all add: within_mask_def config_modifiers_val)
  then show ?thesis by (simp add: parse_modifier_token_def wlr_modifiers Let_def)
qed

lemma within_mask_loop:
  "parse_modifiers_loop m p = Some r \<Longrightarrow> within_mask m \<Longrightarrow> within_mask r"
proof (induction m p rule: parse_modifiers_loop.induct)
  case (1 m p)
  show ?case
  proof (cases "p = [] \<or> hd p = CHR '']''")
    case True
    with "1.prems" show ?thesis by (auto simp: parse_modifiers_loop.simps [of m p])
  next
    case False
    with "1.prems"(1) obtain c cs where ss: "skip_separators p = c # cs"
      by (cases "skip_separators p") (auto simp: parse_modifiers_loop.simps [of m p])
    consider "c = CHR '']''" | "c \<noteq> CHR '']''" "c \<noteq> QUOTE" | "c = QUOTE" by blast
    then show ?thesis
    proof cases
      case 1
      with False ss "1.prems" show ?thesis by (simp add: parse_modifiers_loop.simps [of m p])
    next
      case 2
      with False ss "1.prems"(1) have "parse_modifiers_loop m cs = Some r"
        by (simp add: parse_modifiers_loop.simps [of m p])
      with "1.IH"(1) [OF False ss] 2 "1.prems"(2) show ?thesis by blast
    next
      case 3
      with False ss "1.prems"(1) have "parse_modifiers_loop
          (m OR parse_modifier_token (takeWhile (\<lambda>c. c \<noteq> QUOTE) cs))
          (drop 1 (dropWhile (\<lambda>c. c \<noteq> QUOTE) cs)) = Some r"
        by (simp add: parse_modifiers_loop.simps [of m p])
      with "1.IH"(2) [OF False ss] 3 within_mask_or [OF "1.prems"(2) within_mask_token]
      show ?thesis by simp
    qed
  qed
qed

lemma within_mask_array: "parse_modifiers_array p = Some r \<Longrightarrow> within_mask r"
  by (auto simp: parse_modifiers_array_def split: list.splits intro: within_mask_loop)

lemma within_mask_field: "extract_modifiers_field obj rest = Some r \<Longrightarrow> within_mask r"
proof (induction obj rest rule: extract_modifiers_field.induct)
  case (1 obj rest)
  from "1.prems" show ?case
    by (subst (asm) extract_modifiers_field.simps)
       (auto simp: Let_def split: if_splits option.splits intro: "1.IH" within_mask_array)
qed

section \<open>Loading appends\<close>

definition binding_ok :: "ZenKeybinding \<Rightarrow> bool" where
  "binding_ok b \<longleftrightarrow> within_mask (modifiers b) \<and> keysym b \<noteq> XKB_KEY_NoSymbol \<and>
     action b \<noteq> ZEN_ACTION_COUNT"

text \<open>
  A load that returns leaves the world as it was but for new bindings behind the old ones.
\<close>

definition appends :: "world \<Rightarrow> ZenKeybinding list \<Rightarrow> world \<Rightarrow> ZenKeybinding list \<Rightarrow> bool" where
  "appends w bs w' new \<longleftrightarrow> w' = w\<lparr>keybindings := Some (bs @ new)\<rparr> \<and> list_all binding_ok new"

lemma keybindings_self: "keybindings w = Some bs \<Longrightarrow> w\<lparr>keybindings := Some bs\<rparr> = w"
  by simp

lemma appends_refl: "keybindings w = Some bs \<Longrightarrow> appends w bs w []"
  by (simp add: appends_def)

lemma appends_trans:
  "appends w bs v new1 \<Longrightarrow> appends v (bs @ new1) u new2 \<Longrightarrow> appends w bs u (new1 @ new2)"
  by (auto simp: appends_def)

lemma register_appends:
  assumes "register_binding c s m k a cmd w = Some (w', rc)" "keybindings w = Some bs"
    "within_mask m" "k \<noteq> XKB_KEY_NoSymbol" "a \<noteq> ZEN_ACTION_COUNT"
  shows "\<exists>new. appends w bs w' new \<and> keybindings w' = Some (bs @ new)"
proof (cases "c \<and> (cmd = None \<or> s)")
  case True
  with assms show ?thesis
    by (intro exI [of _ "[\<lparr>modifiers = m, keysym = k, action = a, custom_cmd = cmd\<rparr>]"])
       (auto simp: register_binding_def appends_def wl_list_append_def binding_ok_def)
next
  case False
  with assms show ?thesis
    by (intro exI [of _ "[]"]) (auto simp: register_binding_def appends_def split: if_splits)
qed

lemma load_binding_appends:
  assumes "load_binding E n obj rest w = Some (w', r)" "keybindings w = Some bs"
  shows "\<exists>new. appends w bs w' new \<and> keybindings w' = Some (bs @ new)"
proof (cases "w' = w")
  case True
  with assms(2) show ?thesis by (intro exI [of _ "[]"]) (simp add: appends_refl)
next
  case False
  with assms(1) obtain mods key act cmd where
    "extract_modifiers_field obj rest = Some mods"
    "keysym_from_name E key \<noteq> XKB_KEY_NoSymbol" "parse_action_string act \<noteq> ZEN_ACTION_COUNT"
    "register_binding (al_binding (kb_alloc E n)) (al_strdup (kb_alloc E n)) mods
      (keysym_from_name E key) (parse_action_string act) cmd w = Some (w', r)"
    unfolding load_binding_def Let_def
    by (cases "extract_string_field (al_key (kb_alloc E n)) obj ''key''";
        cases "extract_string_field (al_action (kb_alloc E n)) obj ''action''";
        cases "extract_modifiers_field obj rest")
       (auto split: if_splits)
  then show ?thesis using register_appends assms(2) within_mask_field by metis
qed

lemma load_bindings_appends:
  "load_bindings E n p w = Some (w', r) \<Longrightarrow> keybindings w = Some bs \<Longrightarrow>
   (r = 0 \<or> r = -1) \<and> (\<exists>new. appends w bs w' new)"
proof (induction E n p w arbitrary: bs rule: load_bindings.induct)
  case (1 E n p0 w)
  let ?p = "skip_separators p0"
  obtain obj rest where so: "split_object 0 ?p = (obj, rest)" by (cases "split_object 0 ?p")
  show ?case
  proof (cases "?p \<noteq> [] \<and> hd ?p = CHR ''{''")
    case True
    then obtain w1 rc where l: "load_binding E n obj rest w = Some (w1, rc)"
      using "1.prems"(1) so by (subst (asm) load_bindings.simps) (auto split: option.splits)
    from load_binding_appends [OF l "1.prems"(2)] obtain new where
      new: "appends w bs w1 new" "keybindings w1 = Some (bs @ new)" by blast
    show ?thesis
    proof (cases "rc = 0")
      case rc: True
      from "1.prems"(1) True so l rc have rec: "load_bindings E (Suc n) rest w1 = Some (w', r)"
        by (subst (asm) load_bindings.simps) simp
      from "1.IH" [OF refl _ _ so [symmetric] l refl _ rec new(2)] True rc new(1) show ?thesis
        by (auto intro: appends_trans)
    next
      case False
      with "1.prems"(1) True so l new show ?thesis
        by (subst (asm) load_bindings.simps) auto
    qed
  next
    case False
    with "1.prems" show ?thesis
      by (subst (asm) load_bindings.simps) (auto simp: Let_def split: if_splits intro: appends_refl)
  qed
qed

lemma load_text_appends:
  "load_text E buf w = Some (w', r) \<Longrightarrow> keybindings w = Some bs \<Longrightarrow>
   (r = 0 \<or> r = -1) \<and> (\<exists>new. appends w bs w' new)"
  by (auto simp: load_text_def split: option.splits list.splits dest: load_bindings_appends
      intro: appends_refl)

lemma load_config_appends:
  "zen_keybinds_load_config E c path w = Some (w', r) \<Longrightarrow> keybindings w = Some bs \<Longrightarrow>
   (r = 0 \<or> r = -1) \<and> (\<exists>new. appends w bs w' new)"
  by (auto simp: zen_keybinds_load_config_def Let_def split: option.splits if_splits
      dest: load_text_appends intro: appends_refl)

text \<open>
  Whatever the file contains, a load that returns changes nothing but the registry, and
  there only adds bindings behind those that were registered: each with a known action, a
  real keysym and no modifier bits but those of shift, ctrl, alt and super. This also holds
  when it gives up with -1.
\<close>

theorem load_config_only_appends:
  assumes "zen_keybinds_load_config E c path w = Some (w', r)" "keybindings w = Some bs"
  shows "\<exists>new. w' = w\<lparr>keybindings := Some (bs @ new)\<rparr> \<and> r \<in> {0, -1} \<and>
    (\<forall>b \<in> set new. modifiers b AND NOT 77 = 0 \<and> keysym b \<noteq> 0 \<and> action b \<noteq> ZEN_ACTION_COUNT)"
  using load_config_appends [OF assms]
  by (auto simp: appends_def list_all_iff binding_ok_def within_mask_def config_modifiers_val
      xkb_keys)

section \<open>Defaults and custom bindings\<close>

definition plain_binding :: "u32 \<times> u32 \<times> ZenKeybindAction \<Rightarrow> ZenKeybinding" where
  "plain_binding d = (case d of (m, k, a) \<Rightarrow>
     \<lparr>modifiers = m, keysym = k, action = a, custom_cmd = None\<rparr>)"

lemma register_defaults_appends:
  "register_defaults E i ds w = Some (w', 0) \<Longrightarrow> keybindings w = Some bs \<Longrightarrow>
   w' = w\<lparr>keybindings := Some (bs @ map plain_binding ds)\<rparr>"
proof (induction ds arbitrary: i w bs)
  case (Cons d ds)
  obtain m k a where d: "d = (m, k, a)" by (cases d)
  let ?w = "w\<lparr>keybindings := Some (bs @ [plain_binding d])\<rparr>"
  from Cons.prems have "register_defaults E (Suc i) ds ?w = Some (w', 0)"
    by (auto simp: d register_binding_def wl_list_append_def plain_binding_def split: if_splits)
  from Cons.IH [OF this, of "bs @ [plain_binding d]"] show ?case by simp
qed simp

lemma init_shape:
  assumes "zen_keybinds_init E CPTR w = Some (w', 0)"
  shows "\<exists>new. w' = w\<lparr>keybindings := Some (map plain_binding default_bindings @ new)\<rparr> \<and>
    list_all binding_ok new"
proof -
  let ?w0 = "w\<lparr>keybindings := Some wl_list_init\<rparr>"
  let ?bs = "map plain_binding default_bindings"
  let ?w1 = "w\<lparr>keybindings := Some ?bs\<rparr>"
  from assms obtain v r where v: "register_defaults E 0 default_bindings ?w0 = Some (v, r)"
    by (auto simp: zen_keybinds_init_def bind_eq_Some_conv)
  with assms have r: "r = 0" by (auto simp: zen_keybinds_init_def split: if_splits)
  have v1: "v = ?w1"
    using register_defaults_appends [OF v [unfolded r], of "[]"] by (simp add: wl_list_init_def)
  show ?thesis
  proof (cases "getenv_HOME E")
    case None
    with assms v r v1 show ?thesis
      by (intro exI [of _ "[]"]) (auto simp: zen_keybinds_init_def)
  next
    case (Some home)
    with assms v r v1 obtain rc where
      "zen_keybinds_load_config E CPTR (Some (config_path home)) ?w1 = Some (w', rc)"
      by (auto simp: zen_keybinds_init_def bind_eq_Some_conv)
    from load_config_appends [OF this, of ?bs] show ?thesis by (auto simp: appends_def)
  qed
qed

lemma find_default:
  assumes "(m, k, a) \<in> set default_bindings"
  shows "find (binding_matches m k) (map plain_binding default_bindings @ new) =
    Some (plain_binding (m, k, a))"
  using assms
  by (auto simp: default_bindings_def binding_matches_def plain_binding_def wlr_modifiers xkb_keys)

text \<open>
  C37. The five default bindings always win. Whatever \<open>keybinds.json\<close> contains, once the
  registry is initialised each of the five default combinations executes its default
  action: a custom binding for the same combination is registered behind the default and is
  never reached.
\<close>

theorem defaults_always_win:
  assumes "zen_keybinds_init E CPTR w = Some (w', 0)" "(m, k, a) \<in> set default_bindings"
    and "keybindings v = keybindings w'"
  shows "zen_keybinds_handle_key E' CPTR m k v =
    map_option (\<lambda>u. (u, True)) (execute_action E' a None v)"
proof -
  from init_shape [OF assms(1)] obtain new where
    "keybindings v = Some (map plain_binding default_bindings @ new)" using assms(3) by auto
  then show ?thesis using find_default [OF assms(2), of new]
    by (cases "execute_action E' a None v")
       (simp_all add: zen_keybinds_handle_key_def plain_binding_def)
qed

section \<open>Reading beyond the text\<close>

definition is_separator :: "char \<Rightarrow> bool" where
  "is_separator c \<longleftrightarrow> is_space c \<or> c = CHR '',''"

text \<open>A text that does not end in a separator, as one that ends in the closing brace.\<close>

definition ends_firmly :: "string \<Rightarrow> bool" where
  "ends_firmly s \<longleftrightarrow> s = [] \<or> \<not> is_separator (last s)"

lemma ends_firmly_suffix: "ends_firmly (a @ b) \<Longrightarrow> ends_firmly b"
  by (auto simp: ends_firmly_def)

lemma ends_firmly_dropWhile: "ends_firmly s \<Longrightarrow> ends_firmly (dropWhile P s)"
  using ends_firmly_suffix [of "takeWhile P s" "dropWhile P s"] by simp

lemma ends_firmly_drop: "ends_firmly s \<Longrightarrow> ends_firmly (drop n s)"
  using ends_firmly_suffix [of "take n s" "drop n s"] by simp

lemma ends_firmly_Cons: "ends_firmly (c # s) \<Longrightarrow> ends_firmly s"
  using ends_firmly_suffix [of "[c]" s] by simp

lemma skip_separators_alt: "skip_separators p = dropWhile is_separator p"
  by (simp add: skip_separators_def is_separator_def [abs_def])

lemma skip_separators_firm:
  assumes "ends_firmly p" "p \<noteq> []"
  shows "skip_separators p \<noteq> []"
proof
  assume "skip_separators p = []"
  then have "\<forall>c \<in> set p. is_separator c" by (simp add: skip_separators_alt)
  with assms show False by (simp add: ends_firmly_def)
qed

lemma parse_modifiers_loop_firm: "ends_firmly p \<Longrightarrow> parse_modifiers_loop m p \<noteq> None"
proof (induction m p rule: parse_modifiers_loop.induct)
  case (1 m p)
  show ?case
  proof (cases "p = [] \<or> hd p = CHR '']''")
    case False
    then obtain c cs where ss: "skip_separators p = c # cs"
      using skip_separators_firm [OF "1.prems"] by (cases "skip_separators p") auto
    then have f: "ends_firmly cs"
      using ends_firmly_dropWhile [OF "1.prems"] ends_firmly_Cons by (metis skip_separators_alt)
    then have "ends_firmly (drop 1 (dropWhile (\<lambda>c. c \<noteq> QUOTE) cs))"
      by (intro ends_firmly_drop ends_firmly_dropWhile)
    with "1.IH" [OF False ss] f show ?thesis
      using False ss by (simp add: parse_modifiers_loop.simps [of m p])
  qed (simp add: parse_modifiers_loop.simps [of m p])
qed

lemma parse_modifiers_array_firm: "ends_firmly p \<Longrightarrow> parse_modifiers_array p \<noteq> None"
  using ends_firmly_dropWhile [of p "\<lambda>c. c \<noteq> CHR ''[''"] parse_modifiers_loop_firm ends_firmly_Cons
  by (auto simp: parse_modifiers_array_def split: list.split)

lemma memmem_suffix: "memmem pat s = Some t \<Longrightarrow> \<exists>u. s = u @ t"
proof (induction pat s rule: memmem.induct)
  case (2 pat c cs)
  then show ?case by (auto split: if_splits intro: exI [of _ "c # _"])
qed (auto split: if_splits)

lemma extract_modifiers_firm: "ends_firmly (obj @ rest) \<Longrightarrow> extract_modifiers_field obj rest \<noteq> None"
proof (induction obj rest rule: extract_modifiers_field.induct)
  case (1 obj rest)
  show ?case
  proof (cases "memmem (quoted ''modifiers'') obj")
    case None
    then show ?thesis by (simp add: extract_modifiers_field.simps [of obj])
  next
    case (Some t)
    let ?pos = "skip_space (drop (length (quoted ''modifiers'')) t)"
    from memmem_suffix [OF Some] obtain u where u: "obj = u @ t" by blast
    have "\<exists>x. t = x @ ?pos"
      by (metis append_assoc append_take_drop_id skip_space_def takeWhile_dropWhile_id)
    then obtain x where "obj @ rest = (u @ x) @ (?pos @ rest)" using u by (metis append_assoc)
    with "1.prems" have f: "ends_firmly (?pos @ rest)" using ends_firmly_suffix by metis
    show ?thesis
    proof (cases "?pos = [] \<or> hd ?pos \<noteq> CHR '':''")
      case True
      with "1.IH" [OF Some refl True f] Some show ?thesis
        by (simp add: extract_modifiers_field.simps [of obj])
    next
      case False
      then obtain c where "?pos = c # tl ?pos" by (metis list.exhaust_sel)
      with f have "ends_firmly (tl ?pos @ rest)" by (metis append_Cons ends_firmly_Cons)
      from parse_modifiers_array_firm [OF this] False Some show ?thesis
        by (simp add: extract_modifiers_field.simps [of obj])
    qed
  qed
qed

lemma register_total: "keybindings w \<noteq> None \<Longrightarrow>
  \<exists>w' r. register_binding c s m k a cmd w = Some (w', r) \<and> keybindings w' \<noteq> None"
  by (auto simp: register_binding_def)

lemma load_binding_firm:
  assumes "ends_firmly (obj @ rest)" "keybindings w \<noteq> None"
  shows "\<exists>w' r. load_binding E n obj rest w = Some (w', r) \<and> keybindings w' \<noteq> None"
proof -
  from extract_modifiers_firm [OF assms(1)] obtain mods where
    "extract_modifiers_field obj rest = Some mods" by blast
  then show ?thesis using assms(2) register_total [OF assms(2)]
    by (auto simp: load_binding_def Let_def split: option.split)
qed

lemma load_bindings_firm:
  "ends_firmly p \<Longrightarrow> keybindings w \<noteq> None \<Longrightarrow> load_bindings E n p w \<noteq> None"
proof (induction E n p w rule: load_bindings.induct)
  case (1 E n p0 w)
  let ?p = "skip_separators p0"
  obtain obj rest where so: "split_object 0 ?p = (obj, rest)" by (cases "split_object 0 ?p")
  then have p: "?p = obj @ rest" by (rule split_object_append)
  have "ends_firmly ?p" using "1.prems"(1) by (simp add: skip_separators_alt ends_firmly_dropWhile)
  then have f: "ends_firmly (obj @ rest)" "ends_firmly rest"
    unfolding p by (auto dest: ends_firmly_suffix)
  from load_binding_firm [OF f(1) "1.prems"(2)] obtain w' r where
    l: "load_binding E n obj rest w = Some (w', r)" "keybindings w' \<noteq> None" by blast
  show ?case
  proof (cases "?p \<noteq> [] \<and> hd ?p = CHR ''{'' \<and> r = 0")
    case True
    with "1.IH" [OF refl _ _ so [symmetric] l(1) refl _ f(2) l(2)] so l show ?thesis
      by (subst load_bindings.simps) simp
  next
    case False
    with so l show ?thesis by (subst load_bindings.simps) (auto simp: Let_def)
  qed
qed

lemma load_config_total:
  assumes "keybindings w \<noteq> None"
    and "\<And>f. kb_fopen E path = Some f \<Longrightarrow> ends_firmly (c_str (cf_fread f (cf_ftell f)))"
  shows "zen_keybinds_load_config E c (Some path) w \<noteq> None"
proof -
  have "load_text E s w \<noteq> None" if s: "ends_firmly s" for s
  proof (cases "memmem (quoted ''bindings'') s")
    case (Some t)
    with s have "ends_firmly t" using memmem_suffix ends_firmly_suffix by metis
    then have "ends_firmly (dropWhile (\<lambda>c. c \<noteq> CHR ''['') (drop (length (quoted ''bindings'')) t))"
      by (intro ends_firmly_dropWhile ends_firmly_drop)
    then show ?thesis using Some load_bindings_firm assms(1) ends_firmly_Cons
      by (auto simp: load_text_def split: list.split)
  qed (simp add: load_text_def)
  with assms(2) show ?thesis
    by (auto simp: zen_keybinds_load_config_def Let_def split: option.split)
qed

text \<open>
  C29. Loading a configuration terminates without a fault for every file whose text does not
  end in a space, a line break or a comma: nothing beyond the buffer is read.
\<close>

theorem load_config_no_overread:
  assumes "keybindings w \<noteq> None"
    and "\<And>f. kb_fopen E path = Some f \<Longrightarrow> ends_firmly (c_str (cf_fread f (cf_ftell f)))"
  shows "zen_keybinds_load_config E c (Some path) w \<noteq> None"
  by (rule load_config_total [OF assms])

text \<open>A file that is opened, measured and read without an error.\<close>

definition text_file :: "string \<Rightarrow> config_file" where
  "text_file s = \<lparr>cf_fseek_ok = True, cf_ftell = int (length s), cf_fread = (\<lambda>_. s)\<rparr>"

lemma load_config_text_file:
  assumes "kb_fopen E path = Some (text_file s)" "kb_malloc_ok E" "NUL \<notin> set s"
    "0 < length s" "length s \<le> 65536"
  shows "zen_keybinds_load_config E CPTR (Some path) w = load_text E s w"
proof -
  have "c_str s = s" using assms(3) by (auto simp: c_str_def takeWhile_eq_all_conv)
  then show ?thesis using assms by (auto simp: zen_keybinds_load_config_def text_file_def)
qed




section \<open>Round trip\<close>

text \<open>A printer for configurations, in the field order of the documentation's example.\<close>

datatype mod_name = Mod_ctrl | Mod_alt | Mod_super | Mod_shift

primrec mod_text :: "mod_name \<Rightarrow> string" where
  "mod_text Mod_ctrl = ''ctrl''"
| "mod_text Mod_alt = ''alt''"
| "mod_text Mod_super = ''super''"
| "mod_text Mod_shift = ''shift''"

primrec mod_bit :: "mod_name \<Rightarrow> u32" where
  "mod_bit Mod_ctrl = WLR_MODIFIER_CTRL"
| "mod_bit Mod_alt = WLR_MODIFIER_ALT"
| "mod_bit Mod_super = WLR_MODIFIER_LOGO"
| "mod_bit Mod_shift = WLR_MODIFIER_SHIFT"

record binding_spec =
  bs_mods :: "mod_name list"
  bs_key :: string
  bs_action :: ZenKeybindAction
  bs_command :: cstring

fun comma_list :: "string list \<Rightarrow> string" where
  "comma_list [] = []"
| "comma_list (t # ts) = t @ concat (map (Cons (CHR '','')) ts)"

definition print_field :: "string \<Rightarrow> string \<Rightarrow> string" where
  "print_field key val = quoted key @ '':'' @ quoted val"

definition print_binding :: "binding_spec \<Rightarrow> string" where
  "print_binding b = ''{'' @ quoted ''modifiers'' @ '':['' @
     comma_list (map (quoted \<circ> mod_text) (bs_mods b)) @ ''],'' @
     print_field ''key'' (bs_key b) @ '','' @ print_field ''action'' (action_name (bs_action b)) @
     (case bs_command b of None \<Rightarrow> [] | Some c \<Rightarrow> '','' @ print_field ''command'' c) @ ''}''"

definition print_config :: "binding_spec list \<Rightarrow> string" where
  "print_config bs = ''{'' @ quoted ''bindings'' @ '':['' @ comma_list (map print_binding bs) @ '']}''"

definition mods_of :: "mod_name list \<Rightarrow> u32" where
  "mods_of ms = foldl (\<lambda>m n. m OR mod_bit n) 0 ms"

definition binding_of :: "kb_env \<Rightarrow> binding_spec \<Rightarrow> ZenKeybinding" where
  "binding_of E b = \<lparr>modifiers = mods_of (bs_mods b), keysym = keysym_from_name E (bs_key b),
     action = bs_action b, custom_cmd = bs_command b\<rparr>"

text \<open>Values that need no escape and cannot be taken for a brace or a field name.\<close>

definition plain_text :: "string \<Rightarrow> bool" where
  "plain_text s \<longleftrightarrow> (\<forall>c \<in> set s. c \<notin> {NUL, QUOTE, BACKSLASH, CHR ''{'', CHR ''}''})"

definition spec_ok :: "kb_env \<Rightarrow> binding_spec \<Rightarrow> bool" where
  "spec_ok E b \<longleftrightarrow> plain_text (bs_key b) \<and> bs_key b \<noteq> ''action'' \<and> bs_key b \<noteq> ''command'' \<and>
     keysym_from_name E (bs_key b) \<noteq> XKB_KEY_NoSymbol \<and> bs_action b \<noteq> ZEN_ACTION_COUNT \<and>
     (case bs_command b of None \<Rightarrow> True | Some c \<Rightarrow> plain_text c)"

definition allocs_ok :: "kb_env \<Rightarrow> bool" where
  "allocs_ok E \<longleftrightarrow> (\<forall>n. al_key (kb_alloc E n) \<and> al_action (kb_alloc E n) \<and>
     al_command (kb_alloc E n) \<and> al_binding (kb_alloc E n) \<and> al_strdup (kb_alloc E n))"

subsection \<open>Searching between quotes\<close>

lemma memmem_skip:
  "QUOTE \<notin> set u \<Longrightarrow> memmem (quoted k) (u @ X) = memmem (quoted k) X"
  by (induction u) (auto simp: quoted_def)

lemma quote_split:
  "QUOTE \<notin> set u \<Longrightarrow> QUOTE \<notin> set k \<Longrightarrow> u @ QUOTE # X = k @ QUOTE # Y \<Longrightarrow> u = k"
proof (induction u arbitrary: k)
  case Nil
  then show ?case by (cases k) auto
next
  case (Cons c u)
  then show ?case by (cases k) auto
qed

lemma memmem_quoted:
  assumes "QUOTE \<notin> set u" "QUOTE \<notin> set k"
  shows "memmem (quoted k) (QUOTE # u @ QUOTE # X) =
    (if u = k then Some (quoted k @ X) else memmem (quoted k) (QUOTE # X))"
proof (cases "u = k")
  case True
  then show ?thesis by (simp add: quoted_def)
next
  case False
  have "take (length (quoted k)) (QUOTE # u @ QUOTE # X) \<noteq> quoted k"
  proof
    assume "take (length (quoted k)) (QUOTE # u @ QUOTE # X) = quoted k"
    then obtain Y where "QUOTE # u @ QUOTE # X = quoted k @ Y" by (metis append_take_drop_id)
    then have "u @ QUOTE # X = k @ QUOTE # Y" by (simp add: quoted_def)
    with quote_split [OF assms] False show False by blast
  qed
  with False show ?thesis using memmem_skip [OF assms(1), of k "QUOTE # X"] by simp
qed

lemma memmem_array:
  assumes "QUOTE \<notin> set k" "k \<notin> mod_text ` set ms" "k \<noteq> '',''" "QUOTE \<notin> set u" "k \<noteq> u"
  shows "memmem (quoted k) (QUOTE # u @ comma_list (map (quoted \<circ> mod_text) ms) @ Z) =
    memmem (quoted k) (QUOTE # (if ms = [] then u else []) @ Z)"
proof -
  have q: "QUOTE \<notin> set (mod_text m)" for m by (cases m) simp_all
  have r: "memmem (quoted k) (QUOTE # concat (map (Cons (CHR '','') \<circ> (quoted \<circ> mod_text)) ms') @ Z) =
      memmem (quoted k) (QUOTE # Z)" if "k \<notin> mod_text ` set ms'" for ms'
    using that
  proof (induction ms')
    case (Cons m ms')
    have "memmem (quoted k) (QUOTE # '','' @ QUOTE # mod_text m @ QUOTE # Y) = memmem (quoted k) (QUOTE # Y)"
      for Y using memmem_quoted [of "'',''" k "mod_text m @ QUOTE # Y"] memmem_quoted [OF q assms(1), of m Y]
        assms(1,3) Cons.prems by auto
    with Cons show ?case by (simp add: quoted_def)
  qed simp
  show ?thesis
  proof (cases ms)
    case (Cons m ms')
    have "memmem (quoted k) (QUOTE # u @ QUOTE # mod_text m @ QUOTE # Y) = memmem (quoted k) (QUOTE # Y)" for Y
      using memmem_quoted [OF assms(4,1), of "mod_text m @ QUOTE # Y"] memmem_quoted [OF q assms(1), of m Y]
        assms(2,5) Cons by auto
    with r [of ms'] assms(2) Cons show ?thesis by (simp add: quoted_def comp_def)
  qed simp
qed

lemma memmem_field_here:
  assumes "QUOTE \<notin> set k"
  shows "memmem (quoted k) (print_field k v @ X) = Some (print_field k v @ X)"
  using memmem_quoted [OF assms assms, of "'':'' @ quoted v @ X"] by (simp add: print_field_def quoted_def)

lemma memmem_field_skip:
  assumes "QUOTE \<notin> set k" "QUOTE \<notin> set f" "QUOTE \<notin> set v" "k \<noteq> f" "k \<noteq> v" "k \<noteq> '':''"
  shows "memmem (quoted k) (print_field f v @ X) = memmem (quoted k) (QUOTE # X)"
  using memmem_quoted [OF assms(2,1), of "'':'' @ QUOTE # v @ QUOTE # X"] assms
    memmem_quoted [of "'':''" k "v @ QUOTE # X"] memmem_quoted [OF assms(3,1), of X]
  by (auto simp: print_field_def quoted_def)

lemma memmem_field_next:
  assumes "QUOTE \<notin> set k" "k \<noteq> '',''"
  shows "memmem (quoted k) (QUOTE # '','' @ print_field f v @ X) = memmem (quoted k) (print_field f v @ X)"
  using memmem_quoted [of "'',''" k "f @ QUOTE # '':'' @ quoted v @ X"] assms
  by (auto simp: print_field_def quoted_def)

subsection \<open>Reading what was printed\<close>

lemma scan_value_plain: "plain_text v \<Longrightarrow> scan_value (v @ QUOTE # X) = Some v"
proof (induction v)
  case Nil
  then show ?case by (cases X) simp_all
next
  case (Cons c v)
  obtain d cs where "v @ QUOTE # X = d # cs" by (cases v) auto
  with Cons show ?case by (simp add: plain_text_def)
qed

lemma extract_field_here:
  assumes "memmem (quoted k) obj = Some (print_field k v @ X)" "plain_text v" "length k < 62"
  shows "extract_string_field True obj k = Some v"
proof -
  have "print_field k v @ X = quoted k @ CHR '':'' # QUOTE # v @ QUOTE # X"
    by (simp add: print_field_def quoted_def)
  then have "skip_space (drop (length (quoted k)) (print_field k v @ X)) =
      CHR '':'' # QUOTE # v @ QUOTE # X" by (simp add: skip_space_def is_space_def)
  then show ?thesis using assms scan_value_plain [OF assms(2)]
    by (simp add: extract_string_field.simps [of True obj] skip_space_def is_space_def)
qed

text \<open>The part of a printed object behind the modifiers.\<close>

definition print_fields :: "binding_spec \<Rightarrow> string" where
  "print_fields b = print_field ''key'' (bs_key b) @ '','' @
     print_field ''action'' (action_name (bs_action b)) @
     (case bs_command b of None \<Rightarrow> [] | Some c \<Rightarrow> '','' @ print_field ''command'' c) @ ''}''"

lemma print_binding_alt:
  "print_binding b = ''{'' @ quoted ''modifiers'' @ '':['' @
     comma_list (map (quoted \<circ> mod_text) (bs_mods b)) @ ''],'' @ print_fields b"
  by (simp add: print_binding_def print_fields_def)

lemma memmem_fields:
  assumes "k \<in> {''key'', ''action'', ''command''}"
  shows "memmem (quoted k) (print_binding b) = memmem (quoted k) (print_fields b)"
proof -
  let ?A = "comma_list (map (quoted \<circ> mod_text) (bs_mods b))"
  let ?u = "if bs_mods b = [] then '':['' else []"
  have k: "QUOTE \<notin> set k" "k \<noteq> '',''" "k \<noteq> '':[''" "k \<noteq> ''modifiers''" "k \<noteq> ?u @ ''],''"
    using assms by auto
  have m: "k \<notin> mod_text ` set (bs_mods b)"
  proof
    assume "k \<in> mod_text ` set (bs_mods b)"
    then obtain x where "k = mod_text x" by blast
    with assms show False by (cases x) auto
  qed
  have "memmem (quoted k) (print_binding b) =
      memmem (quoted k) (QUOTE # ''modifiers'' @ QUOTE # '':['' @ ?A @ ''],'' @ print_fields b)"
    using memmem_skip [of "''{''" k] by (simp add: print_binding_alt quoted_def)
  also have "\<dots> = memmem (quoted k) (QUOTE # '':['' @ ?A @ ''],'' @ print_fields b)"
    using k memmem_quoted [of "''modifiers''" k] by simp
  also have "\<dots> = memmem (quoted k) (QUOTE # ?u @ ''],'' @ print_fields b)"
    using k m by (intro memmem_array) auto
  also have "\<dots> = memmem (quoted k) (QUOTE # (?u @ ''],'') @ print_fields b)" by simp
  also have "\<dots> = memmem (quoted k) (print_fields b)"
  proof -
    have "print_fields b = QUOTE # tl (print_fields b)"
      by (simp add: print_fields_def print_field_def quoted_def)
    with k memmem_quoted [of "?u @ ''],''" k "tl (print_fields b)"] show ?thesis
      by (auto split: if_splits)
  qed
  finally show ?thesis .
qed

lemma plain_no_quote: "plain_text s \<Longrightarrow> QUOTE \<notin> set s"
  by (auto simp: plain_text_def)

lemma plain_action_name: "plain_text (action_name a)"
  by (cases a) (simp_all add: plain_text_def)

lemma action_name_fields: "action_name a \<noteq> ''command''" "action_name a \<noteq> ''action''"
  by (cases a; simp)+

lemma extract_key: "spec_ok E b \<Longrightarrow> extract_string_field True (print_binding b) ''key'' = Some (bs_key b)"
  by (rule extract_field_here [where X = "drop (length (print_field ''key'' (bs_key b))) (print_fields b)"])
     (simp_all add: memmem_fields memmem_field_here spec_ok_def print_fields_def)

lemma memmem_behind_key:
  assumes "spec_ok E b" "k \<in> {''action'', ''command''}"
  shows "memmem (quoted k) (print_binding b) = memmem (quoted k)
    (print_field ''action'' (action_name (bs_action b)) @
     (case bs_command b of None \<Rightarrow> [] | Some c \<Rightarrow> '','' @ print_field ''command'' c) @ ''}'')"
proof -
  let ?R = "print_field ''action'' (action_name (bs_action b)) @
    (case bs_command b of None \<Rightarrow> [] | Some c \<Rightarrow> '','' @ print_field ''command'' c) @ ''}''"
  have key: "QUOTE \<notin> set (bs_key b)" "k \<noteq> bs_key b"
    using assms by (auto simp: spec_ok_def plain_no_quote)
  have "memmem (quoted k) (print_binding b) =
      memmem (quoted k) (print_field ''key'' (bs_key b) @ ('','' @ ?R))"
    using assms(2) by (subst memmem_fields) (auto simp: print_fields_def)
  also have "\<dots> = memmem (quoted k) (QUOTE # '','' @ ?R)"
    by (rule memmem_field_skip) (use assms(2) key in auto)
  also have "\<dots> = memmem (quoted k) ?R"
    by (rule memmem_field_next) (use assms(2) in auto)
  finally show ?thesis .
qed

lemma extract_action:
  assumes "spec_ok E b"
  shows "extract_string_field True (print_binding b) ''action'' = Some (action_name (bs_action b))"
  using memmem_behind_key [OF assms, of "''action''"]
  by (intro extract_field_here [OF _ plain_action_name]) (simp_all add: memmem_field_here)

lemma extract_command:
  assumes "spec_ok E b"
  shows "extract_string_field True (print_binding b) ''command'' = bs_command b"
proof -
  let ?t = "case bs_command b of None \<Rightarrow> [] | Some c \<Rightarrow> '','' @ print_field ''command'' c"
  have m: "memmem (quoted ''command'') (print_binding b) = memmem (quoted ''command'') (QUOTE # ?t @ ''}'')"
    using memmem_behind_key [OF assms, of "''command''"] action_name_fields(1) [of "bs_action b"]
      memmem_field_skip [of "''command''" "''action''" "action_name (bs_action b)" "?t @ ''}''"]
      plain_no_quote [OF plain_action_name] by auto
  show ?thesis
  proof (cases "bs_command b")
    case None
    with m have "memmem (quoted ''command'') (print_binding b) = None" by (simp add: quoted_def)
    then show ?thesis using None by (simp add: extract_string_field.simps)
  next
    case (Some c)
    with assms have "plain_text c" by (simp add: spec_ok_def)
    moreover have "memmem (quoted ''command'') (print_binding b) = Some (print_field ''command'' c @ ''}'')"
      using m Some memmem_field_next [of "''command''" "''command''" c "''}''"]
      by (simp add: memmem_field_here)
    ultimately show ?thesis using Some by (simp add: extract_field_here)
  qed
qed

lemma loop_token:
  "parse_modifiers_loop m (QUOTE # mod_text n @ QUOTE # Y) = parse_modifiers_loop (m OR mod_bit n) Y"
  "parse_modifiers_loop m (CHR '','' # QUOTE # mod_text n @ QUOTE # Y) =
     parse_modifiers_loop (m OR mod_bit n) Y"
  by (cases n; simp add: parse_modifiers_loop.simps [of m] skip_separators_def is_space_def
      parse_modifier_token_def c_tolower_def)+

lemma loop_array:
  "parse_modifiers_loop m (comma_list (map (quoted \<circ> mod_text) ms) @ CHR '']'' # Y) =
     Some (foldl (\<lambda>m n. m OR mod_bit n) m ms)"
proof -
  have r: "parse_modifiers_loop m (concat (map (Cons (CHR '','') \<circ> (quoted \<circ> mod_text)) ms) @ CHR '']'' # Y) =
      Some (foldl (\<lambda>m n. m OR mod_bit n) m ms)" for m ms
  proof (induction ms arbitrary: m)
    case Nil
    then show ?case by (simp add: parse_modifiers_loop.simps)
  next
    case (Cons n ms)
    then show ?case using loop_token(2) [of m n] by (simp add: quoted_def)
  qed
  show ?thesis
  proof (cases ms)
    case Nil
    then show ?thesis by (simp add: parse_modifiers_loop.simps)
  next
    case (Cons n ms')
    with r [of "m OR mod_bit n" ms'] loop_token(1) [of m n] show ?thesis
      by (simp add: quoted_def comp_def)
  qed
qed

lemma extract_modifiers_printed:
  "extract_modifiers_field (print_binding b) rest = Some (mods_of (bs_mods b))"
proof -
  let ?X = "'':['' @ comma_list (map (quoted \<circ> mod_text) (bs_mods b)) @ ''],'' @ print_fields b"
  have "memmem (quoted ''modifiers'') (print_binding b) = Some (quoted ''modifiers'' @ ?X)"
    using memmem_skip [of "''{''" "''modifiers''"] memmem_quoted [of "''modifiers''" "''modifiers''" ?X]
    by (simp add: print_binding_alt quoted_def)
  moreover have "skip_space (drop (length (quoted ''modifiers'')) (quoted ''modifiers'' @ ?X)) = ?X"
    by (simp add: skip_space_def is_space_def)
  moreover have "parse_modifiers_array (tl ?X @ rest) = Some (mods_of (bs_mods b))"
    using loop_array [of 0 "bs_mods b" "'','' @ print_fields b @ rest"]
    by (simp add: parse_modifiers_array_def mods_of_def)
  ultimately show ?thesis by (simp add: extract_modifiers_field.simps [of "print_binding b"])
qed

lemma split_object_plain:
  "CHR ''{'' \<notin> set body \<Longrightarrow> CHR ''}'' \<notin> set body \<Longrightarrow>
   split_object 1 (body @ CHR ''}'' # rest) = (body @ ''}'', rest)"
  by (induction body) auto

definition brace_free :: "string \<Rightarrow> bool" where
  "brace_free s \<longleftrightarrow> CHR ''{'' \<notin> set s \<and> CHR ''}'' \<notin> set s"

lemma brace_free_append: "brace_free (a @ b) = (brace_free a \<and> brace_free b)"
  by (auto simp: brace_free_def)

lemma brace_free_plain: "plain_text s \<Longrightarrow> brace_free s"
  by (auto simp: plain_text_def brace_free_def)

lemma brace_free_quoted: "brace_free (quoted s) = brace_free s"
  by (auto simp: brace_free_def quoted_def)

lemma brace_free_comma_list: "list_all brace_free ts \<Longrightarrow> brace_free (comma_list ts)"
  by (cases ts) (auto simp: brace_free_def list_all_iff)

lemma brace_free_mod_text: "brace_free (mod_text n)"
  by (cases n) (simp_all add: brace_free_def)

lemma print_binding_shape:
  assumes "spec_ok E b"
  obtains body where "print_binding b = CHR ''{'' # body @ ''}''" "CHR ''{'' \<notin> set body" "CHR ''}'' \<notin> set body"
proof -
  let ?cmd = "case bs_command b of None \<Rightarrow> [] | Some c \<Rightarrow> '','' @ print_field ''command'' c"
  let ?body = "quoted ''modifiers'' @ '':['' @ comma_list (map (quoted \<circ> mod_text) (bs_mods b)) @ ''],'' @
     print_field ''key'' (bs_key b) @ '','' @ print_field ''action'' (action_name (bs_action b)) @ ?cmd"
  have lit: "brace_free ''modifiers''" "brace_free '':[''" "brace_free ''],''" "brace_free '':''"
    "brace_free '',''" "brace_free ''key''" "brace_free ''action''" "brace_free ''command''"
    by (simp_all add: brace_free_def)
  have field: "brace_free (print_field k v)" if "brace_free k" "brace_free v" for k v
    unfolding print_field_def brace_free_append brace_free_quoted using that lit(4) by blast
  have "brace_free ?cmd"
    using assms brace_free_append lit(5) field [OF lit(8)] brace_free_plain
    by (cases "bs_command b") (auto simp: spec_ok_def brace_free_def)
  moreover have "brace_free (bs_key b)" using assms by (simp add: spec_ok_def brace_free_plain)
  moreover have "brace_free (comma_list (map (quoted \<circ> mod_text) (bs_mods b)))"
    by (rule brace_free_comma_list) (simp add: list_all_iff brace_free_quoted brace_free_mod_text)
  ultimately have "brace_free ?body"
    unfolding brace_free_append brace_free_quoted
    using lit field brace_free_plain [OF plain_action_name] by blast
  moreover have "print_binding b = CHR ''{'' # ?body @ ''}''" by (simp add: print_binding_def)
  ultimately show ?thesis using that unfolding brace_free_def by blast
qed

lemma parse_action_name: "a \<noteq> ZEN_ACTION_COUNT \<Longrightarrow> parse_action_string (action_name a) = a"
  by (cases a) (simp_all add: parse_action_string_def action_table_def)

lemma load_printed_binding:
  assumes "spec_ok E b" "allocs_ok E" "keybindings w = Some bs"
  shows "load_binding E n (print_binding b) rest w =
    Some (w\<lparr>keybindings := Some (bs @ [binding_of E b])\<rparr>, 0)"
  using assms extract_key [OF assms(1)] extract_action [OF assms(1)] extract_command [OF assms(1)]
  by (simp add: load_binding_def extract_modifiers_printed allocs_ok_def spec_ok_def
      parse_action_name register_binding_def wl_list_append_def binding_of_def)

lemma load_step:
  assumes "spec_ok E b" "allocs_ok E" "keybindings w = Some bs"
    "skip_separators p = print_binding b @ rest"
  shows "load_bindings E n p w =
    load_bindings E (Suc n) rest (w\<lparr>keybindings := Some (bs @ [binding_of E b])\<rparr>)"
proof -
  from assms(1) obtain body where body: "print_binding b = CHR ''{'' # body @ ''}''"
    "CHR ''{'' \<notin> set body" "CHR ''}'' \<notin> set body" by (rule print_binding_shape)
  then have "split_object 0 (print_binding b @ rest) = (print_binding b, rest)"
    using split_object_plain [OF body(2,3), of rest] by simp
  with body(1) load_printed_binding [OF assms(1-3), of n rest] assms(4) show ?thesis
    by (subst load_bindings.simps) simp
qed

lemma load_printed_bindings:
  "list_all (spec_ok E) specs \<Longrightarrow> allocs_ok E \<Longrightarrow> keybindings w = Some bs \<Longrightarrow>
   load_bindings E n (concat (map (Cons (CHR '','') \<circ> print_binding) specs) @ '']}'') w =
     Some (w\<lparr>keybindings := Some (bs @ map (binding_of E) specs)\<rparr>, 0)"
proof (induction specs arbitrary: n w bs)
  case Nil
  then show ?case by (simp add: load_bindings.simps skip_separators_def is_space_def)
next
  case (Cons b specs)
  let ?rest = "concat (map (Cons (CHR '','') \<circ> print_binding) specs) @ '']}''"
  let ?w = "w\<lparr>keybindings := Some (bs @ [binding_of E b])\<rparr>"
  have "skip_separators (CHR '','' # print_binding b @ ?rest) = print_binding b @ ?rest"
    by (simp add: print_binding_alt skip_separators_def is_space_def)
  from load_step [OF _ _ _ this] Cons.prems
  have "load_bindings E n (CHR '','' # print_binding b @ ?rest) w = load_bindings E (Suc n) ?rest ?w"
    by simp
  with Cons.IH [of ?w "bs @ [binding_of E b]" "Suc n"] Cons.prems show ?case
    by (simp add: comp_def)
qed

lemma load_printed_config:
  assumes "list_all (spec_ok E) specs" "allocs_ok E" "keybindings w = Some bs"
  shows "load_text E (print_config specs) w =
    Some (w\<lparr>keybindings := Some (bs @ map (binding_of E) specs)\<rparr>, 0)"
proof -
  let ?X = "'':['' @ comma_list (map print_binding specs) @ '']}''"
  have m: "memmem (quoted ''bindings'') (print_config specs) = Some (quoted ''bindings'' @ ?X)"
    using memmem_skip [of "''{''" "''bindings''"] memmem_quoted [of "''bindings''" "''bindings''" ?X]
    by (simp add: print_config_def quoted_def)
  have "load_bindings E 0 (comma_list (map print_binding specs) @ '']}'') w =
      Some (w\<lparr>keybindings := Some (bs @ map (binding_of E) specs)\<rparr>, 0)"
  proof (cases specs)
    case Nil
    with assms(3) show ?thesis by (simp add: load_bindings.simps skip_separators_def is_space_def)
  next
    case (Cons b specs')
    let ?rest = "concat (map (Cons (CHR '','') \<circ> print_binding) specs') @ '']}''"
    have "skip_separators (print_binding b @ ?rest) = print_binding b @ ?rest"
      by (simp add: print_binding_alt skip_separators_def is_space_def)
    from load_step [OF _ assms(2,3) this, of 0] Cons assms(1)
      load_printed_bindings [of E specs' "w\<lparr>keybindings := Some (bs @ [binding_of E b])\<rparr>"
        "bs @ [binding_of E b]" "Suc 0"] assms(2)
    show ?thesis by simp
  qed
  with m show ?thesis by (simp add: load_text_def)
qed

text \<open>
  C13. Round trip: printing a list of bindings as \<open>keybinds.json\<close> and loading the text registers
  exactly these bindings, in order, behind those already there. The names and commands may
  be any text without quotes, backslashes and braces.
\<close>

theorem config_round_trip:
  assumes "list_all (spec_ok E) specs" "allocs_ok E" "keybindings w = Some bs"
  shows "load_text E (print_config specs) w =
    Some (w\<lparr>keybindings := Some (bs @ map (binding_of E) specs)\<rparr>, 0)"
  using assms by (rule load_printed_config)

section \<open>Modifiers of another binding\<close>

text \<open>
  A first binding whose modifiers are given as a string instead of an array, and a second
  one for super and the same key.
\<close>

definition string_modifiers :: string where
  "string_modifiers = ''{'' @ print_field ''modifiers'' ''ctrl'' @ '','' @ print_field ''key'' ''x'' @
     '','' @ print_field ''action'' ''lock_screen'' @ ''}''"

definition leak_config :: string where
  "leak_config = ''{'' @ quoted ''bindings'' @ '':['' @ string_modifiers @ '','' @
     print_binding \<lparr>bs_mods = [Mod_super], bs_key = ''x'', bs_action = ZEN_ACTION_CLOSE_WINDOW,
       bs_command = None\<rparr> @ '']}''"

lemmas config_eval = load_text_def load_bindings.simps load_binding_def quoted_def print_field_def
  skip_separators_def skip_space_def is_space_def extract_modifiers_field.simps
  extract_string_field.simps parse_modifiers_array_def parse_modifiers_loop.simps
  parse_modifier_token_def c_tolower_def parse_action_string_def action_table_def
  register_binding_def wl_list_append_def

text \<open>
  The modifier array of a binding is not looked for within the binding's object: a
  binding whose modifiers are not an array is registered with the modifiers of the next
  binding. Here ctrl is written for locking the screen, and super is registered.
\<close>

theorem modifiers_taken_from_next_binding:
  assumes "allocs_ok E" "keysym_from_name E ''x'' = 0x78" "keybindings w = Some bs"
  shows "load_text E leak_config w = Some (w\<lparr>keybindings := Some (bs @
    [\<lparr>modifiers = WLR_MODIFIER_LOGO, keysym = 0x78, action = ZEN_ACTION_LOCK_SCREEN, custom_cmd = None\<rparr>,
     \<lparr>modifiers = WLR_MODIFIER_LOGO, keysym = 0x78, action = ZEN_ACTION_CLOSE_WINDOW, custom_cmd = None\<rparr>])\<rparr>, 0)"
  using assms unfolding allocs_ok_def
  by (simp add: leak_config_def string_modifiers_def print_binding_def config_eval xkb_keys wlr_modifiers)

section \<open>A concrete configuration\<close>

definition demo_alloc :: binding_alloc where
  "demo_alloc = \<lparr>al_key = True, al_action = True, al_command = True, al_binding = True, al_strdup = True\<rparr>"

text \<open>An outside in which every file holds the text \<open>s\<close>.\<close>

definition demo_kb :: "string \<Rightarrow> kb_env" where
  "demo_kb s = \<lparr>kb_lock = demo_env, kb_fork_ok = True,
     keysym_from_name = (\<lambda>n. if n = ''x'' then 0x78 else if n = ''t'' then XKB_KEY_t else 0),
     kb_fopen = (\<lambda>_. Some (text_file s)), kb_malloc_ok = True, kb_alloc = (\<lambda>_. demo_alloc),
     kb_default_ok = (\<lambda>_. True), getenv_HOME = Some ''/home/ada''\<rparr>"

text \<open>A custom command for the combination of the default terminal binding.\<close>

definition demo_override :: binding_spec where
  "demo_override = \<lparr>bs_mods = [Mod_ctrl, Mod_alt], bs_key = ''t'', bs_action = ZEN_ACTION_CUSTOM,
     bs_command = Some ''alacritty''\<rparr>"

definition demo_registry :: world where
  "demo_registry = zero_world\<lparr>keybindings := Some []\<rparr>"

lemma demo_allocs: "allocs_ok (demo_kb s)"
  by (simp add: allocs_ok_def demo_kb_def demo_alloc_def)

lemma demo_override_ok: "spec_ok (demo_kb s) demo_override"
  by (simp add: spec_ok_def demo_kb_def demo_override_def plain_text_def xkb_keys)

lemma register_defaults_total:
  "\<forall>i. kb_default_ok E i \<Longrightarrow> keybindings w = Some bs \<Longrightarrow>
   register_defaults E i ds w = Some (w\<lparr>keybindings := Some (bs @ map plain_binding ds)\<rparr>, 0)"
proof (induction ds arbitrary: i w bs)
  case (Cons d ds)
  obtain m k a where d: "d = (m, k, a)" by (cases d)
  with Cons.IH [of "w\<lparr>keybindings := Some (bs @ [plain_binding d])\<rparr>" "bs @ [plain_binding d]"] Cons.prems
  show ?case by (simp add: register_binding_def wl_list_append_def plain_binding_def)
qed simp

lemma demo_load:
  "zen_keybinds_load_config (demo_kb (print_config [demo_override])) CPTR (Some path) w =
     load_text (demo_kb (print_config [demo_override])) (print_config [demo_override]) w"
  by (rule load_config_text_file)
     (simp_all add: demo_kb_def print_config_def print_binding_def demo_override_def quoted_def print_field_def)

lemma demo_init:
  "zen_keybinds_init (demo_kb (print_config [demo_override])) CPTR demo_registry =
     Some (demo_registry\<lparr>keybindings := Some (map plain_binding default_bindings @
       [binding_of (demo_kb (print_config [demo_override])) demo_override])\<rparr>, 0)"
proof -
  let ?E = "demo_kb (print_config [demo_override])"
  let ?w = "demo_registry\<lparr>keybindings := Some (map plain_binding default_bindings)\<rparr>"
  have "register_defaults ?E 0 default_bindings (demo_registry\<lparr>keybindings := Some wl_list_init\<rparr>) = Some (?w, 0)"
    using register_defaults_total [of ?E "demo_registry\<lparr>keybindings := Some []\<rparr>" "[]"]
    by (simp add: wl_list_init_def demo_kb_def)
  moreover have "load_text ?E (print_config [demo_override]) ?w = Some (demo_registry\<lparr>keybindings :=
      Some (map plain_binding default_bindings @ [binding_of ?E demo_override])\<rparr>, 0)"
    using load_printed_config [of ?E "[demo_override]" ?w "map plain_binding default_bindings"]
    by (simp add: demo_override_ok demo_allocs)
  moreover have "getenv_HOME ?E = Some ''/home/ada''" by (simp add: demo_kb_def)
  ultimately show ?thesis by (simp add: zen_keybinds_init_def demo_load)
qed

theorem load_config_only_appends_witness:
  "\<exists>w' new. zen_keybinds_load_config (demo_kb (print_config [demo_override])) CPTR (Some ''k'') demo_registry =
     Some (w', 0) \<and> w' = demo_registry\<lparr>keybindings := Some new\<rparr> \<and>
     (\<forall>b \<in> set new. modifiers b AND NOT 77 = 0 \<and> keysym b \<noteq> 0 \<and> action b \<noteq> ZEN_ACTION_COUNT)"
proof -
  have r: "keybindings demo_registry = Some []" by (simp add: demo_registry_def)
  obtain w' where l: "zen_keybinds_load_config (demo_kb (print_config [demo_override])) CPTR (Some ''k'')
      demo_registry = Some (w', 0)"
    unfolding demo_load using load_printed_config [of _ "[demo_override]", OF _ demo_allocs r]
    by (simp add: demo_override_ok)
  from load_config_only_appends [OF l r] l show ?thesis by auto
qed

theorem defaults_always_win_witness:
  "\<exists>w'. zen_keybinds_init (demo_kb (print_config [demo_override])) CPTR demo_registry = Some (w', 0) \<and>
     (\<exists>b \<in> set (the (keybindings w')). modifiers b = 12 \<and> keysym b = XKB_KEY_t \<and>
        custom_cmd b = Some ''alacritty'') \<and>
     zen_keybinds_handle_key (demo_kb []) CPTR 12 XKB_KEY_t w' =
       Some (fork_exec (demo_kb []) [[''foot''], [''xterm'']] w', True)"
proof -
  obtain w' where w': "zen_keybinds_init (demo_kb (print_config [demo_override])) CPTR demo_registry =
      Some (w', 0)" and k: "w' = demo_registry\<lparr>keybindings := Some (map plain_binding default_bindings @
       [binding_of (demo_kb (print_config [demo_override])) demo_override])\<rparr>"
    using demo_init by blast
  have "(12, XKB_KEY_t, ZEN_ACTION_LAUNCH_TERMINAL) \<in> set default_bindings"
    by (simp add: default_bindings_def wlr_modifiers)
  from defaults_always_win [OF w' this refl, of "demo_kb []"] w' k show ?thesis
    by (simp add: execute_action_def binding_of_def demo_override_def mods_of_def wlr_modifiers demo_kb_def)
qed

theorem load_config_no_overread_witness:
  "zen_keybinds_load_config (demo_kb ''{}'') CPTR (Some ''k'') demo_registry \<noteq> None"
  by (rule load_config_no_overread)
     (simp_all add: demo_registry_def demo_kb_def text_file_def ends_firmly_def c_str_def
        is_separator_def is_space_def)


theorem config_round_trip_witness:
  "load_text (demo_kb []) (print_config [demo_override, demo_override]) demo_registry =
     Some (demo_registry\<lparr>keybindings := Some (map (binding_of (demo_kb [])) [demo_override, demo_override])\<rparr>, 0)"
  using config_round_trip [of "demo_kb []" "[demo_override, demo_override]" demo_registry "[]"]
  by (simp add: demo_override_ok demo_allocs demo_registry_def)

theorem modifiers_taken_from_next_binding_witness:
  "\<exists>w'. load_text (demo_kb []) leak_config demo_registry = Some (w', 0) \<and>
     modifiers (hd (the (keybindings w'))) = WLR_MODIFIER_LOGO"
  using modifiers_taken_from_next_binding [of "demo_kb []" demo_registry "[]"]
  by (simp add: demo_allocs demo_registry_def) (simp add: demo_kb_def)

end
