(* ===== verification/Zen_Input_Props.thy ===== *)
theory Zen_Input_Props
  imports Zen_Input Zen_Keybinds_Config
begin

text \<open>
  What the input module guarantees: keys are private to the lock while it is active, a key is
  either consumed by one binding or forwarded once, windows follow the cursor during a move,
  and keyboards and listeners are kept and given up consistently. It also shows which
  events do reach clients while the screen is locked.
\<close>

section \<open>Calls clients see as input\<close>

definition client_input :: "call \<Rightarrow> bool" where
  "client_input c \<longleftrightarrow> (case c of Keyboard _ \<Rightarrow> True | Pointer _ \<Rightarrow> True | _ \<Rightarrow> False)"

lemma client_input_simps [simp]:
  "client_input (Keyboard k)" "client_input (Pointer p)" "\<not> client_input (Xdg x)"
  "\<not> client_input (Seat s)" "\<not> client_input (Cursor cc)" "\<not> client_input (Device d)"
  "\<not> client_input (Node n)" "\<not> client_input (Draw dr)" "\<not> client_input (Acquire kd a)"
  "\<not> client_input (Release kd a)" "\<not> client_input (Surface_flush a)" "\<not> client_input (Send_locked a)"
  "\<not> client_input (Timer_update a t)" "\<not> client_input (Proc pc)"
  "\<not> client_input (Output oc)" "\<not> client_input (Bus bc)" "\<not> client_input (X11 xc)"
  "\<not> client_input (Setenv nm v)" "\<not> client_input (Serial sl)"
  by (simp_all add: client_input_def)

text \<open>A change during which no input is sent to clients.\<close>

definition quiet :: "world \<Rightarrow> world \<Rightarrow> bool" where
  "quiet w w' \<longleftrightarrow> (\<exists>cs. calls w' = calls w @ cs \<and> (\<forall>c \<in> set cs. \<not> client_input c))"

lemma quiet_refl [simp]: "quiet w w"
  by (auto simp: quiet_def)

lemma quiet_trans: "quiet u v \<Longrightarrow> quiet v w \<Longrightarrow> quiet u w"
  by (auto simp: quiet_def)

lemma quiet_same: "calls w' = calls w \<Longrightarrow> quiet w w'"
  by (simp add: quiet_def)

lemma quiet_emits: "\<forall>c \<in> set cs. \<not> client_input c \<Longrightarrow> quiet w (emits cs w)"
  by (auto simp: quiet_def)

lemma quiet_calls: "calls w' = calls w @ cs \<Longrightarrow> \<forall>c \<in> set cs. \<not> client_input c \<Longrightarrow> quiet w w'"
  by (auto simp: quiet_def)

section \<open>The lock is quiet\<close>

lemma submit_quiet:
  assumes "zen_cairo_buffer_submit p w = Some (w', r)"
  shows "quiet w w'"
proof (cases p)
  case (Some a)
  with assms obtain b where "bufs w a = Some b" by (auto simp: zen_cairo_buffer_submit_def bind_eq_Some_conv)
  with Some assms show ?thesis
    by (cases "surface b"; cases "scene_buffer b"; cases "wlr_buf b")
       (auto simp: zen_cairo_buffer_submit_def intro!: quiet_emits)
qed (use assms in \<open>simp add: zen_cairo_buffer_submit_def\<close>)

lemma render_quiet: "render_lock_ui E w = Some w' \<Longrightarrow> quiet w w'"
proof -
  assume r: "render_lock_ui E w = Some w'"
  have d: "quiet w (emits (map Draw ui) w)" for ui by (rule quiet_emits) auto
  from r show ?thesis
    by (auto simp: render_lock_ui_def bind_eq_Some_conv split: option.splits if_splits
        intro: quiet_trans [OF d submit_quiet])
qed

lemma buffer_releases_quiet: "c \<in> set (buffer_releases b) \<Longrightarrow> \<not> client_input c"
  by (auto simp: buffer_releases_def release_opt_def split: option.splits)

lemma cairo_destroy_quiet: "zen_cairo_buffer_destroy p w = Some w' \<Longrightarrow> quiet w w'"
  by (auto simp: zen_cairo_buffer_destroy_def bind_eq_Some_conv Let_def emits_def split: option.splits
      intro!: quiet_calls dest: buffer_releases_quiet)

lemma free_lock_buffer_quiet: "free_lock_buffer w = Some w' \<Longrightarrow> quiet w w'"
  by (auto simp: free_lock_buffer_def bind_eq_Some_conv split: option.splits
      dest!: cairo_destroy_quiet simp: quiet_def)

lemma deactivate_quiet:
  assumes "zen_lock_deactivate w = Some w'"
  shows "quiet w w'"
proof (cases "locked w")
  case True
  with assms obtain v where v: "free_lock_buffer w = Some v" by (auto simp: zen_lock_deactivate_def bind_eq_Some_conv)
  with assms True have "quiet v w'"
    by (auto simp: zen_lock_deactivate_def Let_def wipe_password_def emits_def split: option.splits
        intro!: quiet_calls)
  then show ?thesis using free_lock_buffer_quiet [OF v] by (rule quiet_trans [rotated])
qed (use assms in \<open>simp add: zen_lock_deactivate_def\<close>)

lemma wipe_render_quiet: "render_lock_ui E v = Some w' \<Longrightarrow> calls v = calls w \<Longrightarrow> quiet w w'"
  by (rule quiet_trans [OF quiet_same render_quiet])

lemma lock_key_quiet: "zen_lock_handle_key E kc ks p w = Some (w', r) \<Longrightarrow> quiet w w'"
  unfolding zen_lock_handle_key_def
  by (auto simp: bind_eq_Some_conv split: if_splits intro: deactivate_quiet wipe_render_quiet)

lemma lock_keys_quiet: "lock_keys L i kc ss p w = Some w' \<Longrightarrow> quiet w w'"
proof (induction ss arbitrary: i w)
  case (Cons s ss)
  then obtain v r where "zen_lock_handle_key (L i) kc s p w = Some (v, r)" "lock_keys L (Suc i) kc ss p v = Some w'"
    by (auto simp: bind_eq_Some_conv)
  with Cons.IH lock_key_quiet show ?case by (blast intro: quiet_trans)
qed simp

lemma lock_key_total: "lock_wf w \<Longrightarrow> \<exists>w' r. zen_lock_handle_key E kc ks p w = Some (w', r) \<and> lock_wf w'"
  using key_refinement [of w E kc ks]
  by (cases "locked w \<and> p") (auto simp: key_refines_def lock_evolves_def zen_lock_handle_key_def)

lemma lock_keys_total: "lock_wf w \<Longrightarrow> \<exists>w'. lock_keys L i kc ss p w = Some w' \<and> lock_wf w'"
proof (induction ss arbitrary: i w)
  case (Cons s ss)
  from lock_key_total [OF Cons.prems, of "L i" kc s p] obtain v r where
    "zen_lock_handle_key (L i) kc s p w = Some (v, r)" "lock_wf v" by blast
  with Cons.IH [of v "Suc i"] show ?case by simp
qed simp

text \<open>
  While the screen is locked, keys go to the lock and to nobody else: handling a key
  event never faults, keeps the lock well-formed, and sends nothing to any client's keyboard
  or pointer, whatever symbols the key has and whatever PAM answers.
\<close>

theorem locked_keys_stay_private:
  assumes "lock_wf w" "locked w" "kbds w kb = Some k"
  shows "\<exists>w' cs. handle_keyboard_key E kb t kc p w = Some w' \<and> lock_wf w' \<and>
    calls w' = calls w @ cs \<and> (\<forall>c \<in> set cs. \<not> client_input c)"
proof -
  from lock_keys_total [OF assms(1)] obtain w' where
    w': "lock_keys (i_lock E) 0 (kc + 8) (i_syms E (kc + 8)) p w = Some w'" "lock_wf w'" by blast
  with lock_keys_quiet [OF w'(1)] assms(2,3) show ?thesis
    by (auto simp: handle_keyboard_key_def quiet_def)
qed

section \<open>Keys of an unlocked screen\<close>

lemma store_quiet: "\<forall>c \<in> set cs. \<not> client_input c \<Longrightarrow> quiet w (store_buf a b (emits cs w))"
  by (rule quiet_calls [of _ _ cs]) (simp_all add: store_buf_def)

lemma cleanup_quiet:
  assumes "cairo_buffer_cleanup p (store_buf a b (emits cs w)) = Some (w', r)" "\<forall>c \<in> set cs. \<not> client_input c"
  shows "quiet w w'"
proof -
  have "quiet w (store_buf a b (emits cs w))" using assms(2) by (rule store_quiet)
  moreover from assms(1) have "quiet (store_buf a b (emits cs w)) w'"
    by (auto simp: cairo_buffer_cleanup_def bind_eq_Some_conv intro: cairo_destroy_quiet)
  ultimately show ?thesis by (rule quiet_trans)
qed

lemma create_quiet:
  assumes "zen_cairo_buffer_create C p q wd ht w = Some (w', r)"
  shows "quiet w w'"
proof (cases "p = None \<or> q = None \<or> wd \<le> 0 \<or> ht \<le> 0")
  case True
  with assms show ?thesis
    by (auto simp: zen_cairo_buffer_create_def cairo_buffer_cleanup_def bind_eq_Some_conv intro: cairo_destroy_quiet)
next
  case False
  then obtain a q' where pq: "p = Some a" "q = Some q'" "0 < wd" "0 < ht" by (auto simp: not_le)
  with assms obtain b where "bufs w a = Some b" by (auto simp: zen_cairo_buffer_create_def bind_eq_Some_conv)
  with pq assms show ?thesis
    by (cases "cb_pango C"; cases "cb_raw C"; cases "cb_node C")
       (auto simp: zen_cairo_buffer_create_def Let_def split: if_splits elim!: cleanup_quiet
          intro!: store_quiet)
qed

lemma activate_quiet:
  assumes "zen_lock_activate E CPTR w = Some w'"
  shows "quiet w w'"
proof (cases "locked w")
  case True
  with assms show ?thesis by (simp add: zen_lock_activate_def)
next
  case False
  show ?thesis
  proof (cases "lock_calloc E")
    case None
    with assms False show ?thesis by (auto simp: activate_unfold intro: quiet_same)
  next
    case (Some a)
    let ?sz = "primary_size (output_layout w) (layout_sizes E)"
    from assms False Some obtain p v r where
      v: "zen_cairo_buffer_create (lock_cairo E) (Some a) (Some p) (fst ?sz) (snd ?sz) (lock_with_buf E a w) = Some (v, r)"
      and rest: "(if r \<noteq> 0 then Some (v\<lparr>bufs := (bufs v)(a := None), s_lock := (s_lock v)\<lparr>lock_buffer := None\<rparr>,
          locked := False\<rparr>) else do { b \<leftarrow> bufs v a; n \<leftarrow> scene_buffer b;
          render_lock_ui E (emits [Node (Set_position n 0 0)] v) }) = Some w'"
      by (auto simp: activate_unfold bind_eq_Some_conv)
    have "quiet w v" using quiet_trans [OF quiet_same create_quiet [OF v]] by simp
    moreover have "quiet v (emits [Node (Set_position n 0 0)] v)" for n by (rule quiet_emits) simp
    then have "quiet v w'" using rest
      by (auto simp: bind_eq_Some_conv split: if_splits intro: quiet_same quiet_trans [OF _ render_quiet])
    ultimately show ?thesis by (rule quiet_trans)
  qed
qed

lemma execute_action_quiet: "execute_action E a cmd w = Some w' \<Longrightarrow> quiet w w'"
  by (cases a) (auto simp: execute_action_def fork_exec_def bind_eq_Some_conv split: option.splits if_splits
      intro!: quiet_emits intro: activate_quiet)

text \<open>The binding a press resolves to: of the first symbol that has one, the first registered.\<close>

fun first_binding :: "u32 \<Rightarrow> u32 list \<Rightarrow> ZenKeybinding list \<Rightarrow> ZenKeybinding option" where
  "first_binding mods [] bs = None"
| "first_binding mods (s # ss) bs = (case find (binding_matches mods s) bs of
      Some b \<Rightarrow> Some b | None \<Rightarrow> first_binding mods ss bs)"

lemma bind_Some_map: "Option.bind x (\<lambda>y. Some (f y)) = map_option f x"
  by (cases x) simp_all

lemma try_bindings_first:
  "keybindings w = Some bs \<Longrightarrow> try_bindings E mods ss w = (case first_binding mods ss bs of
      None \<Rightarrow> Some (w, False)
    | Some b \<Rightarrow> map_option (\<lambda>v. (v, True)) (execute_action E (action b) (custom_cmd b) w))"
proof (induction ss)
  case (Cons s ss)
  then show ?case
    by (auto simp: zen_keybinds_handle_key_def bind_Some_map option.map_comp comp_def split: option.split)
       (auto simp: bind_map_option comp_def bind_Some_map)
qed simp

text \<open>
  C14. On an unlocked screen a key event is either consumed or forwarded, never both: a press
  that resolves to a binding executes its action and sends nothing to clients; every other
  press and every release is forwarded exactly once, and nothing else happens.
\<close>

theorem key_consumed_or_forwarded:
  assumes "\<not> locked w" "kbds w kb = Some k" "keybindings w = Some bs" "seat w = Some s"
    and "first_binding (i_mods E) (i_syms E (kc + 8)) bs = r"
  shows "handle_keyboard_key E kb t kc p w =
      (case r of
         Some b \<Rightarrow> if p then execute_action (i_kb E) (action b) (custom_cmd b) w
                   else Some (emits [Keyboard (Keyboard_key t kc p)] w)
       | None \<Rightarrow> Some (emits [Keyboard (Keyboard_key t kc p)] w)) \<and>
    (\<forall>w'. p \<and> r \<noteq> None \<and> handle_keyboard_key E kb t kc p w = Some w' \<longrightarrow>
       (\<exists>cs. calls w' = calls w @ cs \<and> (\<forall>c \<in> set cs. \<not> client_input c)))"
proof -
  have e: "handle_keyboard_key E kb t kc p w =
      (case r of
         Some b \<Rightarrow> if p then execute_action (i_kb E) (action b) (custom_cmd b) w
                   else Some (emits [Keyboard (Keyboard_key t kc p)] w)
       | None \<Rightarrow> Some (emits [Keyboard (Keyboard_key t kc p)] w))"
    using assms by (cases p)
      (auto simp: handle_keyboard_key_def try_bindings_first bind_map_option comp_def split: option.split)
  then show ?thesis
    using execute_action_quiet [unfolded quiet_def] by (auto split: option.splits)
qed

section \<open>Events that pass the lock\<close>

text \<open>
  Modifier changes are not held back by the lock: while the screen is locked, pressing
  shift or ctrl still notifies the client that has keyboard focus.
\<close>

theorem modifiers_reach_client_while_locked:
  assumes "locked w" "kbds w kb = Some k" "seat w = Some s"
  shows "\<exists>w'. handle_keyboard_modifiers kb w = Some w' \<and> locked w' \<and>
    calls w' = calls w @ [Seat (Set_keyboard (wlr_keyboard k)), Keyboard (Keyboard_modifiers (wlr_keyboard k))]"
  using assms by (auto simp: handle_keyboard_modifiers_def emits_def)

text \<open>
  C39. Nor are buttons: while the screen is locked, a press over a window focuses it, tells its
  client that it has the keyboard, and the button is forwarded.
\<close>

theorem button_reaches_client_while_locked:
  assumes "xdg_wf w" "locked w" "scene w = Some sc" "cursor w = Some cu" "seat w = Some s"
    and "toplevel_at_scene_node (i_node_path E) = Some a" "tops w a = Some t" "xdg_toplevel t = Some x"
    and "focused_toplevel w \<noteq> Some a" "x_keyboard (i_xdg E)"
  shows "\<exists>w' cs. handle_cursor_button E tm btn True w = Some w' \<and> locked w' \<and>
    focused_toplevel w' = Some a \<and> calls w' = calls w @ cs \<and>
    Keyboard (Keyboard_enter (x_surface (i_xdg E) x)) \<in> set cs \<and>
    Pointer (Pointer_button tm btn True) \<in> set cs"
proof -
  from deactivate_prev_effect [OF assms(1)] obtain ds where
    ds: "deactivate_prev w = Some (w\<lparr>calls := calls w @ ds\<rparr>)" by blast
  from assms(1) obtain l where l: "toplevels w = Some l" "set l = dom (tops w)" by (rule xdg_wf_list)
  have a: "a \<in> set l" using l(2) assms(7) by auto
  from ds l(1) a assms show ?thesis
    by (auto simp: handle_cursor_button_def zen_xdg_focus_toplevel_def seat_enter_def emits_def Let_def
        split: option.split)
qed

section \<open>Interactive move\<close>

lemma c_int_of_delta:
  assumes "in_int (c - g)"
  shows "c_int_of_double (fl (of_int c - of_int g)) = Some (c - g)"
proof -
  have "\<bar>c - g\<bar> < 2 ^ 53" using assms by (auto simp: in_int_def INT_MAX_def INT_MIN_def)
  from fl_int [OF this] assms show ?thesis unfolding of_int_diff [symmetric]
    by (simp only: c_int_of_double_def c_trunc_of_int if_True)
qed

text \<open>
  C31. During an interactive move the window follows the cursor exactly: with the cursor and
  the grab at whole coordinates, and the new position within the range of \<open>int\<close>, it is placed
  at its position at the start of the move plus the way the cursor has gone since, nothing
  is sent to clients, and nothing else changes.
\<close>

theorem window_follows_cursor:
  assumes "cursor w = Some cu" "seat w = Some s" "output_layout w = Some lay"
    and "grabbed_toplevel w = Some g" "tops w g = Some t" "scene_tree t = Some n"
    and "grab_x w = of_int gx" "grab_y w = of_int gy" "i_pos E = (of_int cx, of_int cy)"
    and "in_int (cx - gx)" "in_int (cy - gy)"
      "in_int (grab_node_x w + (cx - gx))" "in_int (grab_node_y w + (cy - gy))"
  shows "zen_input_process_cursor_motion E CPTR tm w =
    Some (emits [Node (Set_position n (grab_node_x w + (cx - gx)) (grab_node_y w + (cy - gy)))] w)"
  using assms c_int_of_delta [OF assms(10)] c_int_of_delta [OF assms(11)]
  by (simp add: zen_input_process_cursor_motion_def move_grabbed_def c_add_def emits_def Let_def split: option.split)

section \<open>Keyboards\<close>

interpretation kb: tracked_objects Of_Keyboard keyboard_listeners kbds keyboards
  by unfold_locales (simp_all add: keyboard_listeners_def)

text \<open>The list holds the live keyboards, and exactly their three listeners are linked.\<close>

definition keyboards_wf :: "world \<Rightarrow> bool" where
  "keyboards_wf w \<longleftrightarrow> (\<exists>l. keyboards w = Some l \<and> distinct l \<and> set l = dom (kbds w)) \<and> distinct (lregs w) \<and>
     (\<forall>a f. (Of_Keyboard a, f) \<in> set (lregs w) \<longleftrightarrow> a \<in> dom (kbds w) \<and> f \<in> set keyboard_listeners)"

lemma keyboards_wf_tracked: "keyboards_wf w = kb.tracked w"
  by (simp add: keyboards_wf_def kb.tracked_def)

lemma keyboard_destroy_effect:
  assumes "kb.tracked w" "keyboards w = Some l" "a \<in> set l"
  shows "\<exists>w'. handle_keyboard_destroy a w = Some w' \<and> kb.tracked w' \<and>
    keyboards w' = Some (filter (\<lambda>b. b \<noteq> a) l) \<and>
    calls w' = calls w \<and> cursor w' = cursor w \<and> xcursor_mgr w' = xcursor_mgr w"
proof -
  note l = kb.tracked_list [OF assms(1,2)]
  then obtain k where k: "kbds w a = Some k" using assms(3) by auto
  let ?w = "w\<lparr>lregs := fold (\<lambda>f. remove1 (Of_Keyboard a, f)) keyboard_listeners (lregs w),
    keyboards := Some (wl_list_remove a l), kbds := (kbds w)(a := None)\<rparr>"
  have "unlisten_all (Of_Keyboard a) keyboard_listeners w =
      Some (w\<lparr>lregs := fold (\<lambda>f. remove1 (Of_Keyboard a, f)) keyboard_listeners (lregs w)\<rparr>)"
    by (rule kb.tracked_unlisten [OF assms(1)]) (simp add: k)
  then have h: "handle_keyboard_destroy a w = Some ?w"
    using assms(2,3) k by (simp add: handle_keyboard_destroy_def)
  have "wl_list_remove a l = filter (\<lambda>b. b \<noteq> a) l" using wl.elems_unlink [of l a] l by simp
  then have k: "keyboards ?w = Some (filter (\<lambda>b. b \<noteq> a) l)" by simp
  have "kb.tracked ?w" by (rule kb.tracked_drop [OF assms(1,2) _ k]) simp_all
  with h k show ?thesis by (intro exI [of _ ?w]) simp
qed

lemma free_keyboards_effect:
  assumes "kb.tracked w" "keyboards w = Some l"
  shows "\<exists>w'. free_keyboards l w = Some w' \<and> kb.tracked w' \<and> keyboards w' = Some [] \<and> kbds w' = Map.empty \<and>
    calls w' = calls w \<and> cursor w' = cursor w \<and> xcursor_mgr w' = xcursor_mgr w"
  by (rule kb.tracked_drop_all [where drop_list = free_keyboards and drop_one = handle_keyboard_destroy and
        P = "\<lambda>w w'. calls w' = calls w \<and> cursor w' = cursor w \<and> xcursor_mgr w' = xcursor_mgr w"])
     (use assms keyboard_destroy_effect in auto)

lemma unlisten_linked_effect:
  "distinct (lregs w) \<Longrightarrow> \<exists>ls. unlisten_linked ow fs w = Some (w\<lparr>lregs := ls\<rparr>) \<and> distinct ls \<and>
     set ls = set (lregs w) - Pair ow ` set fs"
proof (induction fs arbitrary: w)
  case Nil
  show ?case by (intro exI [of _ "lregs w"]) (use Nil in simp)
next
  case (Cons f fs)
  show ?case
  proof (cases "(ow, f) \<in> set (lregs w)")
    case True
    let ?w = "w\<lparr>lregs := remove1 (ow, f) (lregs w)\<rparr>"
    from Cons.IH [of ?w] Cons.prems obtain ls where "unlisten_linked ow fs ?w = Some (?w\<lparr>lregs := ls\<rparr>)"
      "distinct ls" "set ls = set (lregs ?w) - Pair ow ` set fs" by auto
    with True Cons.prems show ?thesis by (auto simp: unlisten_def set_remove1_eq)
  next
    case False
    with Cons.IH [OF Cons.prems] show ?thesis by auto
  qed
qed

text \<open>The objects of the input module.\<close>

definition input_objects :: "world \<Rightarrow> (kind \<times> addr) list" where
  "input_objects w = (case xcursor_mgr w of None \<Rightarrow> [] | Some m \<Rightarrow> [(K_xcursor_mgr, m)]) @
     (case cursor w of None \<Rightarrow> [] | Some c \<Rightarrow> [(K_cursor, c)])"

definition input_torn_down :: "world \<Rightarrow> bool" where
  "input_torn_down w \<longleftrightarrow> kbds w = Map.empty \<and> seat w = None \<and> cursor w = None \<and> xcursor_mgr w = None \<and>
     (\<forall>kb f. (Of_Keyboard kb, f) \<notin> set (lregs w)) \<and>
     (\<forall>f \<in> set input_listeners. (Of_Compositor, f) \<notin> set (lregs w))"

lemma input_destroy_effect:
  assumes "kb.tracked w"
  shows "\<exists>w' cs. zen_input_destroy CPTR w = Some w' \<and> input_torn_down w' \<and> calls w' = calls w @ cs \<and>
    (\<forall>R. replay (input_objects w @ R) cs = Some R)"
proof -
  from assms obtain l where l: "keyboards w = Some l" unfolding kb.tracked_def by blast
  from free_keyboards_effect [OF assms l] obtain v where v: "free_keyboards l w = Some v" "kb.tracked v"
    "kbds v = Map.empty" "calls v = calls w" "cursor v = cursor w" "xcursor_mgr v = xcursor_mgr w" by blast
  from unlisten_linked_effect [OF kb.tracked_lregs(1) [OF v(2)], of Of_Compositor input_listeners]
  obtain ls where ls: "unlisten_linked Of_Compositor input_listeners v = Some (v\<lparr>lregs := ls\<rparr>)"
    "set ls = set (lregs v) - Pair Of_Compositor ` set input_listeners" by blast
  let ?cs = "release_opt K_xcursor_mgr (xcursor_mgr w) @ release_opt K_cursor (cursor w)"
  let ?w = "v\<lparr>lregs := ls, xcursor_mgr := None, cursor := None, seat := None, calls := calls w @ ?cs\<rparr>"
  have "zen_input_destroy CPTR w = Some ?w"
    using l v ls(1) by (cases "xcursor_mgr w"; cases "cursor w") (simp_all add: zen_input_destroy_def emits_def)
  moreover have "input_torn_down ?w"
    using v(3) ls(2) kb.tracked_empty [OF v(2,3)] by (auto simp: input_torn_down_def)
  moreover have "\<forall>R. replay (input_objects w @ R) ?cs = Some R"
    by (simp add: input_objects_def split: option.split)
  ultimately show ?thesis by (intro exI [of _ ?w] exI [of _ ?cs]) simp
qed

text \<open>
  Tearing down input is complete: no fault, every keyboard is freed and none of its
  listeners stays linked, the module's own listeners are unlinked before the cursor goes,
  and the cursor and its theme are each given back once.
\<close>

theorem input_teardown_complete:
  assumes "keyboards_wf w"
  shows "\<exists>w' cs. zen_input_destroy CPTR w = Some w' \<and> kbds w' = Map.empty \<and> seat w' = None \<and>
    cursor w' = None \<and> xcursor_mgr w' = None \<and> (\<forall>kb f. (Of_Keyboard kb, f) \<notin> set (lregs w')) \<and>
    (\<forall>f \<in> set input_listeners. (Of_Compositor, f) \<notin> set (lregs w')) \<and>
    calls w' = calls w @ cs \<and> replay (input_objects w @ R) cs = Some R"
  using input_destroy_effect [OF assms [unfolded keyboards_wf_tracked]] by (auto simp: input_torn_down_def)

text \<open>A state before \<open>zen_input_init\<close>.\<close>

definition input_fresh :: "world \<Rightarrow> bool" where
  "input_fresh w \<longleftrightarrow> kbds w = Map.empty \<and> distinct (lregs w) \<and> cursor w = None \<and> xcursor_mgr w = None \<and>
     (keyboards w = None \<or> keyboards w = Some []) \<and>
     (\<forall>a f. (Of_Keyboard a, f) \<notin> set (lregs w)) \<and>
     (\<forall>f \<in> set input_listeners. (Of_Compositor, f) \<notin> set (lregs w))"

lemma input_listeners_distinct: "distinct input_listeners"
  by (simp add: input_listeners_def)

lemma init_failed_effect:
  assumes "kb.tracked w" "\<And>R. replay R ds = Some (input_objects w @ R)" "calls w = calls w0 @ ds"
  shows "\<exists>w' cs. input_init_failed CPTR w = Some (w', -1) \<and> input_torn_down w' \<and>
    calls w' = calls w0 @ cs \<and> (\<forall>R. replay R cs = Some R)"
proof -
  from input_destroy_effect [OF assms(1)] obtain w' cs where
    "zen_input_destroy CPTR w = Some w'" "input_torn_down w'" "calls w' = calls w @ cs"
    "\<forall>R. replay (input_objects w @ R) cs = Some R" by blast
  with assms(2,3) show ?thesis
    by (intro exI [of _ w'] exI [of _ "ds @ cs"]) (simp add: input_init_failed_def replay_append)
qed

lemma fresh_tracked:
  assumes "input_fresh w" "kbds w' = Map.empty" "lregs w' = lregs w" "keyboards w' = Some []"
  shows "kb.tracked w'"
  using assms by (auto simp: kb.tracked_def input_fresh_def)

text \<open>
  Initialising input succeeds exactly when the display exists and the seat, the cursor and
  the cursor theme can be created; then all five listeners are linked and the cursor and
  theme are held. When it fails, everything created on the way is given back and nothing
  stays linked.
\<close>

theorem input_init_contract:
  assumes "input_fresh w" "keyboards w = Some []" "backend w = Some b"
  shows "\<exists>w' r cs. zen_input_init E CPTR w = Some (w', r) \<and> calls w' = calls w @ cs \<and>
    (r = 0 \<longleftrightarrow> wl_display w \<noteq> None \<and> i_seat_create E \<noteq> None \<and> i_cursor_create E \<noteq> None \<and>
       i_xcursor_create E \<noteq> None) \<and>
    (if r = 0 then keyboards_wf w' \<and> (\<forall>f \<in> set input_listeners. (Of_Compositor, f) \<in> set (lregs w')) \<and>
       replay R cs = Some (input_objects w' @ R)
     else r = -1 \<and> input_torn_down w' \<and> replay R cs = Some R)"
proof -
  have fail: "?thesis" if "zen_input_init E CPTR w = input_init_failed CPTR v" "kbds v = Map.empty"
      "lregs v = lregs w" "keyboards v = Some []" "\<And>R. replay R ds = Some (input_objects v @ R)"
      "calls v = calls w @ ds" "\<not> (wl_display w \<noteq> None \<and> i_seat_create E \<noteq> None \<and>
         i_cursor_create E \<noteq> None \<and> i_xcursor_create E \<noteq> None)" for v ds
  proof -
    from init_failed_effect [OF fresh_tracked [OF assms(1) that(2-4)] that(5,6)] obtain w' cs where
      "input_init_failed CPTR v = Some (w', -1)" "input_torn_down w'" "calls w' = calls w @ cs"
      "\<forall>R. replay R cs = Some R" by blast
    with that(1,7) show ?thesis by (intro exI [of _ w'] exI [of _ "-1"] exI [of _ cs]) auto
  qed
  have fr: "kbds w = Map.empty" "cursor w = None" "xcursor_mgr w = None"
    using assms(1) by (simp_all add: input_fresh_def)
  let ?v = "w\<lparr>keyboards := Some [], seat := i_seat_create E\<rparr>"
  show ?thesis
  proof (cases "wl_display w")
    case None
    then show ?thesis
      by (intro fail [of w "[]"]) (use fr assms in \<open>simp_all add: zen_input_init_def input_objects_def\<close>)
  next
    case disp: (Some d)
    show ?thesis
    proof (cases "i_seat_create E")
      case None
      with disp show ?thesis
        by (intro fail [of ?v "[]"]) (use fr in \<open>simp_all add: zen_input_init_def input_objects_def wl_list_init_def\<close>)
    next
      case seat: (Some s)
      show ?thesis
      proof (cases "i_cursor_create E")
        case None
        with disp seat show ?thesis
          by (intro fail [of "?v\<lparr>cursor := None\<rparr>" "[]"])
             (use fr in \<open>simp_all add: zen_input_init_def input_objects_def wl_list_init_def\<close>)
      next
        case cur: (Some c)
        show ?thesis
        proof (cases "i_xcursor_create E")
          case None
          let ?ds = "[Acquire K_cursor c, Cursor (Cursor_attach_output_layout (output_layout w))]"
          from None disp seat cur show ?thesis
            by (intro fail [of "?v\<lparr>cursor := Some c, calls := calls w @ ?ds, xcursor_mgr := None\<rparr>" ?ds])
               (use fr in \<open>simp_all add: zen_input_init_def input_objects_def wl_list_init_def emits_def\<close>)
        next
          case xc: (Some m)
          let ?ds = "[Acquire K_cursor c, Cursor (Cursor_attach_output_layout (output_layout w)), Acquire K_xcursor_mgr m]"
          let ?fs = "map (Pair Of_Compositor) input_listeners"
          let ?w = "?v\<lparr>cursor := Some c, xcursor_mgr := Some m, lregs := lregs w @ ?fs, calls := calls w @ ?ds\<rparr>"
          have n: "(Of_Compositor, f) \<notin> set (lregs w)" if "f \<in> set input_listeners" for f
            using assms(1) that by (simp add: input_fresh_def)
          have "zen_input_init E CPTR w = Some (?w, 0)"
            using disp seat cur xc assms(3) n
            by (simp add: zen_input_init_def wl_list_init_def emits_def listen_def input_listeners_def)
          moreover have "keyboards_wf ?w"
            using assms(1) n input_listeners_distinct
            by (auto simp: keyboards_wf_def input_fresh_def distinct_map inj_on_def)
          moreover have "replay R ?ds = Some (input_objects ?w @ R)" by (simp add: input_objects_def)
          ultimately show ?thesis using disp seat cur xc
            by (intro exI [of _ ?w] exI [of _ 0] exI [of _ ?ds]) auto
        qed
      qed
    qed
  qed
qed

text \<open>
  A keyboard that is plugged in is tracked: it is on the list with its three listeners
  linked, the seat uses it, and the seat advertises pointer and keyboard.
\<close>

theorem new_keyboard_tracked:
  assumes "keyboards_wf w" "seat w = Some s" "i_calloc E = Some a" "kbds w a = None"
  shows "\<exists>w'. handle_new_input E WLR_INPUT_DEVICE_KEYBOARD d w = Some w' \<and> keyboards_wf w' \<and>
    kbds w' = (kbds w)(a \<mapsto> \<lparr>wlr_keyboard = i_wlr_keyboard E\<rparr>) \<and>
    (\<forall>f \<in> set keyboard_listeners. (Of_Keyboard a, f) \<in> set (lregs w')) \<and>
    (\<exists>cs. calls w' = calls w @ cs @ [Seat (Set_keyboard (i_wlr_keyboard E)), Seat (Set_capabilities 3)])"
proof -
  from assms(1) have t: "kb.tracked w" by (simp add: keyboards_wf_tracked)
  then obtain l where l: "keyboards w = Some l" unfolding kb.tracked_def by blast
  let ?k = "i_wlr_keyboard E"
  let ?cs = "(if i_keymap_ok E then [Device (Set_keymap ?k)] else []) @ [Device (Set_repeat_info ?k 25 600)]"
  let ?h = "(kbds w)(a \<mapsto> \<lparr>wlr_keyboard = ?k\<rparr>)"
  let ?ls = "lregs w @ map (Pair (Of_Keyboard a)) keyboard_listeners"
  define v where "v = w\<lparr>kbds := ?h, calls := calls w @ ?cs\<rparr>"
  have lv: "listen_all (Of_Keyboard a) keyboard_listeners v = Some (v\<lparr>lregs := ?ls\<rparr>)"
    by (rule kb.tracked_listen [OF t assms(4)]) (simp add: v_def)
  let ?w = "v\<lparr>lregs := ?ls, keyboards := Some (a # l),
    calls := calls w @ ?cs @ [Seat (Set_keyboard ?k), Seat (Set_capabilities 3)]\<rparr>"
  have "attach_keyboard E a w = Some (v\<lparr>lregs := ?ls, keyboards := Some (a # l),
      calls := calls w @ ?cs @ [Seat (Set_keyboard ?k)]\<rparr>)"
    unfolding attach_keyboard_def
    using lv assms(2) l by (simp add: v_def emits_def ZEN_KB_REPEAT_RATE_def ZEN_KB_REPEAT_DELAY_def
        wl_list_insert_def Let_def)
  then have h: "handle_new_input E WLR_INPUT_DEVICE_KEYBOARD d w = Some ?w"
    using assms(2,3) by (simp add: handle_new_input_def update_capabilities_def v_def emits_def
        WL_SEAT_CAPABILITY_POINTER_def WL_SEAT_CAPABILITY_KEYBOARD_def)
  have "kb.tracked ?w"
    by (rule kb.tracked_add [OF t l assms(4), where l' = "a # l" and obj = "\<lparr>wlr_keyboard = ?k\<rparr>"])
       (use kb.tracked_list [OF t l] assms(4) in \<open>auto simp: v_def\<close>)
  with h show ?thesis
    by (intro exI [of _ ?w]) (auto simp: keyboards_wf_tracked v_def)
qed

section \<open>A concrete seat\<close>

definition demo_seat :: "world \<Rightarrow> world" where
  "demo_seat w = w\<lparr>seat := Some 30, cursor := Some 31, scene := Some 2, output_layout := Some 3,
     keyboards := Some [40], kbds := [40 \<mapsto> \<lparr>wlr_keyboard = 41\<rparr>],
     lregs := lregs w @ map (Pair (Of_Keyboard 40)) keyboard_listeners, keybindings := Some []\<rparr>"

definition demo_in :: in_env where
  "demo_in = \<lparr>i_xdg = demo_xdg, i_kb = demo_kb [], i_lock = (\<lambda>_. demo_env), i_syms = (\<lambda>_. [0x61]),
     i_mods = 0, i_pos = (25, 35), i_node_path = [None, Some 11], i_surface = None, i_local = (1, 2),
     i_focused_client = None, i_calloc = Some 42, i_wlr_keyboard = 43, i_keymap_ok = True,
     i_seat_create = Some 30, i_cursor_create = Some 31, i_xcursor_create = Some 32\<rparr>"

lemma demo_seat_lock_wf: "lock_wf (demo_seat demo_locked)" "locked (demo_seat demo_locked)"
proof -
  have "password_ok (demo_seat demo_locked) = password_ok demo_locked"
    by (rule password_ok_cong) (simp_all add: demo_seat_def)
  with demo_locked_wf show "lock_wf (demo_seat demo_locked)" "locked (demo_seat demo_locked)"
    by (simp_all add: lock_wf_def demo_seat_def)
qed

lemma demo_seat_keyboards: "keyboards_wf (demo_seat zero_world)"
  by (auto simp: keyboards_wf_def demo_seat_def zero_world_def keyboard_listeners_def)

lemma demo_seat_windows: "xdg_wf (demo_seat demo_windows\<lparr>locked := True\<rparr>)"
proof -
  have d: "distinct (lregs demo_windows)" "\<And>a f. (Of_Keyboard a, f) \<notin> set (lregs demo_windows)"
    using xdg_wf_lregs(1) [OF demo_windows_wf] by (auto simp: demo_windows_def)
  show ?thesis
  proof (rule xdg_wfI)
    show "toplevels (demo_seat demo_windows\<lparr>locked := True\<rparr>) = Some [10, 11]"
      by (simp add: demo_seat_def demo_windows_simps)
    show "distinct (lregs (demo_seat demo_windows\<lparr>locked := True\<rparr>))"
      using d by (auto simp: demo_seat_def keyboard_listeners_def)
    show "activated (calls (demo_seat demo_windows\<lparr>locked := True\<rparr>)) =
        (\<lambda>x. focused_handle (demo_seat demo_windows\<lparr>locked := True\<rparr>) = Some x)"
      by (auto simp: demo_seat_def demo_windows_simps focused_handle_def activated_def fun_eq_iff)
  qed (auto simp: demo_seat_def demo_windows_def zero_world_def demo_window_def split: if_splits)
qed

theorem locked_keys_stay_private_witness:
  "\<exists>w' cs. handle_keyboard_key demo_in 40 7 30 True (demo_seat demo_locked) = Some w' \<and>
     calls w' = calls (demo_seat demo_locked) @ cs \<and> (\<forall>c \<in> set cs. \<not> client_input c)"
proof -
  have "kbds (demo_seat demo_locked) 40 = Some \<lparr>wlr_keyboard = 41\<rparr>" by (simp add: demo_seat_def)
  from locked_keys_stay_private [OF demo_seat_lock_wf this, of demo_in 7 30 True] show ?thesis by blast
qed

theorem key_consumed_or_forwarded_witness:
  "handle_keyboard_key demo_in 40 7 30 True (demo_seat zero_world) =
     Some (emits [Keyboard (Keyboard_key 7 30 True)] (demo_seat zero_world))"
  using key_consumed_or_forwarded [of "demo_seat zero_world" 40 "\<lparr>wlr_keyboard = 41\<rparr>" "[]" 30 demo_in 30 None 7 True]
  by (simp add: demo_seat_def zero_world_def demo_in_def)

theorem modifiers_reach_client_while_locked_witness:
  "\<exists>w'. handle_keyboard_modifiers 40 (demo_seat demo_locked) = Some w' \<and> locked w' \<and>
     Keyboard (Keyboard_modifiers 41) \<in> set (calls w')"
proof -
  have "kbds (demo_seat demo_locked) 40 = Some \<lparr>wlr_keyboard = 41\<rparr>" "seat (demo_seat demo_locked) = Some 30"
    by (simp_all add: demo_seat_def)
  from modifiers_reach_client_while_locked [OF demo_seat_lock_wf(2) this] show ?thesis by auto
qed

theorem button_reaches_client_while_locked_witness:
  "\<exists>w'. handle_cursor_button demo_in 7 272 True (demo_seat demo_windows\<lparr>locked := True\<rparr>) = Some w' \<and>
     locked w' \<and> focused_toplevel w' = Some 11"
proof -
  let ?w = "demo_seat demo_windows\<lparr>locked := True\<rparr>"
  have w: "locked ?w" "scene ?w = Some 2" "cursor ?w = Some 31" "seat ?w = Some 30"
    "toplevel_at_scene_node (i_node_path demo_in) = Some 11" "tops ?w 11 = Some (demo_window 11)"
    "xdg_toplevel (demo_window 11) = Some 111" "focused_toplevel ?w \<noteq> Some 11" "x_keyboard (i_xdg demo_in)"
    by (simp_all add: demo_seat_def demo_in_def toplevel_at_scene_node_def demo_windows_simps)
       (simp_all add: demo_xdg_def)
  from button_reaches_client_while_locked [OF demo_seat_windows w, of 7 272] show ?thesis by blast
qed

theorem window_follows_cursor_witness:
  "zen_input_process_cursor_motion demo_in CPTR 7 (demo_seat demo_windows\<lparr>grabbed_toplevel := Some 10,
     grab_x := of_int 20, grab_y := of_int 20, grab_node_x := 100, grab_node_y := 200\<rparr>) =
   Some (emits [Node (Set_position 210 105 215)] (demo_seat demo_windows\<lparr>grabbed_toplevel := Some 10,
     grab_x := of_int 20, grab_y := of_int 20, grab_node_x := 100, grab_node_y := 200\<rparr>))"
proof -
  let ?w = "demo_seat demo_windows\<lparr>grabbed_toplevel := Some 10,
     grab_x := of_int 20, grab_y := of_int 20, grab_node_x := 100, grab_node_y := 200\<rparr>"
  have "zen_input_process_cursor_motion demo_in CPTR 7 ?w = Some (emits [Node (Set_position 210
      (grab_node_x ?w + (25 - 20)) (grab_node_y ?w + (35 - 20)))] ?w)"
    by (rule window_follows_cursor [where cu = 31 and s = 30 and lay = 3 and g = 10 and t = "demo_window 10"])
       (simp_all add: demo_seat_def demo_windows_simps demo_in_def in_int_def INT_MAX_def INT_MIN_def)
  then show ?thesis by simp
qed

theorem input_teardown_complete_witness:
  "\<exists>w' cs. zen_input_destroy CPTR (demo_seat zero_world) = Some w' \<and> kbds w' = Map.empty \<and>
     calls w' = calls (demo_seat zero_world) @ cs \<and> replay (input_objects (demo_seat zero_world)) cs = Some []"
  using input_teardown_complete [OF demo_seat_keyboards, of "[]"] by auto

theorem input_init_contract_witness:
  "\<exists>w'. zen_input_init demo_in CPTR (zero_world\<lparr>wl_display := Some 1, backend := Some 2, keyboards := Some []\<rparr>) =
     Some (w', 0) \<and> keyboards_wf w'"
proof -
  let ?w = "zero_world\<lparr>wl_display := Some 1, backend := Some 2, keyboards := Some []\<rparr>"
  have "input_fresh ?w" "keyboards ?w = Some []" "backend ?w = Some 2"
    by (simp_all add: input_fresh_def zero_world_def)
  from input_init_contract [OF this, of demo_in "[]"] show ?thesis by (auto simp: demo_in_def split: if_splits)
qed

theorem new_keyboard_tracked_witness:
  "\<exists>w'. handle_new_input demo_in WLR_INPUT_DEVICE_KEYBOARD 9 (demo_seat zero_world) = Some w' \<and>
     keyboards_wf w' \<and> kbds w' 42 = Some \<lparr>wlr_keyboard = 43\<rparr>"
proof -
  have "seat (demo_seat zero_world) = Some 30" "i_calloc demo_in = Some 42" "kbds (demo_seat zero_world) 42 = None"
    by (simp_all add: demo_seat_def demo_in_def)
  from new_keyboard_tracked [OF demo_seat_keyboards this, of 9] show ?thesis by (auto simp: demo_in_def)
qed

end
