(* ===== verification/Zen_Lock_Runs.thy ===== *)
theory Zen_Lock_Runs
  imports Zen_Lock
begin

text \<open>
  Runs of the screen lock over sequences of events: the invariant, the objects it holds, and
  what it takes to unlock; and the initialisation of the module.
\<close>

section \<open>Runs of the lock\<close>

text \<open>
  The events that reach the lock: keys, the idle timer, logind's signal, a client's lock
  request. Each comes with the answers of the outside; the allocator returns fresh memory.
\<close>

datatype lock_event = Key u32 u32 bool | Idle_timeout | Logind_lock | Client_lock addr

definition env_fresh :: "lock_env \<Rightarrow> world \<Rightarrow> bool" where
  "env_fresh E w \<longleftrightarrow> (case lock_calloc E of None \<Rightarrow> True | Some a \<Rightarrow> bufs w a = None)"

inductive lock_step :: "world \<Rightarrow> lock_event \<times> lock_env \<Rightarrow> world \<Rightarrow> bool" where
  step_key: "zen_lock_handle_key E kc ks p w = Some (w', r) \<Longrightarrow> lock_step w (Key kc ks p, E) w'"
| step_idle: "env_fresh E w \<Longrightarrow> idle_timeout_cb E w = Some (w', r) \<Longrightarrow>
    lock_step w (Idle_timeout, E) w'"
| step_logind: "env_fresh E w \<Longrightarrow> lock_signal_cb E w = Some (w', r) \<Longrightarrow>
    lock_step w (Logind_lock, E) w'"
| step_client: "lock_step w (Client_lock l, E) (handle_new_lock l w)"

inductive_cases lock_step_cases: "lock_step w e w'"

inductive lock_run :: "world \<Rightarrow> (lock_event \<times> lock_env) list \<Rightarrow> world \<Rightarrow> bool" where
  run_nil: "lock_run w [] w"
| run_snoc: "lock_run w es v \<Longrightarrow> lock_step v e w' \<Longrightarrow> lock_run w (es @ [e]) w'"

text \<open>The scene graph the lock draws into is not touched by the lock itself.\<close>

definition has_parent :: "world \<Rightarrow> bool" where
  "has_parent w \<longleftrightarrow> shell_overlay_tree w \<noteq> None \<or> scene w \<noteq> None"

lemma key_evolves:
  assumes "lock_wf w" "zen_lock_handle_key E kc ks p w = Some (w', r)"
  shows "lock_evolves w w'"
proof (cases "locked w \<and> p")
  case True
  with assms key_refinement [of w E kc ks] show ?thesis by (auto simp: key_refines_def)
next
  case False
  with assms show ?thesis by (auto simp: zen_lock_handle_key_def lock_evolves_refl)
qed

lemma activate_None_parent:
  assumes "\<not> locked w" "\<not> has_parent w" "zen_lock_activate E CPTR w = Some w'"
  shows "w' = (lock_pending E w)\<lparr>locked := False\<rparr>"
  using assms by (auto simp: activate_unfold has_parent_def split: option.splits)

lemma activate_evolves:
  assumes "lock_wf w" "env_fresh E w" "zen_lock_activate E CPTR w = Some w'"
  shows "lock_evolves w w' \<and> (locked w \<longrightarrow> locked w')"
proof (cases "locked w")
  case True
  with assms show ?thesis by (simp add: zen_lock_activate_def lock_evolves_refl)
next
  case False
  have "activation_outcome E w w'"
  proof (cases "has_parent w")
    case True
    have "bufs w a = None" if "lock_calloc E = Some a" for a
      using assms(2) that by (simp add: env_fresh_def)
    with activate_outcome [of w E] assms True False show ?thesis by (auto simp: has_parent_def)
  next
    case np: False
    show ?thesis
      by (rule activation_denied [where cs = "[]"])
         (use assms(1) False activate_None_parent [OF False np assms(3)] in
           \<open>simp_all add: password_ok_cong [of _ "lock_pending E w"]\<close>)
  qed
  with False show ?thesis by (simp add: activation_outcome_def)
qed

lemma lock_step_evolves:
  assumes "lock_step w e w'" "lock_wf w"
  shows "lock_evolves w w'"
  using assms(1)
proof cases
  case (step_key E kc ks p r)
  with assms(2) show ?thesis by (auto intro: key_evolves)
next
  case (step_idle E r)
  then have "zen_lock_activate E CPTR w = Some w'"
    by (auto simp: idle_timeout_cb_def bind_eq_Some_conv)
  with step_idle assms(2) show ?thesis using activate_evolves by blast
next
  case (step_logind E r)
  then have "zen_lock_activate E CPTR w = Some w'"
    by (auto simp: lock_signal_cb_def bind_eq_Some_conv)
  with step_logind assms(2) show ?thesis using activate_evolves by blast
next
  case (step_client l E)
  with assms(2) show ?thesis by (auto simp: handle_new_lock_def lock_evolves_def)
qed

lemma lock_run_evolves: "lock_run w es w' \<Longrightarrow> lock_wf w \<Longrightarrow> lock_evolves w w'"
proof (induction rule: lock_run.induct)
  case (run_nil w)
  then show ?case by (rule lock_evolves_refl)
next
  case (run_snoc w es v e w')
  then have "lock_evolves w v" by simp
  moreover have "lock_evolves v w'"
    using run_snoc.hyps(2) \<open>lock_evolves w v\<close> by (auto simp: lock_evolves_def dest: lock_step_evolves)
  ultimately show ?case by (rule lock_evolves_trans)
qed

text \<open>
  C18. Over any sequence of keys, timeouts, logind signals and client lock requests, the
  password buffer stays NUL-terminated within its 256 bytes with its length counted
  correctly, the lock buffer is live exactly while the screen is locked, and the library
  objects are neither leaked nor released twice: replaying all calls made since the start
  turns the objects held at the start into exactly those held now.
\<close>

theorem lock_run_invariant:
  assumes "lock_run w es w'" "lock_wf w"
  shows "lock_wf w' \<and> (\<exists>cs. calls w' = calls w @ cs \<and>
    replay (lock_objects w @ R) cs = Some (lock_objects w' @ R))"
  using lock_run_evolves [OF assms] by (auto simp: lock_evolves_def)

text \<open>An event that unlocks is a return key whose text PAM accepted.\<close>

lemma unlock_step:
  assumes "lock_step w (ev, E) w'" "lock_wf w" "locked w" "\<not> locked w'"
  shows "\<exists>kc ks. ev = Key kc ks True \<and> (ks = 0xff0d \<or> ks = 0xff8d) \<and>
    pam_authenticate_password (lock_pam E) (c_str (s_password w))"
  using assms(1)
proof cases
  case (step_key kc ks p r)
  have p: p
  proof (rule ccontr)
    assume "\<not> p"
    with step_key assms(3,4) show False by (auto simp: zen_lock_handle_key_def)
  qed
  with step_key key_refinement [OF assms(2,3), of E kc ks] assms(3,4) show ?thesis
    by (auto simp: key_refines_def lock_abs_of_def split: if_splits)
next
  case (step_idle r)
  then have "zen_lock_activate E CPTR w = Some w'"
    by (auto simp: idle_timeout_cb_def bind_eq_Some_conv)
  with activate_evolves [OF assms(2) step_idle(2)] assms(3,4) show ?thesis by blast
next
  case (step_logind r)
  then have "zen_lock_activate E CPTR w = Some w'"
    by (auto simp: lock_signal_cb_def bind_eq_Some_conv)
  with activate_evolves [OF assms(2) step_logind(2)] assms(3,4) show ?thesis by blast
next
  case (step_client l)
  with assms(3,4) show ?thesis by (simp add: handle_new_lock_def)
qed

lemma unlock_requires_auth:
  assumes "lock_run w es w'" "lock_wf w" "locked w" "\<not> locked w'"
  shows "\<exists>es1 kc ks E es2 v. es = es1 @ (Key kc ks True, E) # es2 \<and> lock_run w es1 v \<and> locked v \<and>
    (ks = 0xff0d \<or> ks = 0xff8d) \<and>
    pam_authenticate_password (lock_pam E) (c_str (s_password v))"
  using assms
proof (induction rule: lock_run.induct)
  case (run_snoc w es v e w')
  obtain ev E where e: "e = (ev, E)" by (cases e)
  have "lock_wf v" using lock_run_evolves [OF run_snoc.hyps(1) run_snoc.prems(1)]
    by (simp add: lock_evolves_def)
  show ?case
  proof (cases "locked v")
    case True
    from unlock_step [OF run_snoc.hyps(2) [unfolded e] \<open>lock_wf v\<close> True run_snoc.prems(3)]
    obtain kc ks where "ev = Key kc ks True" "ks = 0xff0d \<or> ks = 0xff8d"
      "pam_authenticate_password (lock_pam E) (c_str (s_password v))" by blast
    with True run_snoc.hyps(1) e show ?thesis
      by (intro exI [of _ es] exI [of _ kc] exI [of _ ks] exI [of _ E] exI [of _ "[]"] exI [of _ v])
         simp
  next
    case False
    with run_snoc.IH [OF run_snoc.prems(1,2)] obtain es1 kc ks F es2 u where
      "es = es1 @ (Key kc ks True, F) # es2" "lock_run w es1 u" "locked u"
      "ks = 0xff0d \<or> ks = 0xff8d" "pam_authenticate_password (lock_pam F) (c_str (s_password u))"
      by blast
    then show ?thesis
      by (intro exI [of _ es1] exI [of _ kc] exI [of _ ks] exI [of _ F] exI [of _ "es2 @ [e]"]
          exI [of _ u]) simp
  qed
qed simp

text \<open>
  A locked screen can only be unlocked by PAM: in any run that starts locked and ends
  unlocked there is a return key, pressed while the screen was locked, at which PAM accepted
  exactly the text the password buffer held at that moment.
\<close>

theorem unlock_requires_authentication:
  assumes "lock_run w es w'" "lock_wf w" "locked w" "\<not> locked w'"
  shows "\<exists>es1 kc ks E es2 v. es = es1 @ (Key kc ks True, E) # es2 \<and> lock_run w es1 v \<and> locked v \<and>
    (ks = 0xff0d \<or> ks = 0xff8d) \<and>
    pam_authenticate_password (lock_pam E) (c_str (s_password v))"
  using assms by (rule unlock_requires_auth)

text \<open>
  After every unlock, every rejected password and every escape, the password memory
  is all NUL: no character of an earlier attempt is left in the buffer.
\<close>

theorem password_wiped:
  assumes "lock_wf w" "locked w" "ks = 0xff0d \<or> ks = 0xff8d \<or> ks = 0xff1b"
  shows "\<exists>w'. zen_lock_handle_key E kc ks True w = Some (w', True) \<and>
    s_password w' = replicate 256 NUL \<and> s_password_len w' = 0"
proof (cases "ks \<noteq> 0xff1b \<and> pam_authenticate_password (lock_pam E) (c_str (s_password w))")
  case True
  with assms deactivate_Some [OF assms(1,2)] show ?thesis
    by (auto simp: zen_lock_handle_key_def)
next
  case False
  let ?v = "if ks = 0xff1b then set_show_error False (wipe_password w)
    else wipe_password (set_show_error True w)"
  have "lock_wf ?v" using assms(1) by (simp add: lock_wf_wipe)
  then obtain cs where cs: "render_lock_ui E ?v = Some (emits cs ?v)" by (rule render_lock_ui_emits)
  have "s_password ?v = replicate 256 NUL \<and> s_password_len ?v = 0"
    by (simp add: wipe_password_def set_show_error_def)
  then show ?thesis using assms(2,3) False cs
    by (cases "ks = 0xff1b") (auto simp: zen_lock_handle_key_def)
qed

lemma submit_password:
  "zen_cairo_buffer_submit p (emits cs (w\<lparr>s_password := pw\<rparr>)) =
     map_option (\<lambda>(u, r). (u\<lparr>s_password := pw\<rparr>, r)) (zen_cairo_buffer_submit p (emits cs w))"
proof (cases p)
  case (Some a)
  then show ?thesis
    by (cases "bufs w a") (auto simp: zen_cairo_buffer_submit_def emits_def split: option.split)
qed (simp add: zen_cairo_buffer_submit_def emits_def)

text \<open>
  C32. The lock screen does not show the password: what is drawn depends on the length of
  the text only. Two states that differ in the characters alone make the same calls.
\<close>

theorem lock_ui_hides_password:
  assumes "render_lock_ui E w = Some w'"
  shows "\<exists>w''. render_lock_ui E (w\<lparr>s_password := pw\<rparr>) = Some w'' \<and> calls w'' = calls w'"
proof (cases "lock_buffer (s_lock w)")
  case None
  with assms show ?thesis by (simp add: render_lock_ui_def)
next
  case (Some lb)
  from Some assms show ?thesis
    by (auto simp: render_lock_ui_def submit_password bind_eq_Some_conv split: if_splits)
qed

lemma auth_needs_pam: "pam_authenticate_password P pw \<Longrightarrow> have_pam P"
  by (simp add: pam_authenticate_password_def split: if_splits)

text \<open>
  A build without PAM never unlocks: whatever is typed, the screen stays locked.
\<close>

theorem no_pam_never_unlocks:
  assumes "lock_run w es w'" "lock_wf w" "locked w"
    and "\<And>ev E. (ev, E) \<in> set es \<Longrightarrow> \<not> have_pam (lock_pam E)"
  shows "locked w'"
proof (rule ccontr)
  assume "\<not> locked w'"
  from unlock_requires_auth [OF assms(1-3) this] obtain ev E pw where
    "(ev, E) \<in> set es" "pam_authenticate_password (lock_pam E) pw" by fastforce
  with assms(4) show False using auth_needs_pam by blast
qed

section \<open>Initialisation\<close>

text \<open>Tearing the module down gives back the buffer and the timer and forgets the rest.\<close>

lemma lock_destroy_clean:
  assumes "lock_wf w"
  shows "\<exists>w'. zen_lock_destroy sd CPTR w = Some w' \<and> lock_wf w' \<and> \<not> locked w' \<and>
    lock_mgr w' = None \<and> s_idle_timer w' = None \<and> lock_objects w' = []"
proof -
  define v where "v = (emits (release_opt K_timer (s_idle_timer w)) w)\<lparr>s_idle_timer := None\<rparr>"
  define u where "u = (if sd then (emits (release_opt K_slot (s_lock_signal_slot v)) v)
    \<lparr>s_lock_signal_slot := None\<rparr> else v)"
  have "lock_wf u = lock_wf w"
    by (simp add: u_def v_def lock_wf_def password_ok_def emits_def)
  then obtain x where x: "free_lock_buffer u = Some x"
    using free_lock_buffer_Some [of u] assms by blast
  have "s_idle_timer x = None"
  proof -
    have "s_idle_timer u = None" by (simp add: u_def v_def emits_def)
    with x show ?thesis
      by (auto simp: free_lock_buffer_def zen_cairo_buffer_destroy_def emits_def Let_def
          bind_eq_Some_conv split: option.splits)
  qed
  moreover have "zen_lock_destroy sd CPTR w = Some (wipe_password (x\<lparr>locked := False,
      active_lock := None, lock_mgr := None, s_lock := empty_lock_screen\<rparr>))"
    unfolding zen_lock_destroy_def Let_def v_def [symmetric] u_def [symmetric] x by simp
  ultimately show ?thesis
    by (simp add: lock_wf_def empty_lock_screen_def lock_objects_def)
       (simp add: wipe_password_def)
qed

lemma init_state_wf:
  "\<not> locked w \<Longrightarrow> lock_wf (wipe_password (w\<lparr>s_lock := empty_lock_screen\<rparr>)\<lparr>s_idle_timer := t,
     lock_mgr := m\<rparr>)"
  by (simp add: lock_wf_def empty_lock_screen_def password_ok_cong [of "wipe_password x\<lparr>s_idle_timer := t,
     lock_mgr := m\<rparr>" "wipe_password x" for x])

lemma lock_init_ok:
  assumes "\<not> locked w" "(Of_Module, L_new_lock) \<notin> set (lregs w)" "wl_display w \<noteq> None"
    "mgr_create E = Some m"
  shows "\<exists>w'. zen_lock_init E CPTR w = Some (w', 0) \<and> lock_wf w' \<and> \<not> locked w' \<and>
    lock_mgr w' = Some m \<and> s_idle_timer w' = add_timer E \<and>
    (\<forall>t. add_timer E = Some t \<longrightarrow> Timer_update t 300000 \<in> set (calls w'))"
proof -
  define v where "v = wipe_password (w\<lparr>s_lock := empty_lock_screen\<rparr>)\<lparr>s_idle_timer := None,
    lock_mgr := Some m\<rparr>"
  have v: "lock_wf v" "\<not> locked v" "lock_mgr v = Some m" "s_idle_timer v = None" "lregs v = lregs w"
    using assms(1) init_state_wf [of w "Some m" None] by (simp_all add: v_def wipe_password_def)
  define v1 where "v1 = v\<lparr>lregs := lregs v @ [(Of_Module, L_new_lock)]\<rparr>"
  define u where "u = (case add_timer E of None \<Rightarrow> v1
    | Some t \<Rightarrow> emits [Acquire K_timer t, Timer_update t ZEN_LOCK_IDLE_TIMEOUT_MS]
        (v1\<lparr>s_idle_timer := Some t\<rparr>))"
  define x where "x = (if have_systemd E \<and> bus u \<noteq> None \<and> fst (match_signal E) \<ge> 0
    then (emits (case snd (match_signal E) of None \<Rightarrow> [] | Some s \<Rightarrow> [Acquire K_slot s]) u)
      \<lparr>s_lock_signal_slot := snd (match_signal E)\<rparr> else u)"
  have l: "listen (Of_Module, L_new_lock) v = Some v1"
    using assms(2) v(5) by (simp add: listen_def v1_def)
  from assms(3) obtain d where d: "wl_display w = Some d" by blast
  have "zen_lock_init E CPTR w = Some (x, 0)"
    unfolding zen_lock_init_def Let_def assms(4) v_def [symmetric]
    by (auto simp: d l v(3) u_def [symmetric] x_def)
  moreover have wf1: "lock_wf v1" using v(1) by (simp add: v1_def lock_wf_def password_ok_def)
  moreover have u: "lock_wf u \<and> \<not> locked u \<and> lock_mgr u = Some m \<and> s_idle_timer u = add_timer E \<and>
      (\<forall>t. add_timer E = Some t \<longrightarrow> Timer_update t 300000 \<in> set (calls u))"
  proof (cases "add_timer E")
    case None
    with wf1 v show ?thesis by (simp add: u_def v1_def)
  next
    case (Some t)
    have "lock_wf (v1\<lparr>s_idle_timer := Some t\<rparr>)"
      using wf1 by (simp add: lock_wf_def password_ok_def)
    with Some v show ?thesis by (simp add: u_def v1_def lock_consts) (simp add: emits_def)
  qed
  moreover have "lock_wf (u\<lparr>s_lock_signal_slot := sl\<rparr>)" for sl
    using u by (simp add: lock_wf_def password_ok_def)
  ultimately show ?thesis
    by (intro exI [of _ x]) (auto simp: x_def emits_def lock_wf_def password_ok_def)
qed

text \<open>
  Initialising the lock module of an unlocked compositor succeeds exactly when there is
  a display and the lock manager can be created; then the lock is well-formed and the idle
  timer, if the event loop gave one, is armed for 300 seconds. On failure the module is
  torn down again and holds nothing.
\<close>

theorem lock_init_contract:
  assumes "\<not> locked w" "(Of_Module, L_new_lock) \<notin> set (lregs w)" "lock_wf w"
  shows "\<exists>w' r. zen_lock_init E CPTR w = Some (w', r) \<and> lock_wf w' \<and> \<not> locked w' \<and>
    (r = 0 \<longleftrightarrow> wl_display w \<noteq> None \<and> mgr_create E \<noteq> None) \<and>
    (if r = 0 then lock_mgr w' \<noteq> None \<and> s_idle_timer w' = add_timer E \<and>
        (\<forall>t. add_timer E = Some t \<longrightarrow> Timer_update t 300000 \<in> set (calls w'))
     else r = -1 \<and> lock_mgr w' = None \<and> s_idle_timer w' = None \<and> lock_objects w' = [])"
proof (cases "wl_display w = None")
  case True
  obtain w' where "zen_lock_destroy (have_systemd E) CPTR w = Some w'" "lock_wf w'" "\<not> locked w'"
    "lock_mgr w' = None" "s_idle_timer w' = None" "lock_objects w' = []"
    using lock_destroy_clean [OF assms(3)] by blast
  with True show ?thesis by (intro exI [of _ w'] exI [of _ "-1"]) (simp add: zen_lock_init_def)
next
  case disp: False
  show ?thesis
  proof (cases "mgr_create E")
    case None
    obtain w' where "zen_lock_destroy (have_systemd E) CPTR (wipe_password
        (w\<lparr>s_lock := empty_lock_screen\<rparr>)\<lparr>s_idle_timer := None, lock_mgr := None\<rparr>) = Some w'"
      "lock_wf w'" "\<not> locked w'" "lock_mgr w' = None" "s_idle_timer w' = None" "lock_objects w' = []"
      using lock_destroy_clean [OF init_state_wf [OF assms(1)]] by blast
    moreover from disp obtain d where "wl_display w = Some d" by blast
    ultimately show ?thesis using None
      by (intro exI [of _ w'] exI [of _ "-1"]) (simp add: zen_lock_init_def)
  next
    case (Some m)
    with lock_init_ok [OF assms(1,2) disp Some] disp show ?thesis by auto
  qed
qed

text \<open>
  The conversation answers every prompt of PAM with the password, echoing or not,
  every other message with NULL, and one answer per message.
\<close>

theorem pam_conversation_answers:
  assumes "conv_calloc_ok P" "\<And>i. conv_strdup_ok P i"
  shows "pam_conv_fn P (Some pw) msgs = (PAM_SUCCESS,
    map (\<lambda>m. if m = PAM_OTHER_STYLE then None else Some pw) msgs)"
proof -
  have "map (\<lambda>(i, style). if style = PAM_PROMPT_ECHO_OFF \<or> style = PAM_PROMPT_ECHO_ON
          then if conv_strdup_ok P i then Some (case Some pw of Some p \<Rightarrow> p | None \<Rightarrow> '''') else None
          else None) (enumerate n msgs) =
        map (\<lambda>m. if m = PAM_OTHER_STYLE then None else Some pw) msgs" for n
  proof (induction msgs arbitrary: n)
    case (Cons m msgs)
    then show ?case using assms(2) by (cases m) simp_all
  qed simp
  then show ?thesis unfolding pam_conv_fn_def using assms(1) by (simp only: not_True_eq_False if_False)
qed

text \<open>One step of a run: the return key on the typed password.\<close>

lemma demo_unlock_run:
  "\<exists>w'. lock_run demo_typed [(Key 36 0xff0d True, demo_env)] w' \<and> \<not> locked w'"
proof -
  from key_refinement [OF demo_typed_wf(1,2), of demo_env 36 "0xff0d"] obtain w' where
    "zen_lock_handle_key demo_env 36 0xff0d True demo_typed = Some (w', True)"
    "lock_abs_of w' = lock_spec_key (pam_authenticate_password (lock_pam demo_env)) 0xff0d
       (lock_abs_of demo_typed)" by (auto simp: key_refines_def)
  moreover have "lock_pam demo_env = demo_pam" by (simp add: demo_env_def)
  ultimately have "lock_step demo_typed (Key 36 0xff0d True, demo_env) w'" "\<not> locked w'"
    using demo_typed_wf demo_auth by (auto simp: lock_abs_of_def intro: step_key split: if_splits)
  then show ?thesis using run_snoc [OF run_nil, of demo_typed "(Key 36 0xff0d True, demo_env)" w']
    by auto
qed

theorem lock_run_invariant_witness:
  "\<exists>w' cs. lock_run demo_typed [(Key 36 0xff0d True, demo_env)] w' \<and> lock_wf w' \<and>
     calls w' = calls demo_typed @ cs \<and> replay (lock_objects demo_typed) cs = Some (lock_objects w')"
proof -
  from demo_unlock_run obtain w' where "lock_run demo_typed [(Key 36 0xff0d True, demo_env)] w'"
    by blast
  with lock_run_invariant [OF this demo_typed_wf(1), of "[]"] show ?thesis by auto
qed

theorem unlock_requires_authentication_witness:
  "\<exists>(v::world) (E::lock_env). locked v \<and> pam_authenticate_password (lock_pam E) (c_str (s_password v))"
proof -
  from demo_unlock_run obtain w' where r: "lock_run demo_typed [(Key 36 0xff0d True, demo_env)] w'"
    and u: "\<not> locked w'" by blast
  from unlock_requires_authentication [OF r demo_typed_wf(1,2) u] show ?thesis by blast
qed

theorem password_wiped_witness:
  "\<exists>w'. zen_lock_handle_key demo_env 9 0xff1b True demo_typed = Some (w', True) \<and>
     s_password w' = replicate 256 NUL \<and> s_password_len w' = 0"
  using password_wiped [OF demo_typed_wf(1,2), of "0xff1b" demo_env 9] by simp

theorem lock_ui_hides_password_witness:
  "\<exists>w' w''. render_lock_ui demo_env demo_typed = Some w' \<and>
     render_lock_ui demo_env (demo_typed\<lparr>s_password := ''abc'' @ replicate 253 NUL\<rparr>) = Some w'' \<and>
     calls w'' = calls w'"
proof -
  from demo_typed_wf(1) obtain cs where "render_lock_ui demo_env demo_typed = Some (emits cs demo_typed)"
    by (rule render_lock_ui_emits)
  with lock_ui_hides_password [OF this, of "''abc'' @ replicate 253 NUL"] show ?thesis by blast
qed

definition demo_no_pam :: lock_env where
  "demo_no_pam = demo_env\<lparr>lock_pam := demo_pam\<lparr>have_pam := False\<rparr>\<rparr>"

theorem no_pam_never_unlocks_witness:
  "\<exists>w'. lock_run demo_typed [(Key 36 0xff0d True, demo_no_pam)] w' \<and> locked w'"
proof -
  from key_refinement [OF demo_typed_wf(1,2), of demo_no_pam 36 "0xff0d"] obtain w' where
    "zen_lock_handle_key demo_no_pam 36 0xff0d True demo_typed = Some (w', True)"
    by (auto simp: key_refines_def)
  then have "lock_step demo_typed (Key 36 0xff0d True, demo_no_pam) w'" by (rule step_key)
  then have run: "lock_run demo_typed [(Key 36 0xff0d True, demo_no_pam)] w'"
    using run_snoc [OF run_nil, of demo_typed "(Key 36 0xff0d True, demo_no_pam)" w'] by simp
  moreover have "locked w'"
    by (rule no_pam_never_unlocks [OF run demo_typed_wf(1,2)]) (simp add: demo_no_pam_def)
  ultimately show ?thesis by blast
qed

theorem lock_init_contract_witness:
  "\<exists>w'. zen_lock_init demo_env CPTR demo_unlocked = Some (w', 0) \<and> lock_wf w' \<and>
     Timer_update 81 300000 \<in> set (calls w')"
proof -
  have l: "(Of_Module, L_new_lock) \<notin> set (lregs demo_unlocked)" by (simp add: demo_unlocked_wf)
  have d: "wl_display demo_unlocked \<noteq> None" "mgr_create demo_env \<noteq> None" "add_timer demo_env = Some 81"
    by (simp_all add: demo_unlocked_def demo_env_def)
  from lock_init_contract [OF demo_unlocked_wf(2) l demo_unlocked_wf(1), of demo_env] d
  show ?thesis by (auto split: if_splits)
qed

theorem pam_conversation_answers_witness:
  "pam_conv_fn demo_pam (Some ''zen'') [PAM_PROMPT_ECHO_OFF, PAM_OTHER_STYLE] =
     (PAM_SUCCESS, [Some ''zen'', None])"
proof -
  have "conv_calloc_ok demo_pam" "\<And>i. conv_strdup_ok demo_pam i" by (simp_all add: demo_pam_def)
  from pam_conversation_answers [OF this, of "''zen''" "[PAM_PROMPT_ECHO_OFF, PAM_OTHER_STYLE]"]
  show ?thesis by simp
qed

end
