(* ===== verification/Zen_Layer.thy ===== *)
theory Zen_Layer
  imports Zen_Tracked
begin

text \<open>
  The layer shell of \<open>src/compositor/src/layer.c\<close>: surfaces of panels and overlays, their three
  listeners, and the module's initialisation and destruction.
\<close>

section \<open>The module\<close>

record layer_env =
  ly_shell_create :: ptr       \<comment> \<open>\<open>wlr_layer_shell_v1_create\<close>\<close>
  ly_calloc :: ptr
  ly_scene_create :: ptr       \<comment> \<open>\<open>wlr_scene_layer_surface_v1_create\<close>\<close>
  ly_output :: "(int \<times> int) option"  \<comment> \<open>the size of the surface's output, if it has one\<close>

definition zen_layer_init :: "layer_env \<Rightarrow> cptr \<Rightarrow> world \<Rightarrow> (world \<times> int) option" where
  "zen_layer_init E c w =
     (if c = CNULL then None
      else let w = w\<lparr>layer_surfaces := Some wl_list_init, layer_shell := ly_shell_create E\<rparr>
           in if layer_shell w = None then Some (w, -1)
              else do { w \<leftarrow> listen (Of_Compositor, L_new_layer_surface) w; Some (w, 0) })"

definition layer_listeners :: "lfield list" where
  "layer_listeners = [L_map, L_unmap, L_destroy]"

definition handle_layer_surface_destroy :: "addr \<Rightarrow> world \<Rightarrow> world option" where
  "handle_layer_surface_destroy a w = do {
     _ \<leftarrow> lays w a;
     w \<leftarrow> unlisten_all (Of_Layer a) layer_listeners w;
     l \<leftarrow> layer_surfaces w;
     if a \<in> set l
     then Some (w\<lparr>layer_surfaces := Some (wl_list_remove a l), lays := (lays w)(a := None)\<rparr>)
     else None }"

primrec free_layer_surfaces :: "addr list \<Rightarrow> world \<Rightarrow> world option" where
  "free_layer_surfaces [] w = Some w"
| "free_layer_surfaces (a # as) w = (case handle_layer_surface_destroy a w of
      None \<Rightarrow> None | Some w' \<Rightarrow> free_layer_surfaces as w')"

definition zen_layer_destroy :: "cptr \<Rightarrow> world \<Rightarrow> world option" where
  "zen_layer_destroy c w =
     (if c = CNULL then Some w
      else case layer_surfaces w of
             None \<Rightarrow> Some w
           | Some l \<Rightarrow> do { w \<leftarrow> free_layer_surfaces l w; Some (w\<lparr>layer_shell := None\<rparr>) })"

definition handle_new_layer_surface :: "layer_env \<Rightarrow> addr \<Rightarrow> world \<Rightarrow> world option" where
  "handle_new_layer_surface E ls w = (case ly_calloc E of
      None \<Rightarrow> Some (emits [Node (Layer_destroy ls)] w)
    | Some a \<Rightarrow> do {
        _ \<leftarrow> (case shell_overlay_tree w of Some t \<Rightarrow> Some t | None \<Rightarrow> scene w);
        case ly_scene_create E of
          None \<Rightarrow> Some (emits [Node (Layer_destroy ls)] w)
        | Some n \<Rightarrow> do {
            let w = w\<lparr>lays := (lays w)(a \<mapsto> \<lparr>layer_surface = ls, scene_layer = Some n\<rparr>)\<rparr>;
            w \<leftarrow> listen_all (Of_Layer a) layer_listeners w;
            l \<leftarrow> layer_surfaces w;
            let w = w\<lparr>layer_surfaces := Some (wl_list_insert a l)\<rparr>;
            case ly_output E of
              None \<Rightarrow> Some w
            | Some (bw, bh) \<Rightarrow> do {
                _ \<leftarrow> output_layout w;
                Some (if bw > 0 \<and> bh > 0
                      then emits [Node (Layer_configure ls (word_of_int bw) (word_of_int bh))] w
                      else w) } } })"

definition set_layer_enabled :: "bool \<Rightarrow> addr \<Rightarrow> world \<Rightarrow> world option" where
  "set_layer_enabled b a w = do {
     s \<leftarrow> lays w a;
     n \<leftarrow> scene_layer s;
     Some (emits [Node (Set_enabled n b)] w) }"

definition handle_layer_surface_map :: "addr \<Rightarrow> world \<Rightarrow> world option" where
  "handle_layer_surface_map a w = set_layer_enabled True a w"

definition handle_layer_surface_unmap :: "addr \<Rightarrow> world \<Rightarrow> world option" where
  "handle_layer_surface_unmap a w = set_layer_enabled False a w"

definition layer_notify :: "lfield \<Rightarrow> addr \<Rightarrow> world \<Rightarrow> world option" where
  "layer_notify f a w =
     (if f = L_map then handle_layer_surface_map a w
      else if f = L_unmap then handle_layer_surface_unmap a w
      else if f = L_destroy then handle_layer_surface_destroy a w
      else None)"

section \<open>The invariant\<close>

interpretation ly: tracked_objects Of_Layer layer_listeners lays layer_surfaces
  by unfold_locales (simp_all add: layer_listeners_def)

definition layers_wf :: "world \<Rightarrow> bool" where
  "layers_wf w \<longleftrightarrow> (\<exists>l. layer_surfaces w = Some l \<and> distinct l \<and> set l = dom (lays w)) \<and> distinct (lregs w) \<and>
     (\<forall>a f. (Of_Layer a, f) \<in> set (lregs w) \<longleftrightarrow> a \<in> dom (lays w) \<and> f \<in> set layer_listeners) \<and>
     (\<forall>a s. lays w a = Some s \<longrightarrow> scene_layer s \<noteq> None)"

lemma layers_wf_tracked: "layers_wf w \<longleftrightarrow> ly.tracked w \<and> (\<forall>a s. lays w a = Some s \<longrightarrow> scene_layer s \<noteq> None)"
  by (auto simp: layers_wf_def ly.tracked_def)

lemma layer_destroy_effect:
  assumes "ly.tracked w" "layer_surfaces w = Some l" "a \<in> set l"
  shows "\<exists>w'. handle_layer_surface_destroy a w = Some w' \<and> ly.tracked w' \<and>
    layer_surfaces w' = Some (filter (\<lambda>b. b \<noteq> a) l) \<and> (lays w' = (lays w)(a := None) \<and> calls w' = calls w)"
proof -
  note l = ly.tracked_list [OF assms(1,2)]
  then obtain s where s: "lays w a = Some s" using assms(3) by auto
  let ?w = "w\<lparr>lregs := fold (\<lambda>f. remove1 (Of_Layer a, f)) layer_listeners (lregs w),
    layer_surfaces := Some (wl_list_remove a l), lays := (lays w)(a := None)\<rparr>"
  have "unlisten_all (Of_Layer a) layer_listeners w =
      Some (w\<lparr>lregs := fold (\<lambda>f. remove1 (Of_Layer a, f)) layer_listeners (lregs w)\<rparr>)"
    by (rule ly.tracked_unlisten [OF assms(1)]) (simp add: s)
  then have h: "handle_layer_surface_destroy a w = Some ?w"
    using assms(2,3) s by (simp add: handle_layer_surface_destroy_def)
  have "wl_list_remove a l = filter (\<lambda>b. b \<noteq> a) l" using wl.elems_unlink [of l a] l by simp
  then have k: "layer_surfaces ?w = Some (filter (\<lambda>b. b \<noteq> a) l)" by simp
  have "ly.tracked ?w" by (rule ly.tracked_drop [OF assms(1,2) _ k]) simp_all
  with h k show ?thesis by (intro exI [of _ ?w]) simp
qed

lemma layer_drop:
  assumes "ly.tracked w" "layer_surfaces w = Some l" "a \<in> set l"
  shows "\<exists>w'. handle_layer_surface_destroy a w = Some w' \<and> ly.tracked w' \<and>
    layer_surfaces w' = Some (filter (\<lambda>b. b \<noteq> a) l) \<and> calls w' = calls w"
  using layer_destroy_effect [OF assms] by blast

text \<open>
  Every signal a live layer surface can receive is handled without a fault and keeps the
  module consistent: the list holds exactly the live surfaces, and exactly their listeners
  are linked.
\<close>

theorem layer_signals_safe:
  assumes "layers_wf w" "(Of_Layer a, f) \<in> set (lregs w)"
  shows "\<exists>w'. layer_notify f a w = Some w' \<and> layers_wf w'"
proof -
  from assms have t: "ly.tracked w" and sc: "\<And>a s. lays w a = Some s \<Longrightarrow> scene_layer s \<noteq> None"
    by (auto simp: layers_wf_tracked)
  from ly.tracked_lregs(2) [OF t] assms(2) obtain s where s: "lays w a = Some s"
    and f: "f \<in> set layer_listeners" by blast
  from sc [OF s] obtain n where n: "scene_layer s = Some n" by blast
  from t obtain l where l: "layer_surfaces w = Some l" unfolding ly.tracked_def by blast
  have "layers_wf (emits [c] w)" for c
    using assms(1) by (simp add: layers_wf_def emits_def)
  moreover have "\<exists>w'. handle_layer_surface_destroy a w = Some w' \<and> layers_wf w'"
  proof -
    have "a \<in> set l" using ly.tracked_list [OF t l] s by auto
    from layer_destroy_effect [OF t l this] obtain w' where w': "handle_layer_surface_destroy a w = Some w'"
      "ly.tracked w'" "lays w' = (lays w)(a := None)" by blast
    then show ?thesis using sc by (auto simp: layers_wf_tracked)
  qed
  ultimately show ?thesis using f s n
    by (auto simp: layer_listeners_def layer_notify_def handle_layer_surface_map_def
        handle_layer_surface_unmap_def set_layer_enabled_def)
qed

text \<open>
  A new layer surface is either adopted or destroyed: it is tracked with its listeners
  linked, or, when memory or a scene node is missing, the client's surface is destroyed and
  nothing is kept. An adopted surface is configured with the size of its output, when it has
  one with a positive size.
\<close>

theorem new_layer_surface_adopted_or_destroyed:
  assumes "layers_wf w" "scene w = Some sc" "output_layout w = Some lay"
    and "\<And>a. ly_calloc E = Some a \<Longrightarrow> lays w a = None"
  shows "\<exists>w'. handle_new_layer_surface E ls w = Some w' \<and> layers_wf w' \<and>
    (case (ly_calloc E, ly_scene_create E) of
       (Some a, Some n) \<Rightarrow> lays w' = (lays w)(a \<mapsto> \<lparr>layer_surface = ls, scene_layer = Some n\<rparr>) \<and>
         calls w' = calls w @ (case ly_output E of
           Some (bw, bh) \<Rightarrow> if bw > 0 \<and> bh > 0
             then [Node (Layer_configure ls (word_of_int bw) (word_of_int bh))] else []
         | None \<Rightarrow> [])
     | _ \<Rightarrow> w' = emits [Node (Layer_destroy ls)] w)"
proof (cases "ly_calloc E = None \<or> ly_scene_create E = None")
  case True
  moreover have "layers_wf (emits [Node (Layer_destroy ls)] w)"
    using assms(1) by (simp add: layers_wf_def emits_def)
  ultimately show ?thesis using assms(2)
    by (auto simp: handle_new_layer_surface_def split: option.split)
next
  case False
  then obtain a n where an: "ly_calloc E = Some a" "ly_scene_create E = Some n" by auto
  from assms(1) have t: "ly.tracked w" and scn: "\<And>a s. lays w a = Some s \<Longrightarrow> scene_layer s \<noteq> None"
    by (auto simp: layers_wf_tracked)
  then obtain l where l: "layer_surfaces w = Some l" unfolding ly.tracked_def by blast
  have na: "lays w a = None" using assms(4) an(1) by blast
  let ?s = "\<lparr>layer_surface = ls, scene_layer = Some n\<rparr>"
  let ?ls = "lregs w @ map (Pair (Of_Layer a)) layer_listeners"
  let ?cs = "case ly_output E of Some (bw, bh) \<Rightarrow> if bw > 0 \<and> bh > 0
    then [Node (Layer_configure ls (word_of_int bw) (word_of_int bh))] else [] | None \<Rightarrow> []"
  define v where "v = w\<lparr>lays := (lays w)(a \<mapsto> ?s)\<rparr>"
  have "listen_all (Of_Layer a) layer_listeners v = Some (v\<lparr>lregs := ?ls\<rparr>)"
    by (rule ly.tracked_listen [OF t na]) (simp add: v_def)
  then have h: "handle_new_layer_surface E ls w =
      Some (emits ?cs (v\<lparr>lregs := ?ls, layer_surfaces := Some (a # l)\<rparr>))"
    using an assms(2,3) l
    by (auto simp: handle_new_layer_surface_def v_def wl_list_insert_def Let_def split: option.split prod.split)
  have "ly.tracked (emits ?cs (v\<lparr>lregs := ?ls, layer_surfaces := Some (a # l)\<rparr>))"
    by (rule ly.tracked_add [OF t l na, where l' = "a # l" and obj = ?s])
       (use ly.tracked_list [OF t l] na in \<open>auto simp: v_def emits_def\<close>)
  moreover have "lays (emits ?cs (v\<lparr>lregs := ?ls, layer_surfaces := Some (a # l)\<rparr>)) = (lays w)(a \<mapsto> ?s)"
    by (simp add: v_def emits_def)
  ultimately show ?thesis using h an scn
    by (auto simp: layers_wf_tracked v_def)
qed

text \<open>
  Destroying the layer shell, unlike destroying window management, leaves no listener of
  a surface behind: every surface is freed, and none of its listeners stays linked.
\<close>

theorem layer_teardown_complete:
  assumes "layers_wf w"
  shows "\<exists>w'. zen_layer_destroy CPTR w = Some w' \<and> lays w' = Map.empty \<and> layer_surfaces w' = Some [] \<and>
    layer_shell w' = None \<and> (\<forall>a f. (Of_Layer a, f) \<notin> set (lregs w')) \<and> calls w' = calls w"
proof -
  from assms have t: "ly.tracked w" by (simp add: layers_wf_tracked)
  then obtain l where l: "layer_surfaces w = Some l" unfolding ly.tracked_def by blast
  have "\<exists>w'. free_layer_surfaces l w = Some w' \<and> ly.tracked w' \<and> layer_surfaces w' = Some [] \<and>
      lays w' = Map.empty \<and> calls w' = calls w"
    by (rule ly.tracked_drop_all [where drop_list = free_layer_surfaces and
          drop_one = handle_layer_surface_destroy and P = "\<lambda>w w'. calls w' = calls w"])
       (use t l layer_drop in auto)
  then obtain w' where w': "free_layer_surfaces l w = Some w'" "ly.tracked w'" "layer_surfaces w' = Some []"
    "lays w' = Map.empty" "calls w' = calls w" by blast
  from ly.tracked_empty [OF w'(2,4)] w' l show ?thesis by (auto simp: zen_layer_destroy_def)
qed

section \<open>A panel\<close>

definition demo_layers :: world where
  "demo_layers = zero_world\<lparr>layer_surfaces := Some [60], lays := [60 \<mapsto> \<lparr>layer_surface = 61, scene_layer = Some 62\<rparr>],
     scene := Some 2, output_layout := Some 3, lregs := map (Pair (Of_Layer 60)) layer_listeners\<rparr>"

definition demo_layer_env :: layer_env where
  "demo_layer_env = \<lparr>ly_shell_create = Some 5, ly_calloc = Some 63, ly_scene_create = Some 64,
     ly_output = Some (1920, 1080)\<rparr>"

lemma demo_layers_wf: "layers_wf demo_layers"
  by (auto simp: layers_wf_def demo_layers_def zero_world_def layer_listeners_def)

theorem layer_signals_safe_witness: "\<exists>w'. layer_notify L_destroy 60 demo_layers = Some w' \<and> layers_wf w'"
  by (rule layer_signals_safe [OF demo_layers_wf]) (simp add: demo_layers_def layer_listeners_def)

theorem new_layer_surface_adopted_or_destroyed_witness:
  "\<exists>w'. handle_new_layer_surface demo_layer_env 65 demo_layers = Some w' \<and> layers_wf w' \<and>
     calls w' = calls demo_layers @ [Node (Layer_configure 65 1920 1080)]"
proof -
  have d: "scene demo_layers = Some 2" "output_layout demo_layers = Some 3"
    "\<And>a. ly_calloc demo_layer_env = Some a \<Longrightarrow> lays demo_layers a = None"
    by (simp_all add: demo_layers_def demo_layer_env_def)
  from new_layer_surface_adopted_or_destroyed [OF demo_layers_wf d, where ls = 65 and E = demo_layer_env] show ?thesis
    by (auto simp: demo_layer_env_def)
qed

theorem layer_teardown_complete_witness:
  "\<exists>w'. zen_layer_destroy CPTR demo_layers = Some w' \<and> lays w' = Map.empty \<and>
     (\<forall>a f. (Of_Layer a, f) \<notin> set (lregs w'))"
  using layer_teardown_complete [OF demo_layers_wf] by blast

end
