(* ===== verification/Zen_Errors.thy ===== *)
theory Zen_Errors
  imports Zen_Prelude "HOL-Library.Sublist"
begin

text \<open>
  The error codes of \<open>src/common/src/dbus-errors.c\<close>: their texts and D-Bus names. The codes are
  ordered as the enumeration numbers them.
\<close>

datatype ZenError =
    ZEN_OK
  | ZEN_ERR_INVALID_ARGUMENT
  | ZEN_ERR_NOT_FOUND
  | ZEN_ERR_PERMISSION_DENIED
  | ZEN_ERR_ALREADY_EXISTS
  | ZEN_ERR_NOT_SUPPORTED
  | ZEN_ERR_TIMEOUT
  | ZEN_ERR_OUT_OF_MEMORY
  | ZEN_ERR_IO
  | ZEN_ERR_INTERNAL
  | ZEN_ERR_COUNT

fun error_code :: "ZenError \<Rightarrow> int" where
  "error_code ZEN_OK = 0"
| "error_code ZEN_ERR_INVALID_ARGUMENT = 1"
| "error_code ZEN_ERR_NOT_FOUND = 2"
| "error_code ZEN_ERR_PERMISSION_DENIED = 3"
| "error_code ZEN_ERR_ALREADY_EXISTS = 4"
| "error_code ZEN_ERR_NOT_SUPPORTED = 5"
| "error_code ZEN_ERR_TIMEOUT = 6"
| "error_code ZEN_ERR_OUT_OF_MEMORY = 7"
| "error_code ZEN_ERR_IO = 8"
| "error_code ZEN_ERR_INTERNAL = 9"
| "error_code ZEN_ERR_COUNT = 10"

lemma error_code_inj: "error_code a = error_code b \<Longrightarrow> a = b"
  by (cases a; cases b) simp_all

lemma error_code_range: "0 \<le> error_code e" "error_code e \<le> 10"
  by (cases e; simp)+

lemma error_code_onto: "0 \<le> i \<Longrightarrow> i < 10 \<Longrightarrow> \<exists>e. e \<noteq> ZEN_ERR_COUNT \<and> error_code e = i"
proof -
  assume i: "0 \<le> i" "i < 10"
  then have "i \<in> error_code ` {ZEN_OK, ZEN_ERR_INVALID_ARGUMENT, ZEN_ERR_NOT_FOUND, ZEN_ERR_PERMISSION_DENIED,
      ZEN_ERR_ALREADY_EXISTS, ZEN_ERR_NOT_SUPPORTED, ZEN_ERR_TIMEOUT, ZEN_ERR_OUT_OF_MEMORY, ZEN_ERR_IO,
      ZEN_ERR_INTERNAL}" by auto presburger
  then show ?thesis by auto
qed

instantiation ZenError :: linorder
begin

definition less_eq_ZenError :: "ZenError \<Rightarrow> ZenError \<Rightarrow> bool" where
  "less_eq_ZenError a b \<longleftrightarrow> error_code a \<le> error_code b"

definition less_ZenError :: "ZenError \<Rightarrow> ZenError \<Rightarrow> bool" where
  "less_ZenError a b \<longleftrightarrow> error_code a < error_code b"

instance
  by standard (auto simp: less_eq_ZenError_def less_ZenError_def error_code_inj)

end

definition error_strings :: "string list" where
  "error_strings = [''Success'', ''Invalid argument'', ''Not found'', ''Permission denied'',
     ''Already exists'', ''Not supported'', ''Timeout'', ''Out of memory'', ''I/O error'', ''Internal error'']"

definition dbus_names :: "string list" where
  "dbus_names = [''org.zenos.Error.None'', ''org.zenos.Error.InvalidArgument'', ''org.zenos.Error.NotFound'',
     ''org.zenos.Error.PermissionDenied'', ''org.zenos.Error.AlreadyExists'', ''org.zenos.Error.NotSupported'',
     ''org.zenos.Error.Timeout'', ''org.zenos.Error.OutOfMemory'', ''org.zenos.Error.IO'',
     ''org.zenos.Error.Internal'']"

text \<open>An index outside of an array would be a fault: \<open>None\<close>.\<close>

definition c_index :: "'a list \<Rightarrow> int \<Rightarrow> 'a option" where
  "c_index xs i = (if 0 \<le> i \<and> nat i < length xs then Some (xs ! nat i) else None)"

definition zen_error_string :: "int \<Rightarrow> string option" where
  "zen_error_string err =
     (if err < 0 \<or> err \<ge> error_code ZEN_ERR_COUNT then Some ''Unknown error'' else c_index error_strings err)"

definition zen_error_dbus_name :: "int \<Rightarrow> string option" where
  "zen_error_dbus_name err =
     (if err < 0 \<or> err \<ge> error_code ZEN_ERR_COUNT then Some ''org.zenos.Error.Internal''
      else c_index dbus_names err)"

lemma dbus_names_length: "length dbus_names = 10" "length error_strings = 10"
  by (simp_all add: dbus_names_def error_strings_def)

lemma dbus_names_distinct: "distinct dbus_names"
  by (simp add: dbus_names_def)

lemma dbus_name_prefix: "n \<in> set dbus_names \<Longrightarrow> prefix ''org.zenos.Error.'' n"
  by (auto simp: dbus_names_def prefix_def)

lemma dbus_name_of_code:
  "e < ZEN_ERR_COUNT \<Longrightarrow> zen_error_dbus_name (error_code e) = Some (dbus_names ! nat (error_code e))"
  using error_code_range [of e] dbus_names_length
  by (simp add: zen_error_dbus_name_def c_index_def less_ZenError_def nat_less_iff)

text \<open>
  Every integer, valid or not, has an error text and a D-Bus name in the \<open>org.zenos.Error\<close>
  namespace without an index outside of the tables; and the names of the codes below
  \<open>ZEN_ERR_COUNT\<close> are pairwise different, so a receiver can tell the errors apart.
\<close>

theorem error_names_total_and_distinct:
  "(\<exists>s n. zen_error_string i = Some s \<and> zen_error_dbus_name i = Some n \<and> prefix ''org.zenos.Error.'' n) \<and>
   (a < ZEN_ERR_COUNT \<longrightarrow> b < ZEN_ERR_COUNT \<longrightarrow>
      zen_error_dbus_name (error_code a) = zen_error_dbus_name (error_code b) \<longrightarrow> a = b)"
proof (rule conjI)
  have "prefix ''org.zenos.Error.'' (dbus_names ! nat i)" if "0 \<le> i" "i < 10"
    using that dbus_names_length by (intro dbus_name_prefix nth_mem) (simp add: nat_less_iff)
  moreover have "prefix ''org.zenos.Error.'' ''org.zenos.Error.Internal''" by (simp add: prefix_def)
  ultimately show "\<exists>s n. zen_error_string i = Some s \<and> zen_error_dbus_name i = Some n \<and>
      prefix ''org.zenos.Error.'' n"
    using dbus_names_length
    by (auto simp: zen_error_string_def zen_error_dbus_name_def c_index_def nat_less_iff)
next
  show "a < ZEN_ERR_COUNT \<longrightarrow> b < ZEN_ERR_COUNT \<longrightarrow>
      zen_error_dbus_name (error_code a) = zen_error_dbus_name (error_code b) \<longrightarrow> a = b"
  proof (intro impI)
    assume *: "a < ZEN_ERR_COUNT" "b < ZEN_ERR_COUNT"
      "zen_error_dbus_name (error_code a) = zen_error_dbus_name (error_code b)"
    then have "dbus_names ! nat (error_code a) = dbus_names ! nat (error_code b)"
      by (simp add: dbus_name_of_code)
    with * have "nat (error_code a) = nat (error_code b)"
      using dbus_names_distinct dbus_names_length error_code_range
      by (subst (asm) nth_eq_iff_index_eq) (auto simp: less_ZenError_def nat_less_iff)
    then have "error_code a = error_code b" using error_code_range [of a] error_code_range [of b] by simp
    then show "a = b" by (rule error_code_inj)
  qed
qed

theorem error_names_total_and_distinct_witness:
  "zen_error_dbus_name (error_code ZEN_ERR_IO) \<noteq> zen_error_dbus_name (error_code ZEN_ERR_TIMEOUT) \<and>
   (\<exists>n. zen_error_dbus_name (-5) = Some n \<and> prefix ''org.zenos.Error.'' n)"
  using error_names_total_and_distinct [of "-5" ZEN_ERR_IO ZEN_ERR_TIMEOUT] by (auto simp: less_ZenError_def)

end
