(* ===== verification/Zen_Models.thy ===== *)
theory Zen_Models
  imports Zen_Prelude
begin

text \<open>
  The shared data structs of \<open>src/common/src/models.c\<close>: their zeroed states, initialisers and
  cleanup functions over a heap of C strings and string arrays. One contract, stated as an
  interface, covers the eleven structs that own memory.
\<close>

section \<open>The heap\<close>

text \<open>
  The allocated blocks, and the contents of those that are arrays of strings. Freeing a block
  that is not allocated (a double free) and reading outside of an array are faults.
\<close>

record mem =
  live :: "addr set"
  array_at :: "addr \<Rightarrow> ptr list"

definition c_free :: "ptr \<Rightarrow> mem \<Rightarrow> mem option" where
  "c_free p m = (case p of
      None \<Rightarrow> Some m
    | Some a \<Rightarrow> if a \<in> live m then Some (m\<lparr>live := live m - {a}\<rparr>) else None)"

primrec free_all :: "ptr list \<Rightarrow> mem \<Rightarrow> mem option" where
  "free_all [] m = Some m"
| "free_all (p # ps) m = do { m \<leftarrow> c_free p m; free_all ps m }"

definition free_string_array :: "ptr \<Rightarrow> int \<Rightarrow> mem \<Rightarrow> mem option" where
  "free_string_array arr count m = (case arr of
      None \<Rightarrow> Some m
    | Some a \<Rightarrow>
        if a \<in> live m \<and> nat count \<le> length (array_at m a)
        then do { m \<leftarrow> free_all (take (nat count) (array_at m a)) m; c_free (Some a) m }
        else None)"

section \<open>Enumerations\<close>

datatype ZenShelfPosition = ZEN_SHELF_BOTTOM | ZEN_SHELF_LEFT | ZEN_SHELF_RIGHT | ZEN_SHELF_TOP
datatype ZenAppSource = ZEN_APP_SOURCE_NATIVE | ZEN_APP_SOURCE_FLATPAK | ZEN_APP_SOURCE_PWA | ZEN_APP_SOURCE_WAYDROID
datatype ZenPackageSource = ZEN_PKG_SOURCE_FLATPAK | ZEN_PKG_SOURCE_LAYERED
datatype ZenProtocol = ZEN_PROTO_TCP | ZEN_PROTO_UDP | ZEN_PROTO_DNS
datatype ZenAuditEventType = ZEN_AUDIT_BLOCKED | ZEN_AUDIT_ALLOWED | ZEN_AUDIT_RULE_UPDATE
datatype ZenUrgency = ZEN_URGENCY_LOW | ZEN_URGENCY_NORMAL | ZEN_URGENCY_CRITICAL

section \<open>Structs, initialisers, cleanup\<close>

record ZenShelfConfig =
  sc_position :: ZenShelfPosition
  sc_auto_hide :: bool
  sc_icon_size :: int
  sc_pinned_apps :: ptr
  sc_pinned_apps_count :: int

definition zero_shelf_config :: ZenShelfConfig where
  "zero_shelf_config = \<lparr>sc_position = ZEN_SHELF_BOTTOM, sc_auto_hide = False, sc_icon_size = 0, sc_pinned_apps = None, sc_pinned_apps_count = 0\<rparr>"

definition zen_shelf_config_init :: ZenShelfConfig where
  "zen_shelf_config_init = zero_shelf_config\<lparr>sc_position := ZEN_SHELF_BOTTOM, sc_icon_size := 48\<rparr>"

definition zen_shelf_config_cleanup :: "ZenShelfConfig \<Rightarrow> mem \<Rightarrow> (ZenShelfConfig \<times> mem) option" where
  "zen_shelf_config_cleanup s m = do {
     m \<leftarrow> free_string_array (sc_pinned_apps s) (sc_pinned_apps_count s) m;
     Some (zero_shelf_config, m) }"

record ZenAppInfo =
  ai_app_id :: ptr
  ai_name :: ptr
  ai_icon_path :: ptr
  ai_exec :: ptr
  ai_source :: ZenAppSource
  ai_categories :: ptr
  ai_categories_count :: int
  ai_is_running :: bool
  ai_pid :: int

definition zero_app_info :: ZenAppInfo where
  "zero_app_info = \<lparr>ai_app_id = None, ai_name = None, ai_icon_path = None, ai_exec = None, ai_source = ZEN_APP_SOURCE_NATIVE, ai_categories = None, ai_categories_count = 0, ai_is_running = False, ai_pid = 0\<rparr>"

definition zen_app_info_init :: ZenAppInfo where
  "zen_app_info_init = zero_app_info"

definition zen_app_info_cleanup :: "ZenAppInfo \<Rightarrow> mem \<Rightarrow> (ZenAppInfo \<times> mem) option" where
  "zen_app_info_cleanup s m = do {
     m \<leftarrow> free_all [ai_app_id s, ai_name s, ai_icon_path s, ai_exec s] m;
     m \<leftarrow> free_string_array (ai_categories s) (ai_categories_count s) m;
     Some (zero_app_info, m) }"

record ZenDeployment =
  dp_index :: int
  dp_commit :: ptr
  dp_version :: ptr
  dp_timestamp :: int
  dp_is_active :: bool
  dp_is_pinned :: bool
  dp_layered_packages :: ptr
  dp_layered_packages_count :: int

definition zero_deployment :: ZenDeployment where
  "zero_deployment = \<lparr>dp_index = 0, dp_commit = None, dp_version = None, dp_timestamp = 0, dp_is_active = False, dp_is_pinned = False, dp_layered_packages = None, dp_layered_packages_count = 0\<rparr>"

definition zen_deployment_init :: ZenDeployment where
  "zen_deployment_init = zero_deployment"

definition zen_deployment_cleanup :: "ZenDeployment \<Rightarrow> mem \<Rightarrow> (ZenDeployment \<times> mem) option" where
  "zen_deployment_cleanup s m = do {
     m \<leftarrow> free_all [dp_commit s, dp_version s] m;
     m \<leftarrow> free_string_array (dp_layered_packages s) (dp_layered_packages_count s) m;
     Some (zero_deployment, m) }"

record ZenUpdateInfo =
  ui_commit :: ptr
  ui_version :: ptr
  ui_delta_size_bytes :: int
  ui_is_security :: bool
  ui_signature_valid :: bool
  ui_changelog :: ptr

definition zero_update_info :: ZenUpdateInfo where
  "zero_update_info = \<lparr>ui_commit = None, ui_version = None, ui_delta_size_bytes = 0, ui_is_security = False, ui_signature_valid = False, ui_changelog = None\<rparr>"

definition zen_update_info_init :: ZenUpdateInfo where
  "zen_update_info_init = zero_update_info"

definition zen_update_info_cleanup :: "ZenUpdateInfo \<Rightarrow> mem \<Rightarrow> (ZenUpdateInfo \<times> mem) option" where
  "zen_update_info_cleanup s m = do {
     m \<leftarrow> free_all [ui_commit s, ui_version s, ui_changelog s] m;
     Some (zero_update_info, m) }"

record ZenPackageInfo =
  pk_name :: ptr
  pk_version :: ptr
  pk_source :: ZenPackageSource
  pk_description :: ptr
  pk_installed :: bool
  pk_permissions :: ptr
  pk_permissions_count :: int
  pk_size_bytes :: int

definition zero_package_info :: ZenPackageInfo where
  "zero_package_info = \<lparr>pk_name = None, pk_version = None, pk_source = ZEN_PKG_SOURCE_FLATPAK, pk_description = None, pk_installed = False, pk_permissions = None, pk_permissions_count = 0, pk_size_bytes = 0\<rparr>"

definition zen_package_info_init :: ZenPackageInfo where
  "zen_package_info_init = zero_package_info"

definition zen_package_info_cleanup :: "ZenPackageInfo \<Rightarrow> mem \<Rightarrow> (ZenPackageInfo \<times> mem) option" where
  "zen_package_info_cleanup s m = do {
     m \<leftarrow> free_all [pk_name s, pk_version s, pk_description s] m;
     m \<leftarrow> free_string_array (pk_permissions s) (pk_permissions_count s) m;
     Some (zero_package_info, m) }"

record ZenBlockedRequest =
  br_timestamp :: int
  br_source_app :: ptr
  br_destination :: ptr
  br_rule_matched :: ptr
  br_protocol :: ZenProtocol

definition zero_blocked_request :: ZenBlockedRequest where
  "zero_blocked_request = \<lparr>br_timestamp = 0, br_source_app = None, br_destination = None, br_rule_matched = None, br_protocol = ZEN_PROTO_TCP\<rparr>"

definition zen_blocked_request_init :: ZenBlockedRequest where
  "zen_blocked_request_init = zero_blocked_request"

definition zen_blocked_request_cleanup :: "ZenBlockedRequest \<Rightarrow> mem \<Rightarrow> (ZenBlockedRequest \<times> mem) option" where
  "zen_blocked_request_cleanup s m = do {
     m \<leftarrow> free_all [br_source_app s, br_destination s, br_rule_matched s] m;
     Some (zero_blocked_request, m) }"

record ZenAuditEntry =
  ae_timestamp :: int
  ae_event_type :: ZenAuditEventType
  ae_details :: ptr
  ae_source_app :: ptr

definition zero_audit_entry :: ZenAuditEntry where
  "zero_audit_entry = \<lparr>ae_timestamp = 0, ae_event_type = ZEN_AUDIT_BLOCKED, ae_details = None, ae_source_app = None\<rparr>"

definition zen_audit_entry_init :: ZenAuditEntry where
  "zen_audit_entry_init = zero_audit_entry"

definition zen_audit_entry_cleanup :: "ZenAuditEntry \<Rightarrow> mem \<Rightarrow> (ZenAuditEntry \<times> mem) option" where
  "zen_audit_entry_cleanup s m = do {
     m \<leftarrow> free_all [ae_details s, ae_source_app s] m;
     Some (zero_audit_entry, m) }"

record ZenBudget =
  bg_cgroup_path :: ptr
  bg_memory_limit_bytes :: int
  bg_cpu_weight :: int
  bg_is_frozen :: bool

definition zero_budget :: ZenBudget where
  "zero_budget = \<lparr>bg_cgroup_path = None, bg_memory_limit_bytes = 0, bg_cpu_weight = 0, bg_is_frozen = False\<rparr>"

definition zen_budget_init :: ZenBudget where
  "zen_budget_init = zero_budget"

definition zen_budget_cleanup :: "ZenBudget \<Rightarrow> mem \<Rightarrow> (ZenBudget \<times> mem) option" where
  "zen_budget_cleanup s m = do {
     m \<leftarrow> free_all [bg_cgroup_path s] m;
     Some (zero_budget, m) }"

record ZenNotification =
  no_id :: int
  no_app_id :: ptr
  no_summary :: ptr
  no_body :: ptr
  no_icon :: ptr
  no_urgency :: ZenUrgency
  no_timeout_ms :: int

definition zero_notification :: ZenNotification where
  "zero_notification = \<lparr>no_id = 0, no_app_id = None, no_summary = None, no_body = None, no_icon = None, no_urgency = ZEN_URGENCY_LOW, no_timeout_ms = 0\<rparr>"

definition zen_notification_init :: ZenNotification where
  "zen_notification_init = zero_notification\<lparr>no_timeout_ms := -1\<rparr>"

definition zen_notification_cleanup :: "ZenNotification \<Rightarrow> mem \<Rightarrow> (ZenNotification \<times> mem) option" where
  "zen_notification_cleanup s m = do {
     m \<leftarrow> free_all [no_app_id s, no_summary s, no_body s, no_icon s] m;
     Some (zero_notification, m) }"

record ZenOOBEConfig =
  oc_locale :: ptr
  oc_timezone :: ptr
  oc_keyboard_layout :: ptr
  oc_username :: ptr
  oc_password_hash :: ptr
  oc_network_ssid :: ptr
  oc_network_psk :: ptr

definition zero_oobe_config :: ZenOOBEConfig where
  "zero_oobe_config = \<lparr>oc_locale = None, oc_timezone = None, oc_keyboard_layout = None, oc_username = None, oc_password_hash = None, oc_network_ssid = None, oc_network_psk = None\<rparr>"

definition zen_oobe_config_init :: ZenOOBEConfig where
  "zen_oobe_config_init = zero_oobe_config"

definition zen_oobe_config_cleanup :: "ZenOOBEConfig \<Rightarrow> mem \<Rightarrow> (ZenOOBEConfig \<times> mem) option" where
  "zen_oobe_config_cleanup s m = do {
     m \<leftarrow> free_all [oc_locale s, oc_timezone s, oc_keyboard_layout s, oc_username s, oc_password_hash s, oc_network_ssid s, oc_network_psk s] m;
     Some (zero_oobe_config, m) }"

record ZenKioskConfig =
  kc_enabled :: bool
  kc_app_id :: ptr
  kc_auto_restart :: bool
  kc_disable_shell :: bool

definition zero_kiosk_config :: ZenKioskConfig where
  "zero_kiosk_config = \<lparr>kc_enabled = False, kc_app_id = None, kc_auto_restart = False, kc_disable_shell = False\<rparr>"

definition zen_kiosk_config_init :: ZenKioskConfig where
  "zen_kiosk_config_init = zero_kiosk_config"

definition zen_kiosk_config_cleanup :: "ZenKioskConfig \<Rightarrow> mem \<Rightarrow> (ZenKioskConfig \<times> mem) option" where
  "zen_kiosk_config_cleanup s m = do {
     m \<leftarrow> free_all [kc_app_id s] m;
     Some (zero_kiosk_config, m) }"

record ZenPressureInfo =
  pi_some_avg10 :: rat
  pi_some_avg60 :: rat
  pi_some_avg300 :: rat
  pi_full_avg10 :: rat
  pi_full_avg60 :: rat
  pi_full_avg300 :: rat
  pi_total_stall_us :: int

definition zen_pressure_info_init :: ZenPressureInfo where
  "zen_pressure_info_init = \<lparr>pi_some_avg10 = 0, pi_some_avg60 = 0, pi_some_avg300 = 0,
     pi_full_avg10 = 0, pi_full_avg60 = 0, pi_full_avg300 = 0, pi_total_stall_us = 0\<rparr>"

record ZenAccessibilityConfig =
  ac_screen_reader_enabled :: bool
  ac_high_contrast :: bool
  ac_dark_mode :: bool
  ac_font_scale :: rat

definition zen_accessibility_config_init :: ZenAccessibilityConfig where
  "zen_accessibility_config_init = \<lparr>ac_screen_reader_enabled = False, ac_high_contrast = False,
     ac_dark_mode = False, ac_font_scale = 1\<rparr>"

section \<open>Freeing a list of blocks\<close>

text \<open>The blocks a list of pointers refers to.\<close>

definition blocks :: "ptr list \<Rightarrow> addr list" where
  "blocks ps = List.map_filter id ps"

lemma blocks_simps [simp]:
  "blocks [] = []" "blocks (None # ps) = blocks ps" "blocks (Some a # ps) = a # blocks ps"
  by (simp_all add: blocks_def map_filter_simps)

lemma free_all_Some:
  "distinct (blocks ps) \<Longrightarrow> set (blocks ps) \<subseteq> live m \<Longrightarrow>
   free_all ps m = Some (m\<lparr>live := live m - set (blocks ps)\<rparr>)"
proof (induction ps arbitrary: m)
  case (Cons p ps)
  show ?case
  proof (cases p)
    case None
    with Cons show ?thesis by (simp add: c_free_def)
  next
    case (Some a)
    have "set (blocks ps) \<subseteq> live (m\<lparr>live := live m - {a}\<rparr>)" using Cons.prems Some by auto
    moreover have "live m - {a} - set (blocks ps) = live m - insert a (set (blocks ps))" by blast
    ultimately show ?thesis
      using Cons.IH [of "m\<lparr>live := live m - {a}\<rparr>"] Cons.prems Some by (simp add: c_free_def)
  qed
qed simp

text \<open>The blocks of a string array: its strings and the array itself.\<close>

definition array_blocks :: "ptr \<Rightarrow> int \<Rightarrow> mem \<Rightarrow> addr list" where
  "array_blocks arr count m = (case arr of None \<Rightarrow> []
     | Some a \<Rightarrow> blocks (take (nat count) (array_at m a)) @ [a])"

definition array_ok :: "ptr \<Rightarrow> int \<Rightarrow> mem \<Rightarrow> bool" where
  "array_ok arr count m = (case arr of None \<Rightarrow> True | Some a \<Rightarrow> nat count \<le> length (array_at m a))"

lemma free_string_array_Some:
  assumes "array_ok arr count m" "distinct (array_blocks arr count m)" "set (array_blocks arr count m) \<subseteq> live m"
  shows "free_string_array arr count m = Some (m\<lparr>live := live m - set (array_blocks arr count m)\<rparr>)"
proof (cases arr)
  case (Some a)
  with assms have d: "distinct (blocks (take (nat count) (array_at m a)))"
    "set (blocks (take (nat count) (array_at m a))) \<subseteq> live m" "a \<in> live m"
    "a \<notin> set (blocks (take (nat count) (array_at m a)))" "nat count \<le> length (array_at m a)"
    by (simp_all add: array_blocks_def array_ok_def)
  have "live m - set B - {a} = live m - insert a (set B)" for B by blast
  with free_all_Some [OF d(1,2)] d Some show ?thesis
    by (simp add: free_string_array_def array_blocks_def c_free_def)
qed (simp add: free_string_array_def array_blocks_def)

section \<open>The contract of a struct\<close>

text \<open>
  A cleanup function frees exactly what the struct owns, each block once, leaves the struct
  zeroed, and is a no-op on the zeroed struct.
\<close>

definition cleans :: "'s \<Rightarrow> ('s \<Rightarrow> mem \<Rightarrow> ('s \<times> mem) option) \<Rightarrow> ('s \<Rightarrow> mem \<Rightarrow> addr list) \<Rightarrow>
    ('s \<Rightarrow> mem \<Rightarrow> bool) \<Rightarrow> bool" where
  "cleans zero cleanup owned ok \<longleftrightarrow> (\<forall>s m. ok s m \<and> distinct (owned s m) \<and> set (owned s m) \<subseteq> live m \<longrightarrow>
     (\<exists>m'. cleanup s m = Some (zero, m') \<and> live m' = live m - set (owned s m) \<and>
        cleanup zero m' = Some (zero, m')))"

locale owning_struct =
  fixes zero :: 's
    and cleanup :: "'s \<Rightarrow> mem \<Rightarrow> ('s \<times> mem) option"
    and owned :: "'s \<Rightarrow> mem \<Rightarrow> addr list"
    and counts_ok :: "'s \<Rightarrow> mem \<Rightarrow> bool"
  assumes zero_owns_nothing: "owned zero m = []" "counts_ok zero m"
    and cleanup_frees: "counts_ok s m \<Longrightarrow> distinct (owned s m) \<Longrightarrow> set (owned s m) \<subseteq> live m \<Longrightarrow>
      cleanup s m = Some (zero, m\<lparr>live := live m - set (owned s m)\<rparr>)"
begin

text \<open>A struct whose pointers are its own and allocated.\<close>

definition valid :: "'s \<Rightarrow> mem \<Rightarrow> bool" where
  "valid s m \<longleftrightarrow> counts_ok s m \<and> distinct (owned s m) \<and> set (owned s m) \<subseteq> live m"

lemma valid_zero: "valid zero m"
  by (simp add: valid_def zero_owns_nothing)

lemma cleanup_zero: "cleanup zero m = Some (zero, m)"
  using cleanup_frees [of zero m] by (simp add: zero_owns_nothing)

text \<open>Cleanup frees exactly the blocks of the struct, and doing it again does nothing.\<close>

lemma cleanup_exact:
  assumes "valid s m"
  shows "\<exists>m'. cleanup s m = Some (zero, m') \<and> live m' = live m - set (owned s m) \<and>
    array_at m' = array_at m \<and> cleanup zero m' = Some (zero, m')"
  using assms cleanup_frees [of s m] cleanup_zero by (simp add: valid_def)

lemma cleans_law: "cleans zero cleanup owned counts_ok"
  unfolding cleans_def using cleanup_exact unfolding valid_def by blast

text \<open>Two structs that share no block can be cleaned up in either order.\<close>

lemma cleanup_independent:
  assumes "valid s m" "valid t m" "set (owned s m) \<inter> set (owned t m) = {}"
    and "\<And>L. owned t (m\<lparr>live := L\<rparr>) = owned t m" "\<And>L. counts_ok t (m\<lparr>live := L\<rparr>) = counts_ok t m"
  shows "\<exists>m1 m2. cleanup s m = Some (zero, m1) \<and> cleanup t m1 = Some (zero, m2) \<and>
    live m2 = live m - set (owned s m) - set (owned t m)"
proof -
  let ?m1 = "m\<lparr>live := live m - set (owned s m)\<rparr>"
  have "cleanup s m = Some (zero, ?m1)" using assms(1) cleanup_frees by (simp add: valid_def)
  moreover have "cleanup t ?m1 = Some (zero, ?m1\<lparr>live := live ?m1 - set (owned t ?m1)\<rparr>)"
    using assms by (intro cleanup_frees) (auto simp: valid_def)
  ultimately show ?thesis using assms(4) by simp
qed

end

section \<open>The instances\<close>

text \<open>What each struct owns: its strings, in the order of freeing, and its array.\<close>

definition shelf_config_owned :: "ZenShelfConfig \<Rightarrow> mem \<Rightarrow> addr list" where
  "shelf_config_owned s m = array_blocks (sc_pinned_apps s) (sc_pinned_apps_count s) m"

definition app_info_owned :: "ZenAppInfo \<Rightarrow> mem \<Rightarrow> addr list" where
  "app_info_owned s m = blocks [ai_app_id s, ai_name s, ai_icon_path s, ai_exec s] @ array_blocks (ai_categories s) (ai_categories_count s) m"

definition deployment_owned :: "ZenDeployment \<Rightarrow> mem \<Rightarrow> addr list" where
  "deployment_owned s m = blocks [dp_commit s, dp_version s] @ array_blocks (dp_layered_packages s) (dp_layered_packages_count s) m"

definition update_info_owned :: "ZenUpdateInfo \<Rightarrow> mem \<Rightarrow> addr list" where
  "update_info_owned s m = blocks [ui_commit s, ui_version s, ui_changelog s]"

definition package_info_owned :: "ZenPackageInfo \<Rightarrow> mem \<Rightarrow> addr list" where
  "package_info_owned s m = blocks [pk_name s, pk_version s, pk_description s] @ array_blocks (pk_permissions s) (pk_permissions_count s) m"

definition blocked_request_owned :: "ZenBlockedRequest \<Rightarrow> mem \<Rightarrow> addr list" where
  "blocked_request_owned s m = blocks [br_source_app s, br_destination s, br_rule_matched s]"

definition audit_entry_owned :: "ZenAuditEntry \<Rightarrow> mem \<Rightarrow> addr list" where
  "audit_entry_owned s m = blocks [ae_details s, ae_source_app s]"

definition budget_owned :: "ZenBudget \<Rightarrow> mem \<Rightarrow> addr list" where
  "budget_owned s m = blocks [bg_cgroup_path s]"

definition notification_owned :: "ZenNotification \<Rightarrow> mem \<Rightarrow> addr list" where
  "notification_owned s m = blocks [no_app_id s, no_summary s, no_body s, no_icon s]"

definition oobe_config_owned :: "ZenOOBEConfig \<Rightarrow> mem \<Rightarrow> addr list" where
  "oobe_config_owned s m = blocks [oc_locale s, oc_timezone s, oc_keyboard_layout s, oc_username s, oc_password_hash s, oc_network_ssid s, oc_network_psk s]"

definition kiosk_config_owned :: "ZenKioskConfig \<Rightarrow> mem \<Rightarrow> addr list" where
  "kiosk_config_owned s m = blocks [kc_app_id s]"

text \<open>The frees of a struct: first the strings, then the array.\<close>

lemma frees_Some:
  assumes "array_ok arr count m" "distinct (blocks ps @ array_blocks arr count m)"
    "set (blocks ps @ array_blocks arr count m) \<subseteq> live m"
  shows "do { m \<leftarrow> free_all ps m; m \<leftarrow> free_string_array arr count m; Some (z, m) } =
    Some (z, m\<lparr>live := live m - set (blocks ps @ array_blocks arr count m)\<rparr>)"
proof -
  let ?m = "m\<lparr>live := live m - set (blocks ps)\<rparr>"
  have ab: "array_blocks arr count ?m = array_blocks arr count m" "array_ok arr count ?m = array_ok arr count m"
    by (simp_all add: array_blocks_def array_ok_def split: option.split)
  have "free_string_array arr count ?m = Some (?m\<lparr>live := live ?m - set (array_blocks arr count ?m)\<rparr>)"
    using assms by (intro free_string_array_Some) (auto simp: ab)
  moreover have "live m - set (blocks ps) - B = live m - (set (blocks ps) \<union> B)" for B by blast
  ultimately show ?thesis using assms free_all_Some [of ps m] by (simp add: ab)
qed

lemma frees_strings_Some:
  assumes "distinct (blocks ps)" "set (blocks ps) \<subseteq> live m"
  shows "do { m \<leftarrow> free_all ps m; Some (z, m) } = Some (z, m\<lparr>live := live m - set (blocks ps)\<rparr>)"
  using free_all_Some [OF assms] by simp

interpretation shelf: owning_struct zero_shelf_config zen_shelf_config_cleanup shelf_config_owned
  "\<lambda>s. array_ok (sc_pinned_apps s) (sc_pinned_apps_count s)"
proof unfold_locales
  show "shelf_config_owned zero_shelf_config m = []" for m by (simp add: shelf_config_owned_def zero_shelf_config_def array_blocks_def)
  show "array_ok (sc_pinned_apps zero_shelf_config) (sc_pinned_apps_count zero_shelf_config) m" for m
    by (simp add: zero_shelf_config_def array_ok_def)
  show "zen_shelf_config_cleanup s m = Some (zero_shelf_config, m\<lparr>live := live m - set (shelf_config_owned s m)\<rparr>)"
    if "array_ok (sc_pinned_apps s) (sc_pinned_apps_count s) m" "distinct (shelf_config_owned s m)" "set (shelf_config_owned s m) \<subseteq> live m" for s m
    using frees_Some [of "sc_pinned_apps s" "sc_pinned_apps_count s" m "[]"] that
    unfolding zen_shelf_config_cleanup_def shelf_config_owned_def by simp
qed

interpretation app: owning_struct zero_app_info zen_app_info_cleanup app_info_owned
  "\<lambda>s. array_ok (ai_categories s) (ai_categories_count s)"
proof unfold_locales
  show "app_info_owned zero_app_info m = []" for m by (simp add: app_info_owned_def zero_app_info_def array_blocks_def)
  show "array_ok (ai_categories zero_app_info) (ai_categories_count zero_app_info) m" for m
    by (simp add: zero_app_info_def array_ok_def)
  show "zen_app_info_cleanup s m = Some (zero_app_info, m\<lparr>live := live m - set (app_info_owned s m)\<rparr>)"
    if "array_ok (ai_categories s) (ai_categories_count s) m" "distinct (app_info_owned s m)" "set (app_info_owned s m) \<subseteq> live m" for s m
    using frees_Some [of "ai_categories s" "ai_categories_count s" m "[ai_app_id s, ai_name s, ai_icon_path s, ai_exec s]"] that
    unfolding zen_app_info_cleanup_def app_info_owned_def by simp
qed

interpretation dep: owning_struct zero_deployment zen_deployment_cleanup deployment_owned
  "\<lambda>s. array_ok (dp_layered_packages s) (dp_layered_packages_count s)"
proof unfold_locales
  show "deployment_owned zero_deployment m = []" for m by (simp add: deployment_owned_def zero_deployment_def array_blocks_def)
  show "array_ok (dp_layered_packages zero_deployment) (dp_layered_packages_count zero_deployment) m" for m
    by (simp add: zero_deployment_def array_ok_def)
  show "zen_deployment_cleanup s m = Some (zero_deployment, m\<lparr>live := live m - set (deployment_owned s m)\<rparr>)"
    if "array_ok (dp_layered_packages s) (dp_layered_packages_count s) m" "distinct (deployment_owned s m)" "set (deployment_owned s m) \<subseteq> live m" for s m
    using frees_Some [of "dp_layered_packages s" "dp_layered_packages_count s" m "[dp_commit s, dp_version s]"] that
    unfolding zen_deployment_cleanup_def deployment_owned_def by simp
qed

interpretation upd: owning_struct zero_update_info zen_update_info_cleanup update_info_owned
  "\<lambda>_ _. True"
proof unfold_locales
  show "update_info_owned zero_update_info m = []" for m by (simp add: update_info_owned_def zero_update_info_def array_blocks_def)
  show "zen_update_info_cleanup s m = Some (zero_update_info, m\<lparr>live := live m - set (update_info_owned s m)\<rparr>)"
    if "distinct (update_info_owned s m)" "set (update_info_owned s m) \<subseteq> live m" for s m
    using frees_strings_Some [of "[ui_commit s, ui_version s, ui_changelog s]" m] that
    unfolding zen_update_info_cleanup_def update_info_owned_def by simp
qed simp

interpretation pkg: owning_struct zero_package_info zen_package_info_cleanup package_info_owned
  "\<lambda>s. array_ok (pk_permissions s) (pk_permissions_count s)"
proof unfold_locales
  show "package_info_owned zero_package_info m = []" for m by (simp add: package_info_owned_def zero_package_info_def array_blocks_def)
  show "array_ok (pk_permissions zero_package_info) (pk_permissions_count zero_package_info) m" for m
    by (simp add: zero_package_info_def array_ok_def)
  show "zen_package_info_cleanup s m = Some (zero_package_info, m\<lparr>live := live m - set (package_info_owned s m)\<rparr>)"
    if "array_ok (pk_permissions s) (pk_permissions_count s) m" "distinct (package_info_owned s m)" "set (package_info_owned s m) \<subseteq> live m" for s m
    using frees_Some [of "pk_permissions s" "pk_permissions_count s" m "[pk_name s, pk_version s, pk_description s]"] that
    unfolding zen_package_info_cleanup_def package_info_owned_def by simp
qed

interpretation blk: owning_struct zero_blocked_request zen_blocked_request_cleanup blocked_request_owned
  "\<lambda>_ _. True"
proof unfold_locales
  show "blocked_request_owned zero_blocked_request m = []" for m by (simp add: blocked_request_owned_def zero_blocked_request_def array_blocks_def)
  show "zen_blocked_request_cleanup s m = Some (zero_blocked_request, m\<lparr>live := live m - set (blocked_request_owned s m)\<rparr>)"
    if "distinct (blocked_request_owned s m)" "set (blocked_request_owned s m) \<subseteq> live m" for s m
    using frees_strings_Some [of "[br_source_app s, br_destination s, br_rule_matched s]" m] that
    unfolding zen_blocked_request_cleanup_def blocked_request_owned_def by simp
qed simp

interpretation aud: owning_struct zero_audit_entry zen_audit_entry_cleanup audit_entry_owned
  "\<lambda>_ _. True"
proof unfold_locales
  show "audit_entry_owned zero_audit_entry m = []" for m by (simp add: audit_entry_owned_def zero_audit_entry_def array_blocks_def)
  show "zen_audit_entry_cleanup s m = Some (zero_audit_entry, m\<lparr>live := live m - set (audit_entry_owned s m)\<rparr>)"
    if "distinct (audit_entry_owned s m)" "set (audit_entry_owned s m) \<subseteq> live m" for s m
    using frees_strings_Some [of "[ae_details s, ae_source_app s]" m] that
    unfolding zen_audit_entry_cleanup_def audit_entry_owned_def by simp
qed simp

interpretation bud: owning_struct zero_budget zen_budget_cleanup budget_owned
  "\<lambda>_ _. True"
proof unfold_locales
  show "budget_owned zero_budget m = []" for m by (simp add: budget_owned_def zero_budget_def array_blocks_def)
  show "zen_budget_cleanup s m = Some (zero_budget, m\<lparr>live := live m - set (budget_owned s m)\<rparr>)"
    if "distinct (budget_owned s m)" "set (budget_owned s m) \<subseteq> live m" for s m
    using frees_strings_Some [of "[bg_cgroup_path s]" m] that
    unfolding zen_budget_cleanup_def budget_owned_def by simp
qed simp

interpretation notif: owning_struct zero_notification zen_notification_cleanup notification_owned
  "\<lambda>_ _. True"
proof unfold_locales
  show "notification_owned zero_notification m = []" for m by (simp add: notification_owned_def zero_notification_def array_blocks_def)
  show "zen_notification_cleanup s m = Some (zero_notification, m\<lparr>live := live m - set (notification_owned s m)\<rparr>)"
    if "distinct (notification_owned s m)" "set (notification_owned s m) \<subseteq> live m" for s m
    using frees_strings_Some [of "[no_app_id s, no_summary s, no_body s, no_icon s]" m] that
    unfolding zen_notification_cleanup_def notification_owned_def by simp
qed simp

interpretation oobe: owning_struct zero_oobe_config zen_oobe_config_cleanup oobe_config_owned
  "\<lambda>_ _. True"
proof unfold_locales
  show "oobe_config_owned zero_oobe_config m = []" for m by (simp add: oobe_config_owned_def zero_oobe_config_def array_blocks_def)
  show "zen_oobe_config_cleanup s m = Some (zero_oobe_config, m\<lparr>live := live m - set (oobe_config_owned s m)\<rparr>)"
    if "distinct (oobe_config_owned s m)" "set (oobe_config_owned s m) \<subseteq> live m" for s m
    using frees_strings_Some [of "[oc_locale s, oc_timezone s, oc_keyboard_layout s, oc_username s, oc_password_hash s, oc_network_ssid s, oc_network_psk s]" m] that
    unfolding zen_oobe_config_cleanup_def oobe_config_owned_def by simp
qed simp

interpretation kiosk: owning_struct zero_kiosk_config zen_kiosk_config_cleanup kiosk_config_owned
  "\<lambda>_ _. True"
proof unfold_locales
  show "kiosk_config_owned zero_kiosk_config m = []" for m by (simp add: kiosk_config_owned_def zero_kiosk_config_def array_blocks_def)
  show "zen_kiosk_config_cleanup s m = Some (zero_kiosk_config, m\<lparr>live := live m - set (kiosk_config_owned s m)\<rparr>)"
    if "distinct (kiosk_config_owned s m)" "set (kiosk_config_owned s m) \<subseteq> live m" for s m
    using frees_strings_Some [of "[kc_app_id s]" m] that
    unfolding zen_kiosk_config_cleanup_def kiosk_config_owned_def by simp
qed simp

section \<open>Properties\<close>

text \<open>
  C33. Every cleanup function of the data models frees exactly the strings and arrays its struct
  owns, without a double free, resets the struct, and may be called twice.
\<close>

theorem model_cleanup_exact:
  "cleans zero_shelf_config zen_shelf_config_cleanup shelf_config_owned (\<lambda>s. array_ok (sc_pinned_apps s) (sc_pinned_apps_count s)) \<and>
   cleans zero_app_info zen_app_info_cleanup app_info_owned (\<lambda>s. array_ok (ai_categories s) (ai_categories_count s)) \<and>
   cleans zero_deployment zen_deployment_cleanup deployment_owned (\<lambda>s. array_ok (dp_layered_packages s) (dp_layered_packages_count s)) \<and>
   cleans zero_update_info zen_update_info_cleanup update_info_owned (\<lambda>_ _. True) \<and>
   cleans zero_package_info zen_package_info_cleanup package_info_owned (\<lambda>s. array_ok (pk_permissions s) (pk_permissions_count s)) \<and>
   cleans zero_blocked_request zen_blocked_request_cleanup blocked_request_owned (\<lambda>_ _. True) \<and>
   cleans zero_audit_entry zen_audit_entry_cleanup audit_entry_owned (\<lambda>_ _. True) \<and>
   cleans zero_budget zen_budget_cleanup budget_owned (\<lambda>_ _. True) \<and>
   cleans zero_notification zen_notification_cleanup notification_owned (\<lambda>_ _. True) \<and>
   cleans zero_oobe_config zen_oobe_config_cleanup oobe_config_owned (\<lambda>_ _. True) \<and>
   cleans zero_kiosk_config zen_kiosk_config_cleanup kiosk_config_owned (\<lambda>_ _. True)"
  by (intro conjI shelf.cleans_law app.cleans_law dep.cleans_law upd.cleans_law pkg.cleans_law blk.cleans_law
    aud.cleans_law bud.cleans_law notif.cleans_law oobe.cleans_law kiosk.cleans_law)

text \<open>
  A freshly initialised struct owns nothing, so its cleanup frees nothing and cannot fault,
  whatever the heap; and the defaults the initialisers set lie in their documented ranges.
\<close>

theorem model_init_owns_nothing:
  "zen_shelf_config_cleanup zen_shelf_config_init m = Some (zero_shelf_config, m) \<and>
   zen_app_info_cleanup zen_app_info_init m = Some (zero_app_info, m) \<and>
   zen_deployment_cleanup zen_deployment_init m = Some (zero_deployment, m) \<and>
   zen_update_info_cleanup zen_update_info_init m = Some (zero_update_info, m) \<and>
   zen_package_info_cleanup zen_package_info_init m = Some (zero_package_info, m) \<and>
   zen_blocked_request_cleanup zen_blocked_request_init m = Some (zero_blocked_request, m) \<and>
   zen_audit_entry_cleanup zen_audit_entry_init m = Some (zero_audit_entry, m) \<and>
   zen_budget_cleanup zen_budget_init m = Some (zero_budget, m) \<and>
   zen_notification_cleanup zen_notification_init m = Some (zero_notification, m) \<and>
   zen_oobe_config_cleanup zen_oobe_config_init m = Some (zero_oobe_config, m) \<and>
   zen_kiosk_config_cleanup zen_kiosk_config_init m = Some (zero_kiosk_config, m) \<and>
   32 \<le> sc_icon_size zen_shelf_config_init \<and> sc_icon_size zen_shelf_config_init \<le> 64 \<and>
   no_timeout_ms zen_notification_init = -1 \<and>
   1/2 \<le> ac_font_scale zen_accessibility_config_init \<and> ac_font_scale zen_accessibility_config_init \<le> 3"
  by (intro conjI)
     (simp_all add: c_free_def free_string_array_def
        zen_shelf_config_cleanup_def zen_shelf_config_init_def zero_shelf_config_def
        zen_app_info_cleanup_def zen_app_info_init_def zero_app_info_def
        zen_deployment_cleanup_def zen_deployment_init_def zero_deployment_def
        zen_update_info_cleanup_def zen_update_info_init_def zero_update_info_def
        zen_package_info_cleanup_def zen_package_info_init_def zero_package_info_def
        zen_blocked_request_cleanup_def zen_blocked_request_init_def zero_blocked_request_def
        zen_audit_entry_cleanup_def zen_audit_entry_init_def zero_audit_entry_def
        zen_budget_cleanup_def zen_budget_init_def zero_budget_def
        zen_notification_cleanup_def zen_notification_init_def zero_notification_def
        zen_oobe_config_cleanup_def zen_oobe_config_init_def zero_oobe_config_def
        zen_kiosk_config_cleanup_def zen_kiosk_config_init_def zero_kiosk_config_def
        zen_accessibility_config_init_def)

end
