(* ===== verification/Zen_Session.thy ===== *)
theory Zen_Session
  imports Zen_Lock
begin

text \<open>
  The session manager of \<open>src/session/src/session.c\<close>, a process of its own: it reads a user name
  and a password from the terminal, authenticates with PAM, asks logind for a session, runs
  the compositor and ends the session. Standard input is the text still to be read; PAM is a
  tree of prompts and answers, since its conversation function reads from the same input.
\<close>

section \<open>The process\<close>

datatype session_call =
    Print string
  | Pam_result string pam_ret          \<comment> \<open>\<open>pam_authenticate\<close> for a user, and what it returned\<close>
  | Create_session
  | Spawn "(string \<times> string) list" "string list"   \<comment> \<open>environment and arguments of a child\<close>
  | Spawn_failed
  | System string
  | Bus_unref addr

text \<open>
  \<open>tty_echo\<close> is the echo flag of the terminal, \<open>None\<close> when standard input is not a terminal;
  \<open>allocs\<close> counts the allocations made, so that each may succeed or fail.
\<close>

record session =
  stdin_text :: string
  tty_echo :: "bool option"
  s_bus :: ptr
  s_session_id :: "char list"
  allocs :: nat
  scalls :: "session_call list"

text \<open>
  PAM returns, or asks the conversation function something and goes on with its answer.
\<close>

datatype pam_dialog =
    Pam_return pam_ret
  | Pam_ask "pam_style list" "pam_ret \<times> cstring list \<Rightarrow> pam_dialog"

record session_env =
  s_have_pam :: bool
  s_pam_start :: "nat \<Rightarrow> string \<Rightarrow> pam_ret"        \<comment> \<open>by attempt and user name\<close>
  s_pam_authenticate :: "nat \<Rightarrow> string \<Rightarrow> pam_dialog"
  s_malloc_ok :: "nat \<Rightarrow> bool"
  s_tcsetattr_ok :: bool
  s_open_system :: "int \<times> addr"                    \<comment> \<open>\<open>sd_bus_open_system\<close>\<close>
  s_create_ret :: int                              \<comment> \<open>the call of \<open>CreateSession\<close>\<close>
  s_create_id :: cstring                           \<comment> \<open>the id read from its reply, if it can be read\<close>
  s_fork_ok :: bool
  s_oobe_file :: bool

definition say :: "session_call \<Rightarrow> session \<Rightarrow> session" where
  "say c s = s\<lparr>scalls := scalls s @ [c]\<rparr>"

definition session_alloc :: "session_env \<Rightarrow> session \<Rightarrow> bool \<times> session" where
  "session_alloc E s = (s_malloc_ok E (allocs s), s\<lparr>allocs := Suc (allocs s)\<rparr>)"

section \<open>Reading from the terminal\<close>

text \<open>\<open>fgets(buf, bufsz, stdin)\<close>: at most \<open>bufsz - 1\<close> characters, up to and with a line break.\<close>

fun take_line :: "nat \<Rightarrow> string \<Rightarrow> string" where
  "take_line 0 cs = []"
| "take_line (Suc n) [] = []"
| "take_line (Suc n) (c # cs) = (if c = CHR 0x0A then [c] else c # take_line n cs)"

definition fgets :: "nat \<Rightarrow> session \<Rightarrow> cstring \<times> session" where
  "fgets bufsz s =
     (if stdin_text s = [] then (None, s)
      else let line = take_line (bufsz - 1) (stdin_text s)
           in (Some line, s\<lparr>stdin_text := drop (length line) (stdin_text s)\<rparr>))"

text \<open>What \<open>strlen\<close> and the removal of a trailing line break leave of the buffer.\<close>

definition chomp :: "string \<Rightarrow> string" where
  "chomp buf = (let t = c_str buf in if t \<noteq> [] \<and> last t = CHR 0x0A then butlast t else t)"

definition tcsetattr_echo :: "session_env \<Rightarrow> bool \<Rightarrow> session \<Rightarrow> session" where
  "tcsetattr_echo E b s = (if s_tcsetattr_ok E then s\<lparr>tty_echo := Some b\<rparr> else s)"

text \<open>The saved settings, when there are any: \<open>echo_disabled\<close> and \<open>old_term\<close>.\<close>

definition disable_echo :: "session_env \<Rightarrow> session \<Rightarrow> bool option \<times> session" where
  "disable_echo E s = (case tty_echo s of
      None \<Rightarrow> (None, s)
    | Some old \<Rightarrow> (Some old, tcsetattr_echo E False s))"

definition restore_echo :: "session_env \<Rightarrow> bool option \<Rightarrow> session \<Rightarrow> session" where
  "restore_echo E old_term s = (case old_term of
      None \<Rightarrow> s
    | Some old \<Rightarrow> say (Print ''\<newline>'') (tcsetattr_echo E old s))"

section \<open>The conversation\<close>

definition answer_prompt :: "session_env \<Rightarrow> pam_style \<Rightarrow> session \<Rightarrow> cstring \<times> session" where
  "answer_prompt E style s =
     (let (old_term, s) = (if style = PAM_PROMPT_ECHO_OFF then disable_echo E s else (None, s));
          (line, s) = fgets 512 s;
          (ok, s) = session_alloc E s;
          resp = (if ok then Some (case line of Some buf \<Rightarrow> chomp buf | None \<Rightarrow> '''') else None)
      in (resp, restore_echo E old_term s))"

text \<open>The loop; \<open>reply\<close> holds the answers so far, which are freed when an allocation fails.\<close>

primrec answer_prompts ::
  "session_env \<Rightarrow> pam_style list \<Rightarrow> cstring list \<Rightarrow> session \<Rightarrow> (pam_ret \<times> cstring list) \<times> session" where
  "answer_prompts E [] reply s = ((PAM_SUCCESS, reply), s)"
| "answer_prompts E (m # msgs) reply s =
     (if m = PAM_PROMPT_ECHO_OFF \<or> m = PAM_PROMPT_ECHO_ON
      then let (resp, s) = answer_prompt E m s
           in if resp = None then ((PAM_BUF_ERR, []), s)
              else answer_prompts E msgs (reply @ [resp]) s
      else answer_prompts E msgs (reply @ [None]) s)"

definition session_pam_conv_fn ::
  "session_env \<Rightarrow> pam_style list \<Rightarrow> session \<Rightarrow> (pam_ret \<times> cstring list) \<times> session" where
  "session_pam_conv_fn E msgs s =
     (let (ok, s) = session_alloc E s
      in if ok then answer_prompts E msgs [] s else ((PAM_BUF_ERR, []), s))"

primrec run_dialog :: "session_env \<Rightarrow> pam_dialog \<Rightarrow> session \<Rightarrow> pam_ret \<times> session" where
  "run_dialog E (Pam_return r) s = (r, s)"
| "run_dialog E (Pam_ask msgs k) s =
     (case session_pam_conv_fn E msgs s of (ans, s') \<Rightarrow> run_dialog E (k ans) s')"

section \<open>Login\<close>

definition read_password :: "session_env \<Rightarrow> session \<Rightarrow> string \<times> session" where
  "read_password E s =
     (let (old_term, s) = disable_echo E s;
          (line, s) = fgets 512 s;
          password = (case line of Some buf \<Rightarrow> chomp buf | None \<Rightarrow> '''')
      in (password, restore_echo E old_term s))"

text \<open>
  One round of the loop of \<open>zen_session_init\<close>. The password that is read is a local array that
  nothing else refers to.
\<close>

definition login_attempt :: "session_env \<Rightarrow> nat \<Rightarrow> session \<Rightarrow> bool \<times> session" where
  "login_attempt E attempt s =
     (let s = say (Print ''Username: '') s;
          (line, s) = fgets 256 s
      in case line of
           None \<Rightarrow> (False, s)
         | Some buf \<Rightarrow>
             let username = chomp buf;
                 s = say (Print ''Password: '') s;
                 (password, s) = read_password E s
             in if s_pam_start E attempt username \<noteq> PAM_SUCCESS then (False, s)
                else let (ret, s) = run_dialog E (s_pam_authenticate E attempt username) s;
                         s = say (Pam_result username ret) s
                     in (ret = PAM_SUCCESS, s))"

text \<open>\<open>n\<close> attempts are left.\<close>

primrec login_loop :: "session_env \<Rightarrow> nat \<Rightarrow> session \<Rightarrow> bool \<times> session" where
  "login_loop E 0 s = (False, s)"
| "login_loop E (Suc n) s = (case login_attempt E (2 - n) s of
      (authenticated, s') \<Rightarrow> if authenticated then (True, s') else login_loop E n s')"

definition zen_session_init :: "session_env \<Rightarrow> session \<Rightarrow> session \<times> int" where
  "zen_session_init E s =
     (if s_have_pam E
      then case login_loop E 3 s of (authenticated, s') \<Rightarrow> (s', if authenticated then 0 else -1)
      else (s, 0))"

definition zen_session_oobe_complete :: "session_env \<Rightarrow> int" where
  "zen_session_oobe_complete E = (if s_oobe_file E then 1 else 0)"

section \<open>The session\<close>

text \<open>\<open>snprintf(buf, bufsz, ...)\<close> into an array that is all NUL.\<close>

definition snprintf_into :: "nat \<Rightarrow> string \<Rightarrow> char list" where
  "snprintf_into bufsz t = (let u = take (bufsz - 1) t in u @ replicate (bufsz - length u) NUL)"

definition logind_id :: "session_env \<Rightarrow> ptr \<Rightarrow> string" where
  "logind_id E sbus =
     (if sbus = None \<or> s_create_ret E < 0 then ''zen-dev-session''
      else case s_create_id E of Some i \<Rightarrow> i | None \<Rightarrow> ''zen-dev-session'')"

definition zen_session_run :: "session_env \<Rightarrow> session \<Rightarrow> session" where
  "zen_session_run E s =
     (let (ret, b) = s_open_system E;
          s = (if ret < 0 then s else s\<lparr>s_bus := Some b\<rparr>);
          s = (if s_bus s = None then s else say Create_session s);
          s = s\<lparr>s_session_id := snprintf_into 256 (logind_id E (s_bus s))\<rparr>;
          sid = c_str (s_session_id s)
      in if \<not> s_fork_ok E then say Spawn_failed s
         else let s = say (Spawn [(''XDG_SESSION_TYPE'', ''wayland''), (''XDG_SESSION_ID'', sid)]
                        [''zen-compositor'']) s
              in if sid \<noteq> [] then say (System (take 511 (''loginctl terminate-session '' @ sid))) s
                 else s)"

definition zen_session_destroy :: "session \<Rightarrow> session" where
  "zen_session_destroy s =
     (let s = (case s_bus s of None \<Rightarrow> s | Some b \<Rightarrow> (say (Bus_unref b) s)\<lparr>s_bus := None\<rparr>)
      in s\<lparr>s_session_id := replicate 256 NUL\<rparr>)"

definition session_main :: "session_env \<Rightarrow> session \<Rightarrow> session \<times> int" where
  "session_main E s = (case zen_session_init E s of (s, ret) \<Rightarrow>
     if ret \<noteq> 0 then (s, 1)
     else (zen_session_destroy (zen_session_run E s), 0))"

section \<open>The terminal\<close>

lemma session_simps [simp]:
  "stdin_text (say c s) = stdin_text s" "tty_echo (say c s) = tty_echo s"
  "scalls (say c s) = scalls s @ [c]" "allocs (say c s) = allocs s" "s_bus (say c s) = s_bus s"
  "s_session_id (say c s) = s_session_id s"
  "tty_echo (snd (fgets n s)) = tty_echo s" "scalls (snd (fgets n s)) = scalls s"
  "tty_echo (snd (session_alloc E s)) = tty_echo s" "scalls (snd (session_alloc E s)) = scalls s"
  by (simp_all add: say_def fgets_def session_alloc_def Let_def)

lemma fgets_keeps: "fgets n s = (line, s') \<Longrightarrow> scalls s' = scalls s \<and> tty_echo s' = tty_echo s"
  by (auto simp: fgets_def Let_def split: if_splits)

text \<open>Prompts only print.\<close>

definition is_print :: "session_call \<Rightarrow> bool" where
  "is_print c \<longleftrightarrow> (\<exists>t. c = Print t)"

definition prints :: "session \<Rightarrow> session \<Rightarrow> bool" where
  "prints s s' \<longleftrightarrow> (\<exists>ps. scalls s' = scalls s @ ps \<and> list_all is_print ps)"

lemma prints_same: "scalls s' = scalls s \<Longrightarrow> prints s s'"
  by (simp add: prints_def)

lemma prints_say: "prints s s' \<Longrightarrow> prints s (say (Print t) s')"
  by (auto simp: prints_def is_print_def)

lemma prints_trans: "prints r s \<Longrightarrow> prints s t \<Longrightarrow> prints r t"
  by (auto simp: prints_def)

lemma restore_echo_prints: "scalls s' = scalls s \<Longrightarrow> prints s (restore_echo E old s')"
  by (auto simp: restore_echo_def tcsetattr_echo_def prints_def is_print_def split: option.split)

lemma disable_echo_scalls: "disable_echo E s = (old, s1) \<Longrightarrow> scalls s1 = scalls s"
  by (auto simp: disable_echo_def tcsetattr_echo_def split: option.splits if_splits)

text \<open>
  Between disabling and restoring the echo nothing else touches the terminal, so it ends as
  it was.
\<close>

lemma echo_round_trip:
  assumes "s_tcsetattr_ok E" "tty_echo s' = tty_echo (snd (disable_echo E s))"
  shows "tty_echo (restore_echo E (fst (disable_echo E s)) s') = tty_echo s"
  using assms by (simp add: restore_echo_def disable_echo_def tcsetattr_echo_def split: option.split)

lemma read_password_effect:
  "prints s (snd (read_password E s))"
  "s_tcsetattr_ok E \<Longrightarrow> tty_echo (snd (read_password E s)) = tty_echo s"
proof -
  obtain old s1 where d: "disable_echo E s = (old, s1)" by (cases "disable_echo E s")
  obtain line s2 where f: "fgets 512 s1 = (line, s2)" by (cases "fgets 512 s1")
  have s2: "scalls s2 = scalls s" "tty_echo s2 = tty_echo (snd (disable_echo E s))"
    using session_simps(7,8) [of 512 s1] disable_echo_scalls [OF d] d f by simp_all
  have r: "snd (read_password E s) = restore_echo E old s2" by (simp add: read_password_def d f)
  show "prints s (snd (read_password E s))" unfolding r using s2(1) by (rule restore_echo_prints)
  show "tty_echo (snd (read_password E s)) = tty_echo s" if "s_tcsetattr_ok E"
    unfolding r using echo_round_trip [OF that s2(2)] by (simp add: d)
qed

lemma answer_prompt_effect:
  "prints s (snd (answer_prompt E m s))"
  "s_tcsetattr_ok E \<Longrightarrow> tty_echo (snd (answer_prompt E m s)) = tty_echo s"
proof -
  let ?d = "if m = PAM_PROMPT_ECHO_OFF then disable_echo E s else (None, s)"
  obtain old s1 where d: "?d = (old, s1)" by (cases ?d)
  obtain line s2 where f: "fgets 512 s1 = (line, s2)" by (cases "fgets 512 s1")
  obtain ok s3 where a: "session_alloc E s2 = (ok, s3)" by (cases "session_alloc E s2")
  have s3: "scalls s3 = scalls s" "tty_echo s3 = tty_echo s1"
    using session_simps(7,8) [of 512 s1] session_simps(9,10) [of E s2] d f a
    by (auto split: if_splits dest: disable_echo_scalls)
  have r: "snd (answer_prompt E m s) = restore_echo E old s3" by (simp add: answer_prompt_def d f a)
  show "prints s (snd (answer_prompt E m s))" unfolding r using s3(1) by (rule restore_echo_prints)
  show "tty_echo (snd (answer_prompt E m s)) = tty_echo s" if "s_tcsetattr_ok E"
    unfolding r using echo_round_trip [OF that, of s3 s] s3 d
    by (auto simp: restore_echo_def split: if_splits)
qed

lemma answer_prompts_effect:
  "prints s (snd (answer_prompts E msgs reply s)) \<and>
   (s_tcsetattr_ok E \<longrightarrow> tty_echo (snd (answer_prompts E msgs reply s)) = tty_echo s)"
proof (induction msgs arbitrary: reply s)
  case (Cons m msgs)
  obtain resp s1 where a: "answer_prompt E m s = (resp, s1)" by (cases "answer_prompt E m s")
  with answer_prompt_effect [where E = E and s = s and m = m] have "prints s s1" "s_tcsetattr_ok E \<Longrightarrow> tty_echo s1 = tty_echo s"
    by simp_all
  with a Cons.IH [of s1 "reply @ [resp]"] Cons.IH [of s "reply @ [None]"] show ?case
    by (auto intro: prints_trans)
qed (simp add: prints_same)

lemma conv_effect:
  "prints s (snd (session_pam_conv_fn E msgs s)) \<and>
   (s_tcsetattr_ok E \<longrightarrow> tty_echo (snd (session_pam_conv_fn E msgs s)) = tty_echo s)"
  using answer_prompts_effect [of "snd (session_alloc E s)" E msgs "[]"]
  by (auto simp: session_pam_conv_fn_def session_alloc_def prints_def)

lemma run_dialog_effect:
  "prints s (snd (run_dialog E d s)) \<and>
   (s_tcsetattr_ok E \<longrightarrow> tty_echo (snd (run_dialog E d s)) = tty_echo s)"
proof (induction d arbitrary: s)
  case (Pam_ask msgs k)
  obtain ans s1 where "session_pam_conv_fn E msgs s = (ans, s1)" by (cases "session_pam_conv_fn E msgs s")
  with conv_effect [of s E msgs] Pam_ask.IH [of "k ans" s1] show ?case
    by (auto intro: prints_trans)
qed (simp add: prints_same)

section \<open>Login\<close>

text \<open>One attempt prints, and asks PAM at most once.\<close>

lemma login_attempt_effect:
  assumes "login_attempt E i s = (ok, s')"
  shows "\<exists>ps. list_all is_print ps \<and> (scalls s' = scalls s @ ps \<and> \<not> ok \<or>
      (\<exists>u r. scalls s' = scalls s @ ps @ [Pam_result u r] \<and> (ok \<longleftrightarrow> r = PAM_SUCCESS)))"
    and "s_tcsetattr_ok E \<Longrightarrow> tty_echo s' = tty_echo s"
proof -
  define s1 where "s1 = say (Print ''Username: '') s"
  obtain line s2 where f: "fgets 256 s1 = (line, s2)" by (cases "fgets 256 s1")
  have "prints s s1" unfolding s1_def by (rule prints_say) (simp add: prints_same)
  then have s2: "prints s s2" "tty_echo s2 = tty_echo s"
    using fgets_keeps [OF f] by (auto simp: s1_def prints_def)
  define s3 where "s3 = say (Print ''Password: '') s2"
  obtain pw s4 where p: "read_password E s3 = (pw, s4)" by (cases "read_password E s3")
  have s4: "prints s s4" "s_tcsetattr_ok E \<Longrightarrow> tty_echo s4 = tty_echo s"
    using prints_trans [OF prints_say [OF s2(1), of "''Password: ''"], of s4] s2(2)
      read_password_effect(1) [of s3 E] read_password_effect(2) [of E s3] p by (simp_all add: s3_def)
  have "(\<exists>ps. list_all is_print ps \<and> (scalls s' = scalls s @ ps \<and> \<not> ok \<or>
      (\<exists>u r. scalls s' = scalls s @ ps @ [Pam_result u r] \<and> (ok \<longleftrightarrow> r = PAM_SUCCESS)))) \<and>
    (s_tcsetattr_ok E \<longrightarrow> tty_echo s' = tty_echo s)"
  proof (cases line)
    case None
    with assms f s2 show ?thesis by (auto simp: login_attempt_def s1_def Let_def prints_def)
  next
    case (Some buf)
    show ?thesis
    proof (cases "s_pam_start E i (chomp buf) = PAM_SUCCESS")
      case False
      with assms f p Some s4 show ?thesis
        by (auto simp: login_attempt_def s1_def s3_def Let_def prints_def)
    next
      case True
      obtain r s5 where r: "run_dialog E (s_pam_authenticate E i (chomp buf)) s4 = (r, s5)"
        by (cases "run_dialog E (s_pam_authenticate E i (chomp buf)) s4")
      then have s5: "prints s s5" "s_tcsetattr_ok E \<Longrightarrow> tty_echo s5 = tty_echo s"
        using run_dialog_effect [of s4 E "s_pam_authenticate E i (chomp buf)"] s4 prints_trans [of s s4 s5]
        by auto
      from assms f p Some True r have "ok = (r = PAM_SUCCESS)" "s' = say (Pam_result (chomp buf) r) s5"
        by (auto simp: login_attempt_def s1_def s3_def Let_def)
      with s5 show ?thesis by (auto simp: prints_def)
    qed
  qed
  then show "\<exists>ps. list_all is_print ps \<and> (scalls s' = scalls s @ ps \<and> \<not> ok \<or>
      (\<exists>u r. scalls s' = scalls s @ ps @ [Pam_result u r] \<and> (ok \<longleftrightarrow> r = PAM_SUCCESS)))"
    and "s_tcsetattr_ok E \<Longrightarrow> tty_echo s' = tty_echo s" by blast+
qed

fun asks_pam :: "session_call \<Rightarrow> bool" where
  "asks_pam (Pam_result u r) = True"
| "asks_pam _ = False"

fun starts_compositor :: "session_call \<Rightarrow> bool" where
  "starts_compositor (Spawn env argv) = True"
| "starts_compositor _ = False"

lemma prints_quiet:
  "list_all is_print ps \<Longrightarrow> filter asks_pam ps = [] \<and> \<not> list_ex starts_compositor ps \<and>
     Pam_result u r \<notin> set ps"
  by (induction ps) (auto simp: is_print_def)

text \<open>\<open>n\<close> attempts ask PAM at most \<open>n\<close> times, and succeed exactly when PAM accepted.\<close>

lemma login_loop_effect:
  "login_loop E n s = (ok, s') \<Longrightarrow>
   (\<exists>cs. scalls s' = scalls s @ cs \<and> length (filter asks_pam cs) \<le> n \<and> \<not> list_ex starts_compositor cs \<and>
     (ok \<longleftrightarrow> (\<exists>u. Pam_result u PAM_SUCCESS \<in> set cs))) \<and>
   (s_tcsetattr_ok E \<longrightarrow> tty_echo s' = tty_echo s)"
proof (induction n arbitrary: s)
  case (Suc n)
  obtain a s1 where a: "login_attempt E (2 - n) s = (a, s1)" by (cases "login_attempt E (2 - n) s")
  from login_attempt_effect(1) [OF a] obtain ps where ps: "list_all is_print ps"
    and alt: "scalls s1 = scalls s @ ps \<and> \<not> a \<or>
      (\<exists>u r. scalls s1 = scalls s @ ps @ [Pam_result u r] \<and> (a \<longleftrightarrow> r = PAM_SUCCESS))" by blast
  note q = prints_quiet [OF ps]
  from alt obtain ds where ds: "scalls s1 = scalls s @ ds" "length (filter asks_pam ds) \<le> 1"
    "\<not> list_ex starts_compositor ds" "a \<longleftrightarrow> (\<exists>u. Pam_result u PAM_SUCCESS \<in> set ds)"
    using q by (elim disjE exE conjE) (auto simp: q)
  show ?case
  proof (cases a)
    case True
    with Suc.prems a have "s' = s1" "ok" by auto
    with ds True login_attempt_effect(2) [OF a] show ?thesis by auto
  next
    case False
    with Suc.prems a have "login_loop E n s1 = (ok, s')" by simp
    from Suc.IH [OF this] obtain cs where cs: "scalls s' = scalls s1 @ cs" "length (filter asks_pam cs) \<le> n"
      "\<not> list_ex starts_compositor cs" "ok \<longleftrightarrow> (\<exists>u. Pam_result u PAM_SUCCESS \<in> set cs)"
      "s_tcsetattr_ok E \<longrightarrow> tty_echo s' = tty_echo s1" by blast
    with ds False login_attempt_effect(2) [OF a] show ?thesis
      by (intro conjI exI [of _ "ds @ cs"]) auto
  qed
qed simp


text \<open>
  C30. The terminal is left as it was found: whatever is typed, however PAM behaves and
  however the login ends, echo is on afterwards exactly when it was on before, provided the
  terminal accepts its settings.
\<close>

theorem login_restores_echo:
  assumes "s_tcsetattr_ok E"
  shows "tty_echo (fst (session_main E s)) = tty_echo s"
proof -
  have run: "tty_echo (zen_session_run E t) = tty_echo t" for t
    by (auto simp: zen_session_run_def Let_def split: prod.split)
  have destroy: "tty_echo (zen_session_destroy t) = tty_echo t" for t
    by (simp add: zen_session_destroy_def split: option.split)
  obtain ok s1 where l: "login_loop E 3 s = (ok, s1)" by (cases "login_loop E 3 s")
  with login_loop_effect [OF l] assms show ?thesis
    by (auto simp: session_main_def zen_session_init_def run destroy)
qed

section \<open>What is done with the password\<close>

lemma take_line_line:
  "CHR 0x0A \<notin> set l \<Longrightarrow> length l < n \<Longrightarrow> take_line n (l @ CHR 0x0A # rest) = l @ [CHR 0x0A]"
proof (induction l arbitrary: n)
  case Nil
  then show ?case by (cases n) auto
next
  case (Cons c l)
  then show ?case by (cases n) auto
qed

lemma fgets_line:
  assumes "stdin_text s = l @ CHR 0x0A # rest" "CHR 0x0A \<notin> set l" "length l < n - 1"
  shows "fgets n s = (Some (l @ [CHR 0x0A]), s\<lparr>stdin_text := rest\<rparr>)"
  using take_line_line [OF assms(2,3)] by (simp add: fgets_def assms(1))

lemma read_password_rest:
  assumes "CHR 0x0A \<notin> set p" "length p \<le> 510"
  shows "snd (read_password E (s\<lparr>stdin_text := p @ CHR 0x0A # rest\<rparr>)) =
    restore_echo E (fst (disable_echo E s)) (snd (disable_echo E s)\<lparr>stdin_text := rest\<rparr>)"
proof -
  have d: "disable_echo E (s\<lparr>stdin_text := t\<rparr>) =
      (fst (disable_echo E s), snd (disable_echo E s)\<lparr>stdin_text := t\<rparr>)" for t
    by (simp add: disable_echo_def tcsetattr_echo_def split: option.split)
  let ?s = "snd (disable_echo E s)\<lparr>stdin_text := p @ CHR 0x0A # rest\<rparr>"
  have "fgets 512 ?s = (Some (p @ [CHR 0x0A]), ?s\<lparr>stdin_text := rest\<rparr>)"
    using assms by (intro fgets_line) simp_all
  then show ?thesis by (simp add: read_password_def d)
qed

lemma login_attempt_ignores:
  assumes "CHR 0x0A \<notin> set u" "length u \<le> 254" "CHR 0x0A \<notin> set p" "length p \<le> 510"
    and "CHR 0x0A \<notin> set q" "length q \<le> 510"
  shows "login_attempt E i (s\<lparr>stdin_text := u @ CHR 0x0A # p @ CHR 0x0A # rest\<rparr>) =
    login_attempt E i (s\<lparr>stdin_text := u @ CHR 0x0A # q @ CHR 0x0A # rest\<rparr>)"
proof -
  have f: "fgets 256 ((say c s)\<lparr>stdin_text := u @ CHR 0x0A # t\<rparr>) =
      (Some (u @ [CHR 0x0A]), (say c s)\<lparr>stdin_text := t\<rparr>)" for c t
    using fgets_line [of "(say c s)\<lparr>stdin_text := u @ CHR 0x0A # t\<rparr>" u t 256] assms(1,2)
    by simp
  have say: "say c (t\<lparr>stdin_text := x\<rparr>) = (say c t)\<lparr>stdin_text := x\<rparr>" for c t x by (simp add: say_def)
  have r: "read_password E (t\<lparr>stdin_text := p @ CHR 0x0A # rest\<rparr>) =
      (fst (read_password E (t\<lparr>stdin_text := p @ CHR 0x0A # rest\<rparr>)),
       snd (read_password E (t\<lparr>stdin_text := q @ CHR 0x0A # rest\<rparr>)))" for t
    using read_password_rest [OF assms(3,4)] read_password_rest [OF assms(5,6)]
    by (simp add: prod_eq_iff)
  show ?thesis
    unfolding login_attempt_def Let_def
    by (simp add: f say) (subst r, simp add: case_prod_beta)
qed

text \<open>
  C36. The password typed at the prompt of the login is thrown away: two inputs that differ
  in the line behind the user name only lead to the same calls, the same exit code and the
  same state. PAM's conversation reads the password from a further line.
\<close>

theorem typed_login_password_is_ignored:
  assumes "s_have_pam E" "CHR 0x0A \<notin> set u" "length u \<le> 254"
    and "CHR 0x0A \<notin> set p" "length p \<le> 510" "CHR 0x0A \<notin> set q" "length q \<le> 510"
  shows "session_main E (s\<lparr>stdin_text := u @ CHR 0x0A # p @ CHR 0x0A # rest\<rparr>) =
    session_main E (s\<lparr>stdin_text := u @ CHR 0x0A # q @ CHR 0x0A # rest\<rparr>)"
  using login_attempt_ignores [OF assms(2-7)] assms(1)
  by (simp add: session_main_def zen_session_init_def numeral_3_eq_3)

section \<open>The session id\<close>

lemma c_str_snprintf:
  assumes "NUL \<notin> set t" "0 < n"
  shows "c_str (snprintf_into n t) = take (n - 1) t"
proof -
  let ?u = "take (n - 1) t"
  have "NUL \<notin> set ?u" using assms(1) by (meson in_set_takeD)
  moreover obtain k where "n - length ?u = Suc k" using assms(2) by (cases "n - length ?u") auto
  ultimately show ?thesis
    using c_str_append_NUL [of ?u "replicate k NUL"] by (simp add: snprintf_into_def Let_def)
qed

lemma holds_text_snprintf:
  assumes "NUL \<notin> set t" "0 < n"
  shows "holds_text n (snprintf_into n t) (take (n - 1) t)"
proof -
  have "NUL \<notin> set (take (n - 1) t)" using assms(1) by (meson in_set_takeD)
  moreover have "length (take (n - 1) t) < n" using assms(2) by simp
  ultimately show ?thesis unfolding holds_text_def snprintf_into_def Let_def by blast
qed

text \<open>
  The compositor runs in the session that is ended afterwards: its environment carries
  the id logind gave, or a fixed one when there is none, cut off at 255 characters so that the
  buffer stays terminated; and the command that ends the session names the same id in full.
\<close>

theorem session_id_consistent:
  assumes "s_fork_ok E" "\<And>i. s_create_id E = Some i \<Longrightarrow> NUL \<notin> set i" "s_bus s = None"
  shows "\<exists>sid. holds_text 256 (s_session_id (zen_session_run E s)) sid \<and>
    sid = take 255 (logind_id E (s_bus (zen_session_run E s))) \<and>
    scalls (zen_session_run E s) = scalls s @
      (if fst (s_open_system E) < 0 then [] else [Create_session]) @
      [Spawn [(''XDG_SESSION_TYPE'', ''wayland''), (''XDG_SESSION_ID'', sid)] [''zen-compositor'']] @
      (if sid = [] then [] else [System (''loginctl terminate-session '' @ sid)])"
proof -
  have nul: "NUL \<notin> set (logind_id E b)" for b
    using assms(2) by (auto simp: logind_id_def split: option.split)
  note c = c_str_snprintf [OF nul, of 256] and h = holds_text_snprintf [OF nul, of 256]
  have len: "take 511 (''loginctl terminate-session '' @ take 255 t) = ''loginctl terminate-session '' @ take 255 t" for t
    by simp
  show ?thesis
    using assms(1,3) c h c_str_snprintf [of "[]" 256] holds_text_snprintf [of "[]" 256]
    by (auto simp: zen_session_run_def Let_def case_prod_beta)
qed

section \<open>A login\<close>

text \<open>PAM asks once for a password, without echo, and accepts \<open>zen\<close>; the user types another one first.\<close>

definition demo_dialog :: pam_dialog where
  "demo_dialog = Pam_ask [PAM_PROMPT_ECHO_OFF] (\<lambda>(r, reply).
     Pam_return (if reply = [Some ''zen''] then PAM_SUCCESS else PAM_OTHER 7))"

definition demo_senv :: session_env where
  "demo_senv = \<lparr>s_have_pam = True, s_pam_start = (\<lambda>_ _. PAM_SUCCESS), s_pam_authenticate = (\<lambda>_ _. demo_dialog),
     s_malloc_ok = (\<lambda>_. True), s_tcsetattr_ok = True, s_open_system = (0, 9), s_create_ret = 0,
     s_create_id = Some ''c2'', s_fork_ok = True, s_oobe_file = True\<rparr>"

definition demo_session :: "string \<Rightarrow> session" where
  "demo_session typed = \<lparr>stdin_text = typed, tty_echo = Some True, s_bus = None,
     s_session_id = replicate 256 NUL, allocs = 0, scalls = []\<rparr>"


theorem login_restores_echo_witness:
  "tty_echo (fst (session_main demo_senv (demo_session ''ada\<newline>zen\<newline>zen\<newline>''))) = Some True"
  using login_restores_echo [of demo_senv "demo_session ''ada\<newline>zen\<newline>zen\<newline>''"]
  by (simp add: demo_senv_def demo_session_def)

theorem typed_login_password_is_ignored_witness:
  "session_main demo_senv (demo_session (''ada'' @ CHR 0x0A # ''zen'' @ CHR 0x0A # ''x\<newline>'')) =
   session_main demo_senv (demo_session (''ada'' @ CHR 0x0A # ''wrong'' @ CHR 0x0A # ''x\<newline>''))"
  using typed_login_password_is_ignored [where E = demo_senv and u = "''ada''" and p = "''zen''" and
    q = "''wrong''" and s = "demo_session ''''" and rest = "''x\<newline>''"]
  by (simp add: demo_senv_def demo_session_def)

theorem session_id_consistent_witness:
  "scalls (zen_session_run demo_senv (demo_session '''')) =
     [Create_session, Spawn [(''XDG_SESSION_TYPE'', ''wayland''), (''XDG_SESSION_ID'', ''c2'')] [''zen-compositor''],
      System ''loginctl terminate-session c2'']"
proof -
  have c: "s_fork_ok demo_senv" "\<And>i. s_create_id demo_senv = Some i \<Longrightarrow> NUL \<notin> set i"
    "s_bus (demo_session '''') = None" by (auto simp: demo_senv_def demo_session_def)
  have "s_bus (zen_session_run demo_senv (demo_session '''')) = Some 9"
    by (simp add: zen_session_run_def demo_senv_def Let_def)
  with session_id_consistent [OF c] show ?thesis
    by (auto simp: demo_senv_def demo_session_def logind_id_def)
qed

end
