(* ===== verification/Zen_Ledger.thy ===== *)
theory Zen_Ledger
  imports Zen_Cairo "HOL-Library.Multiset"
begin

text \<open>
  Accounts of library objects across modules. A trace of calls takes the objects held before
  to the objects held after; what is held is a multiset, so that modules which acquire and
  release in different orders can be composed, each carrying the others' objects along.
\<close>

lemma resource_step_perm:
  assumes "resource_step c R = Some S" "mset R' = mset R"
  shows "\<exists>S'. resource_step c R' = Some S' \<and> mset S' = mset S"
proof (cases c)
  case (Release k a)
  have "set R' = set R" using assms(2) by (rule mset_eq_setD)
  with Release assms show ?thesis by (auto split: if_splits)
qed (use assms in auto)

lemma replay_perm:
  "replay R cs = Some S \<Longrightarrow> mset R' = mset R \<Longrightarrow> \<exists>S'. replay R' cs = Some S' \<and> mset S' = mset S"
proof (induction cs arbitrary: R R')
  case (Cons c cs)
  from Cons.prems(1) obtain T where T: "resource_step c R = Some T" "replay T cs = Some S"
    by (auto simp: bind_eq_Some_conv)
  from resource_step_perm [OF T(1) Cons.prems(2)] obtain T' where
    T': "resource_step c R' = Some T'" "mset T' = mset T" by blast
  with Cons.IH [OF T(2) T'(2)] show ?case by simp
qed simp

text \<open>
  \<open>accounts A cs B\<close>: whoever holds the objects of \<open>A\<close> may make the calls \<open>cs\<close> without releasing
  anything that is not held, and then holds those of \<open>B\<close>, whatever else is held.
\<close>

definition accounts :: "(kind \<times> addr) multiset \<Rightarrow> call list \<Rightarrow> (kind \<times> addr) multiset \<Rightarrow> bool" where
  "accounts A cs B \<longleftrightarrow> (\<forall>F R. mset R = A + F \<longrightarrow> (\<exists>S. replay R cs = Some S \<and> mset S = B + F))"

lemma accounts_Nil [simp]: "accounts A [] A"
  by (simp add: accounts_def)

lemma accounts_append:
  assumes "accounts A cs B" "accounts B ds C"
  shows "accounts A (cs @ ds) C"
  unfolding accounts_def
proof (intro allI impI)
  fix F R assume "mset R = A + F"
  with assms(1) obtain S where "replay R cs = Some S" "mset S = B + F" unfolding accounts_def by blast
  moreover with assms(2) obtain T where "replay S ds = Some T" "mset T = C + F" unfolding accounts_def by blast
  ultimately show "\<exists>S. replay R (cs @ ds) = Some S \<and> mset S = C + F" by (simp add: replay_append)
qed

lemma accounts_frame: "accounts A cs B \<Longrightarrow> accounts (A + F) cs (B + F)"
  unfolding accounts_def by (metis add.assoc)

lemma accounts_frame_left: "accounts A cs B \<Longrightarrow> accounts (F + A) cs (F + B)"
  using accounts_frame [of A cs B F] by (simp add: add.commute)

lemma accounts_Cons: "accounts A [c] B \<Longrightarrow> accounts B cs C \<Longrightarrow> accounts A (c # cs) C"
  using accounts_append [of A "[c]" B cs C] by simp

lemma accounts_acquire: "accounts A [Acquire k a] (add_mset (k, a) A)"
  by (simp add: accounts_def)

lemma accounts_release: "accounts (add_mset (k, a) A) [Release k a] A"
  unfolding accounts_def
proof (intro allI impI)
  fix F R assume R: "mset R = add_mset (k, a) A + F"
  then have "(k, a) \<in> set R" by (metis add_mset_add_single set_mset_mset union_iff multi_member_last)
  with R show "\<exists>S. replay R [Release k a] = Some S \<and> mset S = A + F" by simp
qed

lemma accounts_other: "(\<And>R. resource_step c R = Some R) \<Longrightarrow> accounts A [c] A"
  by (simp add: accounts_def)

text \<open>Accounts kept as lists.\<close>

lemma accounts_replay:
  assumes "\<And>R. replay (xs @ R) cs = Some (ys @ R)"
  shows "accounts (mset xs) cs (mset ys)"
  unfolding accounts_def
proof (intro allI impI)
  fix F R assume R: "mset R = mset xs + F"
  obtain G where G: "F = mset G" by (metis ex_mset)
  from replay_perm [OF assms [of G], of R] R G show "\<exists>S. replay R cs = Some S \<and> mset S = mset ys + F"
    by simp
qed

text \<open>
  A list of calls is settled by the simplifier, call by call: \<open>tally A cs\<close> is what is held in
  the end, and \<open>solvent A cs\<close> that nothing is released that is not held.
\<close>

fun tally :: "(kind \<times> addr) multiset \<Rightarrow> call list \<Rightarrow> (kind \<times> addr) multiset" where
  "tally A [] = A"
| "tally A (Acquire k a # cs) = tally (add_mset (k, a) A) cs"
| "tally A (Release k a # cs) = tally (A - {#(k, a)#}) cs"
| "tally A (c # cs) = tally A cs"

fun solvent :: "(kind \<times> addr) multiset \<Rightarrow> call list \<Rightarrow> bool" where
  "solvent A [] \<longleftrightarrow> True"
| "solvent A (Acquire k a # cs) \<longleftrightarrow> solvent (add_mset (k, a) A) cs"
| "solvent A (Release k a # cs) \<longleftrightarrow> (k, a) \<in># A \<and> solvent (A - {#(k, a)#}) cs"
| "solvent A (c # cs) \<longleftrightarrow> solvent A cs"

lemma accounts_tally: "solvent A cs \<Longrightarrow> accounts A cs (tally A cs)"
proof (induction A cs rule: tally.induct)
  case (2 A k a cs)
  then show ?case using accounts_Cons [OF accounts_acquire] by simp
next
  case (3 A k a cs)
  then have "accounts A [Release k a] (A - {#(k, a)#})"
    using accounts_release [of k a "A - {#(k, a)#}"] by simp
  with 3 show ?case using accounts_Cons by simp
qed (simp_all add: accounts_Cons [OF accounts_other])

lemma accounts_tallyI: "solvent A cs \<Longrightarrow> tally A cs = B \<Longrightarrow> accounts A cs B"
  using accounts_tally by blast

text \<open>A change of the world that is accounted for.\<close>

definition settles :: "(kind \<times> addr) multiset \<Rightarrow> world \<Rightarrow> (kind \<times> addr) multiset \<Rightarrow> world \<Rightarrow> bool" where
  "settles A w B w' \<longleftrightarrow> (\<exists>cs. calls w' = calls w @ cs \<and> accounts A cs B)"

lemma settles_refl: "calls w' = calls w \<Longrightarrow> settles A w A w'"
  by (simp add: settles_def)

lemma settles_trans: "settles A u B v \<Longrightarrow> settles B v C w \<Longrightarrow> settles A u C w"
  unfolding settles_def using accounts_append by fastforce

lemma settles_frame: "settles A w B w' \<Longrightarrow> settles (A + F) w (B + F) w'"
  unfolding settles_def using accounts_frame by blast

lemma settles_frame_left: "settles A w B w' \<Longrightarrow> settles (F + A) w (F + B) w'"
  using settles_frame [of A w B w' F] by (simp add: add.commute)

lemma settles_replay:
  assumes "calls w' = calls w @ cs" "\<And>R. replay (xs @ R) cs = Some (ys @ R)"
  shows "settles (mset xs) w (mset ys) w'"
  using assms accounts_replay unfolding settles_def by blast

lemma settles_tally: "calls w' = calls w @ cs \<Longrightarrow> solvent A cs \<Longrightarrow> tally A cs = B \<Longrightarrow> settles A w B w'"
  unfolding settles_def using accounts_tallyI by blast

text \<open>Drawing leaves the accounts alone.\<close>

lemma tally_append: "tally A (cs @ ds) = tally (tally A cs) ds"
  by (induction A cs rule: tally.induct) simp_all

lemma solvent_append: "solvent A (cs @ ds) \<longleftrightarrow> solvent A cs \<and> solvent (tally A cs) ds"
  by (induction A cs rule: solvent.induct) simp_all

lemma tally_draw [simp]: "tally A (map Draw ds) = A" "solvent A (map Draw ds)"
  by (induction ds) simp_all

text \<open>Releasing a list of objects, in any order.\<close>

definition releases :: "(kind \<times> addr) list \<Rightarrow> call list" where
  "releases os = map (\<lambda>(k, a). Release k a) os"

lemma accounts_releases: "accounts (mset os + A) (releases os) A"
proof (induction os)
  case (Cons ob os)
  then show ?case using accounts_Cons [OF accounts_release] by (cases ob) (simp add: releases_def)
qed (simp add: releases_def)

text \<open>The object behind a pointer, if it is not NULL.\<close>

definition opt_object :: "kind \<Rightarrow> ptr \<Rightarrow> (kind \<times> addr) multiset" where
  "opt_object k p = (case p of None \<Rightarrow> {#} | Some a \<Rightarrow> {#(k, a)#})"

lemma opt_object_simps [simp]:
  "opt_object k None = {#}" "opt_object k (Some a) = {#(k, a)#}"
  by (simp_all add: opt_object_def)

lemma accounts_release_opt: "accounts (opt_object k p + A) (release_opt k p) A"
  by (cases p) (simp_all add: accounts_release)

end
