(* ===== verification/Zen_Wallpaper.thy ===== *)
theory Zen_Wallpaper
  imports Zen_Keybinds_Config Zen_Double Zen_Ledger
begin

text \<open>
  The desktop wallpaper of \<open>src/compositor/src/wallpaper.c\<close>: the scanner of \<open>theme.json\<close>, the
  search for a PNG, the aspect-fill transform in \<open>double\<close> arithmetic, and the surface, buffer
  and scene node of each output, which the module's list owns until it is destroyed.
\<close>

section \<open>What the wallpaper asks of the outside\<close>

record wp_env =
  theme_HOME :: cstring
  theme_path_ok :: bool                       \<comment> \<open>\<open>malloc\<close> of the path\<close>
  theme_fopen :: "string \<Rightarrow> config_file option"
  theme_buf_ok :: bool                        \<comment> \<open>\<open>malloc\<close> of the text\<close>
  theme_result_ok :: bool                     \<comment> \<open>\<open>malloc\<close> of the value\<close>
  wp_opendir :: "string \<Rightarrow> string list option" \<comment> \<open>the names \<open>readdir\<close> gives, in its order\<close>
  png_path_ok :: bool
  wp_state_ok :: bool
  wp_tree :: ptr
  png_load :: "string \<Rightarrow> addr \<times> bool"        \<comment> \<open>\<open>cairo_image_surface_create_from_png\<close>, its status\<close>

record wo_env =
  ro_width :: int
  ro_height :: int
  ro_alloc_ok :: bool
  ro_surface :: addr        \<comment> \<open>\<open>cairo_image_surface_create\<close>, never NULL\<close>
  ro_surface_ok :: bool
  ro_cr :: addr             \<comment> \<open>\<open>cairo_create\<close>, never NULL\<close>
  ro_cr_ok :: bool
  ro_image_size :: "addr \<Rightarrow> int \<times> int"
  ro_wbuf :: ptr
  ro_node :: ptr

section \<open>The scanner of theme.json\<close>

text \<open>
  The loop to the closing quote: what is left of the text where it stops. An escape skips the
  character behind the backslash; at the end of the text the loop stops at the NUL.
\<close>

fun theme_scan :: "string \<Rightarrow> string" where
  "theme_scan [] = []"
| "theme_scan (c # cs) =
     (if c = QUOTE then c # cs
      else if c = BACKSLASH then (case cs of [] \<Rightarrow> [] | d # ds \<Rightarrow> theme_scan ds)
      else theme_scan cs)"

definition theme_value :: "bool \<Rightarrow> string \<Rightarrow> cstring" where
  "theme_value malloc_ok start =
     (let pos = theme_scan start
      in if pos = [] \<or> hd pos \<noteq> QUOTE then None
         else if malloc_ok then Some (take (length start - length pos) start) else None)"

text \<open>The part of \<open>parse_wallpaper_path_from_theme\<close> behind \<open>buf[fsize] = 0\<close>.\<close>

definition theme_text_path :: "bool \<Rightarrow> string \<Rightarrow> cstring" where
  "theme_text_path malloc_ok buf =
     (case memmem (quoted ''wallpaper_path'') buf of
        None \<Rightarrow> None
      | Some t \<Rightarrow>
          let pos = skip_space (drop (length (quoted ''wallpaper_path'')) t)
          in if pos = [] \<or> hd pos \<noteq> CHR '':'' then None
             else let pos' = skip_space (tl pos)
                  in if pos' = [] \<or> hd pos' \<noteq> QUOTE then None
                     else theme_value malloc_ok (tl pos'))"

definition parse_wallpaper_path_from_theme :: "wp_env \<Rightarrow> cstring" where
  "parse_wallpaper_path_from_theme E =
     (case theme_HOME E of
        None \<Rightarrow> None
      | Some home \<Rightarrow>
          if \<not> theme_path_ok E then None
          else case theme_fopen E (home @ ''/.config/zenos/theme.json'') of
                 None \<Rightarrow> None
               | Some f \<Rightarrow>
                   let fsize = cf_ftell f
                   in if fsize \<le> 0 \<or> fsize > 65536 then None
                      else if \<not> theme_buf_ok E then None
                      else let buf = cf_fread f fsize
                           in if int (length buf) \<noteq> fsize then None
                              else theme_text_path (theme_result_ok E) (c_str buf))"

section \<open>The search for an image\<close>

text \<open>The loop over the directory: a name of at least five characters that ends in .png.\<close>

primrec scan_png :: "bool \<Rightarrow> string \<Rightarrow> string list \<Rightarrow> cstring" where
  "scan_png malloc_ok dir_path [] = None"
| "scan_png malloc_ok dir_path (name # names) =
     (let nlen = length name
      in if nlen < 5 then scan_png malloc_ok dir_path names
         else if map c_tolower (drop (nlen - 4) name) \<noteq> ''.png'' then scan_png malloc_ok dir_path names
         else if malloc_ok then Some (dir_path @ ''/'' @ name) else None)"

definition find_first_png :: "wp_env \<Rightarrow> string \<Rightarrow> cstring" where
  "find_first_png E dir_path = (case wp_opendir E dir_path of
      None \<Rightarrow> None
    | Some names \<Rightarrow> scan_png (png_path_ok E) dir_path names)"

section \<open>Aspect-fill scaling\<close>

text \<open>
  The division of two doubles; \<open>None\<close> is a quotient that is not finite (an image without width
  or height, which no PNG has).
\<close>

definition double_div :: "rat \<Rightarrow> rat \<Rightarrow> rat option" where
  "double_div a b = (if b = 0 then None else Some (fl (a / b)))"

definition compute_aspect_fill_scale :: "int \<Rightarrow> int \<Rightarrow> int \<Rightarrow> int \<Rightarrow> rat option" where
  "compute_aspect_fill_scale img_w img_h out_w out_h = do {
     scale_x \<leftarrow> double_div (of_int out_w) (of_int img_w);
     scale_y \<leftarrow> double_div (of_int out_h) (of_int img_h);
     Some (if scale_x > scale_y then scale_x else scale_y) }"

text \<open>The scaled size along one axis, and how far it extends beyond the output on each side.\<close>

definition scaled_size :: "int \<Rightarrow> rat \<Rightarrow> rat" where
  "scaled_size img scale = fl (of_int img * scale)"

definition crop_offset :: "int \<Rightarrow> int \<Rightarrow> rat \<Rightarrow> rat" where
  "crop_offset img out scale = fl (fl (scaled_size img scale - of_int out) / 2)"

section \<open>One output\<close>

text \<open>\<open>0.102f\<close> and \<open>0.180f\<close>: the nearest floats, exactly.\<close>

definition ZEN_BRAND_R :: rat where "ZEN_BRAND_R = 427819 / 4194304"
definition ZEN_BRAND_G :: rat where "ZEN_BRAND_G = 427819 / 4194304"
definition ZEN_BRAND_B :: rat where "ZEN_BRAND_B = 3019899 / 16777216"

definition wallpaper_drawing :: "wo_env \<Rightarrow> ptr \<Rightarrow> draw list option" where
  "wallpaper_drawing V src = (case src of
      Some img \<Rightarrow> do {
        let (img_w, img_h) = ro_image_size V img;
        scale \<leftarrow> compute_aspect_fill_scale img_w img_h (ro_width V) (ro_height V);
        let offset_x = crop_offset img_w (ro_width V) scale;
        let offset_y = crop_offset img_h (ro_height V) scale;
        Some [Cairo_save, Cairo_translate (- offset_x) (- offset_y), Cairo_scale scale scale,
          Set_source_surface img, Cairo_paint, Cairo_restore] }
    | None \<Rightarrow> Some [Set_source_rgb ZEN_BRAND_R ZEN_BRAND_G ZEN_BRAND_B, Cairo_paint])"

text \<open>The \<open>cleanup\<close> label with \<open>ret != 0\<close>.\<close>

definition wallpaper_output_cleanup :: "ZenWallpaperOutput \<Rightarrow> world \<Rightarrow> world \<times> int" where
  "wallpaper_output_cleanup wo w =
     (emits (release_opt K_node (scene_buf wo) @ release_opt K_surface (wo_surface wo)) w, -1)"

definition render_output_internal ::
  "wo_env \<Rightarrow> ZenWallpaperState \<Rightarrow> addr \<Rightarrow> world \<Rightarrow> (world \<times> int) option" where
  "render_output_internal V st out w = do {
     zo \<leftarrow> zouts w out;
     if ro_width V \<le> 0 \<or> ro_height V \<le> 0 then Some (w, -1)
     else if \<not> ro_alloc_ok V then Some (w, -1)
     else do {
       let wo = \<lparr>wo_output = wlr_output zo, wo_surface = Some (ro_surface V), wbuf = None, scene_buf = None\<rparr>;
       let w = emits [Acquire K_surface (ro_surface V)] w;
       if \<not> ro_surface_ok V then Some (wallpaper_output_cleanup wo w)
       else do {
         let w = emits [Acquire K_cairo (ro_cr V)] w;
         if \<not> ro_cr_ok V then
           Some (wallpaper_output_cleanup wo (emits [Release K_cairo (ro_cr V)] w))
         else do {
           ds \<leftarrow> wallpaper_drawing V (src_image st);
           let w = emits (map Draw ds @ [Surface_flush (ro_surface V), Release K_cairo (ro_cr V)]) w;
           case ro_wbuf V of
             None \<Rightarrow> Some (wallpaper_output_cleanup wo w)
           | Some wb \<Rightarrow> do {
               let w = emits [Acquire K_buffer wb] w;
               case ro_node V of
                 None \<Rightarrow> Some (wallpaper_output_cleanup wo (emits [Release K_buffer wb] w))
               | Some nd \<Rightarrow> do {
                   let w = emits [Acquire K_node nd, Node (Set_position nd 0 0)] w;
                   let wo = wo\<lparr>wbuf := Some wb, scene_buf := Some nd\<rparr>;
                   Some (w\<lparr>g_wallpaper_state := Some (st\<lparr>wp_outputs := wo # wp_outputs st\<rparr>)\<rparr>, 0) } } } } } }"

section \<open>The module\<close>

text \<open>Loading the image; a surface in an error state is given back at once.\<close>

definition load_wallpaper :: "wp_env \<Rightarrow> cstring \<Rightarrow> world \<Rightarrow> world \<times> ptr" where
  "load_wallpaper E img_path w = (case img_path of
      None \<Rightarrow> (w, None)
    | Some p \<Rightarrow>
        (case png_load E p of (img, ok) \<Rightarrow>
           if ok then (emits [Acquire K_surface img] w, Some img)
           else (emits [Acquire K_surface img, Release K_surface img] w, None)))"

definition wallpaper_path :: "wp_env \<Rightarrow> cstring" where
  "wallpaper_path E = (case parse_wallpaper_path_from_theme E of
      Some p \<Rightarrow> Some p
    | None \<Rightarrow> find_first_png E ''data/branding/wallpaper'')"

definition zen_wallpaper_init :: "wp_env \<Rightarrow> world \<Rightarrow> (world \<times> int) option" where
  "zen_wallpaper_init E w =
     (if \<not> wp_state_ok E then Some (w, -1)
      else do {
        _ \<leftarrow> scene w;
        let w = w\<lparr>wallpaper_tree := wp_tree E\<rparr>;
        case wp_tree E of
          None \<Rightarrow> Some (w, -1)
        | Some tree \<Rightarrow> do {
            let (w, src) = load_wallpaper E (wallpaper_path E) (emits [Acquire K_node tree] w);
            Some (w\<lparr>g_wallpaper_state := Some \<lparr>src_image = src, wp_outputs = []\<rparr>\<rparr>, 0) } })"

text \<open>The loop over the outputs: the node and the surface of each are given back.\<close>

definition wallpaper_output_releases :: "ZenWallpaperOutput \<Rightarrow> call list" where
  "wallpaper_output_releases wo =
     release_opt K_node (scene_buf wo) @ release_opt K_surface (wo_surface wo)"

definition zen_wallpaper_destroy :: "world \<Rightarrow> world" where
  "zen_wallpaper_destroy w = (case g_wallpaper_state w of
      None \<Rightarrow> w
    | Some st \<Rightarrow>
        (emits (concat (map wallpaper_output_releases (wp_outputs st)) @
           release_opt K_surface (src_image st)) w)\<lparr>g_wallpaper_state := None\<rparr>)"

definition zen_wallpaper_render_output :: "wo_env \<Rightarrow> addr \<Rightarrow> world \<Rightarrow> (world \<times> int) option" where
  "zen_wallpaper_render_output V out w =
     (case g_wallpaper_state w of
        None \<Rightarrow> Some (w, -1)
      | Some st \<Rightarrow>
          if wallpaper_tree w = None then Some (w, -1)
          else render_output_internal V st out w)"

lemmas wallpaper_ops = render_output_internal_def wallpaper_output_cleanup_def load_wallpaper_def
  zen_wallpaper_init_def zen_wallpaper_destroy_def zen_wallpaper_render_output_def
declare wallpaper_ops [zen_ops]

section \<open>The path in theme.json\<close>

text \<open>The scanner reads a value exactly as the one of the keybindings does.\<close>

lemma theme_scan_suffix: "\<exists>u. s = u @ theme_scan s"
proof (induction s rule: theme_scan.induct)
  case (2 c cs)
  show ?case
  proof (cases "c = BACKSLASH")
    case True
    show ?thesis
    proof (cases cs)
      case (Cons d ds)
      with True 2(1) [of d ds] obtain u where "ds = u @ theme_scan ds" by auto
      then have "c # cs = (c # d # u) @ theme_scan (c # cs)" using True Cons by simp
      then show ?thesis by blast
    qed (simp add: True)
  next
    case False
    show ?thesis
    proof (cases "c = QUOTE")
      case True
      then show ?thesis by simp
    next
      case nq: False
      with False 2(2) obtain u where "cs = u @ theme_scan cs" by blast
      then have "c # cs = (c # u) @ theme_scan (c # cs)" using False nq by simp
      then show ?thesis by blast
    qed
  qed
qed simp

lemma theme_scan_length: "length (theme_scan s) \<le> length s"
  using theme_scan_suffix [of s] by (metis length_append le_add2)

lemma theme_value_Cons:
  assumes "c \<noteq> QUOTE" "c \<noteq> BACKSLASH"
  shows "theme_value True (c # cs) = map_option (Cons c) (theme_value True cs)"
  using assms theme_scan_length [of cs] by (simp add: theme_value_def Let_def Suc_diff_le)

lemma theme_value_escape:
  "theme_value True (BACKSLASH # d # ds) = map_option (\<lambda>v. BACKSLASH # d # v) (theme_value True ds)"
  using theme_scan_length [of ds] by (simp add: theme_value_def Let_def Suc_diff_le)

lemma theme_value_scan: "theme_value True s = scan_value s"
proof (induction s rule: scan_value.induct)
  case (2 c)
  then show ?case by (simp add: theme_value_def)
next
  case (3 c d cs)
  consider "c = QUOTE" | "c = BACKSLASH" | "c \<noteq> QUOTE" "c \<noteq> BACKSLASH" by blast
  then show ?case
  proof cases
    case 1
    then show ?thesis by (simp add: theme_value_def)
  next
    case 2
    with 3(1) show ?thesis using theme_value_escape [of d cs] by simp
  next
    case nn: 3
    with 3(2) show ?thesis using theme_value_Cons [of c "d # cs"] by simp
  qed
qed (simp add: theme_value_def)

text \<open>
  C23. The hand-written scan of a quoted value in the theme agrees, on every text, with the
  scan the keybinding file uses, and a failed allocation gives no value: the two parsers of
  the compositor read strings the same way.
\<close>

theorem theme_value_is_scan_value: "theme_value ok s = (if ok then scan_value s else None)"
proof (cases ok)
  case True
  then show ?thesis using theme_value_scan by simp
qed (simp add: theme_value_def Let_def)

text \<open>A theme printed as a flat object of string fields.\<close>

fun print_theme_tail :: "(string \<times> string) list \<Rightarrow> string" where
  "print_theme_tail [] = ''}''"
| "print_theme_tail ((k, v) # fs) = '','' @ print_field k v @ print_theme_tail fs"

fun print_theme :: "(string \<times> string) list \<Rightarrow> string" where
  "print_theme [] = ''{}''"
| "print_theme ((k, v) # fs) = ''{'' @ print_field k v @ print_theme_tail fs"

definition theme_field_ok :: "string \<times> string \<Rightarrow> bool" where
  "theme_field_ok f \<longleftrightarrow> plain_text (fst f) \<and> plain_text (snd f) \<and> snd f \<noteq> ''wallpaper_path''"

text \<open>The search for the key stops in front of the field with that key, if there is one.\<close>

definition search_finds :: "string \<Rightarrow> cstring \<Rightarrow> bool" where
  "search_finds s r \<longleftrightarrow> (case r of
      None \<Rightarrow> memmem (quoted ''wallpaper_path'') s = None
    | Some v \<Rightarrow> plain_text v \<and>
        (\<exists>X. memmem (quoted ''wallpaper_path'') s = Some (print_field ''wallpaper_path'' v @ X)))"

lemma wallpaper_key_facts: "QUOTE \<notin> set ''wallpaper_path''" "''wallpaper_path'' \<noteq> '':''"
  "''wallpaper_path'' \<noteq> '',''"
  by simp_all

lemma search_cong:
  "memmem (quoted ''wallpaper_path'') s = memmem (quoted ''wallpaper_path'') t \<Longrightarrow>
   search_finds s r = search_finds t r"
  by (simp only: search_finds_def)

lemma search_field:
  assumes "theme_field_ok (k, v)" "search_finds (QUOTE # X) (map_of fs ''wallpaper_path'')"
  shows "search_finds (print_field k v @ X) (map_of ((k, v) # fs) ''wallpaper_path'')"
proof (cases "k = ''wallpaper_path''")
  case True
  with assms(1) memmem_field_here [OF wallpaper_key_facts(1), of v X] show ?thesis
    by (auto simp: search_finds_def theme_field_ok_def)
next
  case False
  have "QUOTE \<notin> set k" "QUOTE \<notin> set v" "''wallpaper_path'' \<noteq> k" "''wallpaper_path'' \<noteq> v"
    using assms(1) False by (auto simp: theme_field_ok_def plain_text_def)
  from search_cong [OF memmem_field_skip [OF wallpaper_key_facts(1) this wallpaper_key_facts(2)]]
    assms(2) False show ?thesis by simp
qed

lemma search_tail:
  "list_all theme_field_ok fs \<Longrightarrow>
   search_finds (QUOTE # print_theme_tail fs) (map_of fs ''wallpaper_path'')"
proof (induction fs rule: print_theme_tail.induct)
  case 1
  then show ?case by (simp add: search_finds_def quoted_def)
next
  case (2 k v fs)
  from 2 have "search_finds (print_field k v @ print_theme_tail fs)
      (map_of ((k, v) # fs) ''wallpaper_path'')" by (intro search_field) simp_all
  with search_cong [OF memmem_field_next [OF wallpaper_key_facts(1,3), of k v "print_theme_tail fs"]]
  show ?case by (simp only: print_theme_tail.simps)
qed

lemma search_theme:
  assumes "list_all theme_field_ok fs"
  shows "search_finds (print_theme fs) (map_of fs ''wallpaper_path'')"
proof (cases fs rule: print_theme.cases)
  case 1
  then show ?thesis by (simp add: search_finds_def quoted_def)
next
  case (2 k v fs')
  with assms have "search_finds (print_field k v @ print_theme_tail fs')
      (map_of ((k, v) # fs') ''wallpaper_path'')" by (intro search_field search_tail) simp_all
  moreover have "QUOTE \<notin> set ''{''" by simp
  from search_cong [OF memmem_skip [OF this]] have
    "search_finds (''{'' @ s) r = search_finds s r" for s r by blast
  ultimately show ?thesis by (simp only: 2 print_theme.simps)
qed

lemma theme_text_path_search:
  assumes "search_finds s r"
  shows "theme_text_path True s = r"
proof (cases r)
  case None
  with assms show ?thesis by (simp add: search_finds_def theme_text_path_def)
next
  case (Some v)
  with assms obtain X where v: "plain_text v"
    and m: "memmem (quoted ''wallpaper_path'') s = Some (print_field ''wallpaper_path'' v @ X)"
    by (auto simp: search_finds_def)
  have "skip_space (drop (length (quoted ''wallpaper_path'')) (print_field ''wallpaper_path'' v @ X)) =
      CHR '':'' # QUOTE # v @ QUOTE # X" by (simp add: print_field_def quoted_def skip_space_def is_space_def)
  with Some m show ?thesis using scan_value_plain [OF v] theme_value_scan
    by (simp add: theme_text_path_def skip_space_def is_space_def)
qed

text \<open>
  C24. A theme written as a flat object of string fields is read back: the wallpaper path the
  compositor takes from the file is the value of the field \<open>wallpaper_path\<close>, and none when
  there is no such field, wherever the field stands among the others. (No text in the object
  may need an escape, and no other field may have the key's name as its value.)
\<close>

theorem theme_round_trip:
  assumes "list_all theme_field_ok fs"
    and "theme_HOME E = Some home" "theme_path_ok E" "theme_buf_ok E" "theme_result_ok E"
    and "theme_fopen E (home @ ''/.config/zenos/theme.json'') = Some (text_file (print_theme fs))"
    and "length (print_theme fs) \<le> 65536"
  shows "parse_wallpaper_path_from_theme E = map_of fs ''wallpaper_path''"
proof -
  have "NUL \<notin> set (print_theme_tail fs)" if "list_all theme_field_ok fs" for fs
    using that by (induction fs rule: print_theme_tail.induct)
      (auto simp: theme_field_ok_def plain_text_def print_field_def quoted_def)
  then have "NUL \<notin> set (print_theme fs)" using assms(1)
    by (cases fs rule: print_theme.cases)
      (auto simp: theme_field_ok_def plain_text_def print_field_def quoted_def)
  then have "c_str (print_theme fs) = print_theme fs" by (auto simp: c_str_def takeWhile_eq_all_conv)
  moreover have "print_theme fs \<noteq> []" by (cases fs rule: print_theme.cases) simp_all
  ultimately show ?thesis
    using assms theme_text_path_search [OF search_theme [OF assms(1)]]
    by (simp add: parse_wallpaper_path_from_theme_def text_file_def)
qed


section \<open>The first image of a directory\<close>

definition is_png :: "string \<Rightarrow> bool" where
  "is_png name \<longleftrightarrow> (\<exists>stem ext. name = stem @ ext \<and> stem \<noteq> [] \<and> map c_tolower ext = ''.png'')"

lemma is_png_test:
  "is_png name \<longleftrightarrow> 5 \<le> length name \<and> map c_tolower (drop (length name - 4) name) = ''.png''"
proof
  assume "is_png name"
  then obtain stem ext where s: "name = stem @ ext" "stem \<noteq> []" "map c_tolower ext = ''.png''"
    by (auto simp: is_png_def)
  from s(3) have "length ext = 4" using arg_cong [of _ _ length] by fastforce
  with s show "5 \<le> length name \<and> map c_tolower (drop (length name - 4) name) = ''.png''"
    by (cases stem) simp_all
next
  let ?k = "length name - 4"
  assume "5 \<le> length name \<and> map c_tolower (drop ?k name) = ''.png''"
  moreover from this have "take ?k name \<noteq> []" by (cases name) auto
  ultimately show "is_png name" unfolding is_png_def
    by (intro exI [of _ "take ?k name"] exI [of _ "drop ?k name"]) simp
qed

text \<open>
  The directory loop is a search: with memory available it returns the path of the first
  name \<open>readdir\<close> delivers that consists of something followed by \<open>.png\<close> in any letter case,
  and nothing when there is none.
\<close>

theorem first_png_is_find:
  "scan_png True dir_path names = map_option (\<lambda>name. dir_path @ ''/'' @ name) (find is_png names)"
  by (induction names) (auto simp: Let_def is_png_test not_less_eq_eq)

section \<open>Aspect fill\<close>

lemma pow2_neg_53: "pow2 (-53) = 1 / 9007199254740992"
  by (simp add: pow2_def)

lemma fl_near:
  assumes "pow2 (-1022) \<le> x"
  shows "x * (1 - pow2 (-53)) \<le> fl x" "fl x \<le> x * (1 + pow2 (-53))"
proof -
  have "0 < x" using assms pow2_pos [of "-1022"] by (rule less_le_trans [rotated])
  with fl_error [of x] assms have "\<bar>fl x - x\<bar> \<le> x * pow2 (-53)" by simp
  then show "x * (1 - pow2 (-53)) \<le> fl x" "fl x \<le> x * (1 + pow2 (-53))"
    by (simp_all add: algebra_simps abs_le_iff)
qed

text \<open>A screen or image dimension: a positive \<open>int\<close>.\<close>

definition dim :: "int \<Rightarrow> bool" where
  "dim d \<longleftrightarrow> 0 < d \<and> d \<le> INT_MAX"

lemma pow2_1022_small: "pow2 (-1022) \<le> pow2 (-62)" "pow2 (-1022) \<le> pow2 (-33)"
  unfolding pow2_mono by simp_all

lemma ratio_large:
  assumes "dim a" "dim b"
  shows "pow2 (-33) \<le> of_int a / of_int b" "0 < (of_int a / of_int b :: rat)"
proof -
  have b: "0 < (of_int b :: rat)" "(of_int b :: rat) \<le> 2147483647"
    using assms(2) by (simp_all add: dim_def INT_MAX_def)
  have a: "1 \<le> (of_int a :: rat)" using assms(1) by (simp add: dim_def)
  have "pow2 (-33) * of_int b \<le> pow2 (-33) * 2147483647"
    using b by (intro mult_left_mono) (simp_all add: less_imp_le)
  also have "\<dots> \<le> 1" by (simp add: pow2_def)
  also have "\<dots> \<le> of_int a" using a .
  finally show "pow2 (-33) \<le> of_int a / of_int b" using b(1) by (simp add: le_divide_eq)
  show "0 < (of_int a / of_int b :: rat)" using a b(1) by simp
qed

text \<open>One axis: the quotient rounded, multiplied back and rounded again.\<close>

lemma dim_rat:
  assumes "dim d"
  shows "1 \<le> (of_int d :: rat)" "(of_int d :: rat) \<le> 2147483647"
  using assms by (simp_all add: dim_def INT_MAX_def)

lemma axis_product:
  assumes "dim img" "dim out"
  shows "of_int out * (1 - pow2 (-53)) \<le> of_int img * fl (of_int out / of_int img)"
    and "of_int img * fl (of_int out / of_int img) \<le> of_int out * (1 + pow2 (-53))"
    and "pow2 (-1022) \<le> of_int out * (1 - pow2 (-53))"
proof -
  let ?q = "of_int out / of_int img :: rat"
  have img: "0 \<le> (of_int img :: rat)" "(of_int img :: rat) \<noteq> 0" using dim_rat(1) [OF assms(1)] by auto
  have q: "pow2 (-1022) \<le> ?q" using ratio_large(1) [OF assms(2,1)] pow2_1022_small(2) by simp
  have undo: "of_int img * (?q * c) = of_int out * c" for c using img(2) by simp
  from mult_left_mono [OF fl_near(1) [OF q] img(1)]
  show "of_int out * (1 - pow2 (-53)) \<le> of_int img * fl ?q" unfolding undo .
  from mult_left_mono [OF fl_near(2) [OF q] img(1)]
  show "of_int img * fl ?q \<le> of_int out * (1 + pow2 (-53))" unfolding undo .
  have "pow2 (-1022) \<le> pow2 (-1)" unfolding pow2_mono by simp
  also have "\<dots> \<le> 1 * (1 - pow2 (-53))" by (simp add: pow2_def)
  also have "\<dots> \<le> of_int out * (1 - pow2 (-53))"
    using dim_rat(1) [OF assms(2)] by (intro mult_right_mono) (simp_all add: pow2_neg_53)
  finally show "pow2 (-1022) \<le> of_int out * (1 - pow2 (-53))" .
qed

lemma scaled_back:
  assumes "dim img" "dim out" "fl (of_int out / of_int img) \<le> s"
  shows "of_int out - pow2 (-20) \<le> scaled_size img s"
proof -
  let ?u = "pow2 (-53)"
  have "of_int img * fl (of_int out / of_int img) \<le> of_int img * s"
    using assms(3) dim_rat(1) [OF assms(1)] by (intro mult_left_mono) simp_all
  with axis_product(1) [OF assms(1,2)] have s2: "of_int out * (1 - ?u) \<le> of_int img * s" by (rule order_trans)
  have "of_int img * s * (1 - ?u) \<le> scaled_size img s" unfolding scaled_size_def
    using axis_product(3) [OF assms(1,2)] s2 by (intro fl_near(1)) (rule order_trans)
  moreover have "of_int out * (1 - ?u) * (1 - ?u) \<le> of_int img * s * (1 - ?u)"
    using s2 by (intro mult_right_mono) (simp_all add: pow2_neg_53)
  moreover have "of_int out * (1 - ?u) * (1 - ?u) = of_int out - of_int out * (2 * ?u - ?u * ?u)"
    by (simp add: algebra_simps)
  moreover have "of_int out * (2 * ?u - ?u * ?u) \<le> 2147483647 * (2 * ?u - ?u * ?u)"
    using dim_rat(2) [OF assms(2)] by (intro mult_right_mono) (simp_all add: pow2_neg_53)
  moreover have "2147483647 * (2 * ?u - ?u * ?u) \<le> pow2 (-20)" by (simp add: pow2_def)
  ultimately show ?thesis by linarith
qed

lemma scaled_back_tight:
  assumes "dim img" "dim out"
  shows "scaled_size img (fl (of_int out / of_int img)) \<le> of_int out + pow2 (-20)"
proof -
  let ?u = "pow2 (-53)"
  let ?s = "fl (of_int out / of_int img)"
  have "scaled_size img ?s \<le> of_int img * ?s * (1 + ?u)" unfolding scaled_size_def
    using axis_product(3,1) [OF assms] by (intro fl_near(2)) (rule order_trans)
  also have "\<dots> \<le> of_int out * (1 + ?u) * (1 + ?u)"
    using axis_product(2) [OF assms] by (intro mult_right_mono) (simp_all add: pow2_neg_53)
  also have "\<dots> = of_int out + of_int out * (2 * ?u + ?u * ?u)" by (simp add: algebra_simps)
  also have "of_int out * (2 * ?u + ?u * ?u) \<le> 2147483647 * (2 * ?u + ?u * ?u)"
    using dim_rat(2) [OF assms(2)] by (intro mult_right_mono) (simp_all add: pow2_neg_53)
  also have "\<dots> \<le> pow2 (-20)" by (simp add: pow2_def)
  finally show ?thesis by simp
qed

lemma aspect_fill_scale_cases:
  assumes "dim img_w" "dim img_h"
  shows "\<exists>s. compute_aspect_fill_scale img_w img_h out_w out_h = Some s \<and>
    fl (of_int out_w / of_int img_w) \<le> s \<and> fl (of_int out_h / of_int img_h) \<le> s \<and>
    (s = fl (of_int out_w / of_int img_w) \<or> s = fl (of_int out_h / of_int img_h))"
  using assms by (auto simp: compute_aspect_fill_scale_def double_div_def dim_def)

text \<open>
  C25. Aspect fill in double arithmetic: for all positive dimensions the scale is finite, the
  scaled image reaches the output's size in both directions up to less than a millionth of a
  pixel, and in one direction it does not exceed it by more than that, so nothing is cropped
  along that axis beyond rounding.
\<close>

theorem aspect_fill_covers:
  assumes "dim img_w" "dim img_h" "dim out_w" "dim out_h"
  shows "\<exists>s. compute_aspect_fill_scale img_w img_h out_w out_h = Some s \<and>
    of_int out_w - pow2 (-20) \<le> scaled_size img_w s \<and>
    of_int out_h - pow2 (-20) \<le> scaled_size img_h s \<and>
    (scaled_size img_w s \<le> of_int out_w + pow2 (-20) \<or> scaled_size img_h s \<le> of_int out_h + pow2 (-20))"
  using aspect_fill_scale_cases [OF assms(1,2), of out_w out_h] scaled_back [OF assms(1,3)]
    scaled_back [OF assms(2,4)] scaled_back_tight [OF assms(1,3)] scaled_back_tight [OF assms(2,4)]
  by blast

text \<open>
  The stated invariant \<open>s_w >= out_w\<close> does not hold of the doubles: an image of 1760 by
  990 pixels on a screen of 1920 by 1080, the same aspect ratio, is scaled to a width just
  below 1920, so that the crop offset is negative.
\<close>

theorem aspect_fill_falls_short:
  "case compute_aspect_fill_scale 1760 990 1920 1080 of
     None \<Rightarrow> False
   | Some s \<Rightarrow> scaled_size 1760 s < 1920 \<and> crop_offset 1760 1920 s < 0"
  by code_simp


section \<open>Resources\<close>

text \<open>What the module owns: the image, and a surface, a buffer and a node for each output.\<close>

definition output_objects :: "ZenWallpaperOutput \<Rightarrow> (kind \<times> addr) multiset" where
  "output_objects wo =
     opt_object K_node (scene_buf wo) + opt_object K_surface (wo_surface wo) + opt_object K_buffer (wbuf wo)"

definition wallpaper_objects :: "ZenWallpaperState option \<Rightarrow> (kind \<times> addr) multiset" where
  "wallpaper_objects s = (case s of
      None \<Rightarrow> {#}
    | Some st \<Rightarrow> opt_object K_surface (src_image st) + sum_list (map output_objects (wp_outputs st)))"

definition wallpaper_buffers :: "ZenWallpaperState option \<Rightarrow> (kind \<times> addr) multiset" where
  "wallpaper_buffers s = (case s of
      None \<Rightarrow> {#} | Some st \<Rightarrow> sum_list (map (\<lambda>wo. opt_object K_buffer (wbuf wo)) (wp_outputs st)))"

text \<open>An image whose size is known and not degenerate: what a loaded PNG is.\<close>

definition image_ok :: "wo_env \<Rightarrow> ptr \<Rightarrow> bool" where
  "image_ok V p \<longleftrightarrow> (case p of None \<Rightarrow> True
     | Some a \<Rightarrow> (case ro_image_size V a of (iw, ih) \<Rightarrow> dim iw \<and> dim ih))"

lemma wallpaper_drawing_total: "image_ok V p \<Longrightarrow> \<exists>ds. wallpaper_drawing V p = Some ds"
  by (auto simp: wallpaper_drawing_def image_ok_def Let_def compute_aspect_fill_scale_def
      double_div_def dim_def split: option.splits)

text \<open>What a rendering does, in every case: it succeeds or fails, and is accounted for.\<close>

definition rendered :: "wo_env \<Rightarrow> world \<Rightarrow> world \<Rightarrow> int \<Rightarrow> bool" where
  "rendered V w w' r \<longleftrightarrow>
     w' = w\<lparr>g_wallpaper_state := g_wallpaper_state w', calls := calls w'\<rparr> \<and>
     settles (wallpaper_objects (g_wallpaper_state w)) w (wallpaper_objects (g_wallpaper_state w')) w' \<and>
     (if r = 0
      then \<exists>st wo s b d. g_wallpaper_state w = Some st \<and> ro_wbuf V = Some b \<and>
        wo_surface wo = Some s \<and> wbuf wo = Some b \<and> scene_buf wo = Some d \<and>
        g_wallpaper_state w' = Some (st\<lparr>wp_outputs := wo # wp_outputs st\<rparr>)
      else r = -1 \<and> g_wallpaper_state w' = g_wallpaper_state w)"

definition render_outcome :: "wo_env \<Rightarrow> world \<Rightarrow> (world \<times> int) option \<Rightarrow> bool" where
  "render_outcome V w x \<longleftrightarrow> (\<exists>w' r. x = Some (w', r) \<and> rendered V w w' r)"

lemma render_nothing: "render_outcome V w (Some (w, -1))"
  by (simp add: render_outcome_def rendered_def settles_refl)

lemma render_fail:
  assumes "solvent {#} cs" "tally {#} cs = {#(K_surface, s)#}" "wo_surface wo = Some s" "scene_buf wo = None"
  shows "render_outcome V w (Some (wallpaper_output_cleanup wo (emits cs w)))"
proof -
  have "accounts {#} (cs @ [Release K_surface s]) {#}"
    using assms(1,2) by (intro accounts_tallyI) (simp_all add: solvent_append tally_append)
  then have "settles {#} w {#} (emits (cs @ [Release K_surface s]) w)" unfolding settles_def by auto
  from settles_frame [OF this, of "wallpaper_objects (g_wallpaper_state w)"] show ?thesis
    using assms(3,4) by (simp add: render_outcome_def rendered_def wallpaper_output_cleanup_def) (simp add: emits_def)
qed

lemma render_ok:
  assumes "solvent {#} cs" "tally {#} cs = {#(K_buffer, b), (K_surface, s), (K_node, d)#}"
    and "g_wallpaper_state w = Some st" "ro_wbuf V = Some b"
    and "wo = \<lparr>wo_output = out, wo_surface = Some s, wbuf = Some b, scene_buf = Some d\<rparr>"
  shows "render_outcome V w
    (Some ((emits cs w)\<lparr>g_wallpaper_state := Some (st\<lparr>wp_outputs := wo # wp_outputs st\<rparr>)\<rparr>, 0))"
proof -
  let ?w' = "(emits cs w)\<lparr>g_wallpaper_state := Some (st\<lparr>wp_outputs := wo # wp_outputs st\<rparr>)\<rparr>"
  have "accounts {#} cs (output_objects wo)"
    using accounts_tallyI [OF assms(1,2)] assms(5) by (simp add: output_objects_def)
  then have "settles {#} w (output_objects wo) ?w'" unfolding settles_def by auto
  from settles_frame [OF this, of "wallpaper_objects (g_wallpaper_state w)"]
  have "settles (wallpaper_objects (g_wallpaper_state w)) w (wallpaper_objects (g_wallpaper_state ?w')) ?w'"
    by (simp add: wallpaper_objects_def assms(3) ac_simps)
  then show ?thesis using assms(3-5)
    by (simp add: render_outcome_def rendered_def) (rule conjI, simp add: emits_def, rule exI [of _ wo], simp)
qed

lemma tally_append_draw:
  "tally A (map Draw ds @ cs) = tally A cs" "solvent A (map Draw ds @ cs) = solvent A cs"
  by (simp_all add: tally_append solvent_append)

lemma render_outcome_holds:
  assumes "zouts w out = Some zo"
    and img: "\<And>st. g_wallpaper_state w = Some st \<Longrightarrow> image_ok V (src_image st)"
  shows "render_outcome V w (zen_wallpaper_render_output V out w)"
proof (cases "g_wallpaper_state w")
  case None
  then show ?thesis by (simp add: zen_wallpaper_render_output_def render_nothing)
next
  case (Some st)
  obtain ds where ds: "wallpaper_drawing V (src_image st) = Some ds"
    using wallpaper_drawing_total [OF img [OF Some]] by blast
  have "render_outcome V w (render_output_internal V st out w)"
    by (auto simp: render_output_internal_def Let_def assms(1) ds Some render_nothing tally_append_draw
        add_mset_commute intro!: render_fail render_ok split: option.split)
  then show ?thesis using Some by (simp add: zen_wallpaper_render_output_def render_nothing)
qed

text \<open>
  Rendering an output never faults while its struct is allocated and the image, if one is
  loaded, has a size. It returns 0 with the output's surface, buffer and node entered in the
  module's list, or \<open>-1\<close> with the list unchanged; in both cases exactly what the list owns is
  held, so a failure gives back everything it acquired. Nothing else of the compositor changes.
\<close>

theorem wallpaper_render_all_or_nothing:
  assumes "zouts w out = Some zo" "g_wallpaper_state w = Some st" "image_ok V (src_image st)"
  shows "\<exists>w' r st'. zen_wallpaper_render_output V out w = Some (w', r) \<and>
    w' = w\<lparr>g_wallpaper_state := Some st', calls := calls w'\<rparr> \<and>
    settles (wallpaper_objects (Some st)) w (wallpaper_objects (Some st')) w' \<and>
    (if r = 0 then \<exists>wo. wp_outputs st' = wo # wp_outputs st \<and> size (output_objects wo) = 3
     else r = -1 \<and> st' = st)"
proof -
  from render_outcome_holds [OF assms(1), of V] assms(2,3) obtain w' r where
    run: "zen_wallpaper_render_output V out w = Some (w', r)" and "rendered V w w' r"
    by (auto simp: render_outcome_def)
  then show ?thesis using assms(2)
    by (cases "r = 0") (auto simp: rendered_def output_objects_def)
qed

text \<open>The destructor gives back the nodes and the surfaces, but not the buffers.\<close>

lemma accounts_output_releases:
  "accounts (output_objects wo) (wallpaper_output_releases wo) (opt_object K_buffer (wbuf wo))"
  unfolding output_objects_def wallpaper_output_releases_def add.assoc
  by (rule accounts_append [OF accounts_release_opt accounts_release_opt])

lemma accounts_outputs_releases:
  "accounts (sum_list (map output_objects wos)) (concat (map wallpaper_output_releases wos))
     (sum_list (map (\<lambda>wo. opt_object K_buffer (wbuf wo)) wos))"
proof (induction wos)
  case (Cons wo wos)
  show ?case
    using accounts_append [OF accounts_frame [OF accounts_output_releases] accounts_frame_left [OF Cons]] by simp
qed simp

lemma wallpaper_destroy_settles:
  "settles (wallpaper_objects (g_wallpaper_state w)) w (wallpaper_buffers (g_wallpaper_state w))
     (zen_wallpaper_destroy w)"
proof (cases "g_wallpaper_state w")
  case None
  then show ?thesis
    by (simp add: zen_wallpaper_destroy_def wallpaper_objects_def wallpaper_buffers_def settles_refl)
next
  case (Some st)
  let ?B = "sum_list (map (\<lambda>wo. opt_object K_buffer (wbuf wo)) (wp_outputs st))"
  have "accounts (opt_object K_surface (src_image st) + sum_list (map output_objects (wp_outputs st)))
      (concat (map wallpaper_output_releases (wp_outputs st)) @ release_opt K_surface (src_image st)) ?B"
    by (rule accounts_append [OF accounts_frame_left [OF accounts_outputs_releases] accounts_release_opt])
  then show ?thesis using Some
    by (auto simp: zen_wallpaper_destroy_def wallpaper_objects_def wallpaper_buffers_def settles_def)
qed

text \<open>The outputs rendered one after the other; the compositor only logs a failure.\<close>

primrec render_outputs :: "(wo_env \<times> addr) list \<Rightarrow> world \<Rightarrow> world option" where
  "render_outputs [] w = Some w"
| "render_outputs (ro # ros) w = do {
     (w, _) \<leftarrow> zen_wallpaper_render_output (fst ro) (snd ro) w;
     render_outputs ros w }"

lemma render_outputs_settles:
  "render_outputs ros w = Some w' \<Longrightarrow> (\<forall>ro \<in> set ros. snd ro \<in> dom (zouts w)) \<Longrightarrow>
   g_wallpaper_state w = Some st \<Longrightarrow> (\<forall>ro \<in> set ros. image_ok (fst ro) (src_image st)) \<Longrightarrow>
   settles (wallpaper_objects (g_wallpaper_state w)) w (wallpaper_objects (g_wallpaper_state w')) w'"
proof (induction ros arbitrary: w st)
  case Nil
  then show ?case by (simp add: settles_refl)
next
  case (Cons ro ros)
  from Cons.prems(2) obtain zo where "zouts w (snd ro) = Some zo" by auto
  from render_outcome_holds [OF this, of "fst ro"] Cons.prems(3,4) obtain w1 r where
    run: "zen_wallpaper_render_output (fst ro) (snd ro) w = Some (w1, r)" and r: "rendered (fst ro) w w1 r"
    by (auto simp: render_outcome_def)
  from r Cons.prems(3) obtain st1 where st1: "g_wallpaper_state w1 = Some st1" "src_image st1 = src_image st"
    by (auto simp: rendered_def split: if_splits)
  from r have "w1 = w\<lparr>g_wallpaper_state := g_wallpaper_state w1, calls := calls w1\<rparr>" by (simp add: rendered_def)
  then have "zouts w1 = zouts w" by (rule ssubst) simp
  with Cons.prems run st1 have "settles (wallpaper_objects (g_wallpaper_state w1)) w1
      (wallpaper_objects (g_wallpaper_state w')) w'" by (intro Cons.IH [OF _ _ st1(1)]) simp_all
  moreover from r have "settles (wallpaper_objects (g_wallpaper_state w)) w
      (wallpaper_objects (g_wallpaper_state w1)) w1" by (simp add: rendered_def)
  ultimately show ?case using settles_trans by blast
qed

lemma wallpaper_init_settles:
  assumes "zen_wallpaper_init E w = Some (w', r)" "scene w \<noteq> None"
  shows "settles {#} w (opt_object K_node (if r = 0 then wallpaper_tree w' else None) +
    wallpaper_objects (if r = 0 then g_wallpaper_state w' else None)) w'"
  using assms unfolding zen_wallpaper_init_def load_wallpaper_def
  by (auto simp: Let_def wallpaper_objects_def settles_refl ac_simps emits_def
      split: if_splits option.splits prod.splits intro!: settles_tally)

text \<open>
  C40. The wallpaper leaks: start it, render any outputs, and destroy it. What the module still
  holds afterwards is the tree node, which goes with the scene, and the pixel buffer of every
  output rendered: nobody drops the reference \<open>wlr_buffer_init\<close> gave it, so
  \<open>wallpaper_buf_destroy\<close> never runs.
\<close>

theorem wallpaper_destroy_leaks_buffers:
  assumes "scene w \<noteq> None" "zen_wallpaper_init E w = Some (w1, 0)" "g_wallpaper_state w1 = Some st"
    and "render_outputs ros w1 = Some w2" "\<forall>ro \<in> set ros. snd ro \<in> dom (zouts w1)"
    and "\<forall>ro \<in> set ros. image_ok (fst ro) (src_image st)"
  shows "settles {#} w (opt_object K_node (wallpaper_tree w1) + wallpaper_buffers (g_wallpaper_state w2))
    (zen_wallpaper_destroy w2)"
proof -
  let ?T = "opt_object K_node (wallpaper_tree w1)"
  have "settles {#} w (?T + wallpaper_objects (g_wallpaper_state w1)) w1"
    using wallpaper_init_settles [OF assms(2,1)] by simp
  also have "settles (?T + wallpaper_objects (g_wallpaper_state w1)) w1
      (?T + wallpaper_objects (g_wallpaper_state w2)) w2"
    by (rule settles_frame_left [OF render_outputs_settles [OF assms(4,5,3,6)]])
  also (settles_trans) have "settles (?T + wallpaper_objects (g_wallpaper_state w2)) w2
      (?T + wallpaper_buffers (g_wallpaper_state w2)) (zen_wallpaper_destroy w2)"
    by (rule settles_frame_left [OF wallpaper_destroy_settles])
  finally (settles_trans) show ?thesis .
qed

section \<open>Witnesses\<close>

definition demo_wp :: wp_env where
  "demo_wp = \<lparr>theme_HOME = Some ''/h'', theme_path_ok = True,
     theme_fopen = [''/h/.config/zenos/theme.json'' \<mapsto>
       text_file (print_theme [(''mode'', ''dark''), (''wallpaper_path'', ''/w.png'')])],
     theme_buf_ok = True, theme_result_ok = True, wp_opendir = (\<lambda>_. None), png_path_ok = True,
     wp_state_ok = True, wp_tree = Some 50, png_load = (\<lambda>_. (60, True))\<rparr>"

definition demo_wo :: wo_env where
  "demo_wo = \<lparr>ro_width = 640, ro_height = 480, ro_alloc_ok = True, ro_surface = 61, ro_surface_ok = True,
     ro_cr = 62, ro_cr_ok = True, ro_image_size = (\<lambda>_. (1280, 960)), ro_wbuf = Some 63, ro_node = Some 64\<rparr>"

definition demo_desktop :: world where
  "demo_desktop = zero_world\<lparr>scene := Some 40, zouts := [7 \<mapsto> \<lparr>wlr_output = 8, scene_output = None\<rparr>]\<rparr>"

theorem theme_round_trip_witness:
  "parse_wallpaper_path_from_theme demo_wp = Some ''/w.png''"
proof -
  let ?fs = "[(''mode'', ''dark''), (''wallpaper_path'', ''/w.png'')]"
  have "list_all theme_field_ok ?fs" by (simp add: theme_field_ok_def plain_text_def)
  moreover have "length (print_theme ?fs) \<le> 65536" by (simp add: print_field_def quoted_def)
  ultimately show ?thesis using theme_round_trip [of ?fs demo_wp "''/h''"] by (simp add: demo_wp_def)
qed

theorem aspect_fill_covers_witness:
  "\<exists>s. compute_aspect_fill_scale 1760 990 1920 1080 = Some s \<and> 1920 - pow2 (-20) \<le> scaled_size 1760 s"
  using aspect_fill_covers [of 1760 990 1920 1080] by (auto simp: dim_def INT_MAX_def)

lemma demo_image_ok: "image_ok demo_wo p"
  by (simp add: image_ok_def demo_wo_def dim_def INT_MAX_def split: option.split)

definition demo_wallpapered :: world where
  "demo_wallpapered = demo_desktop\<lparr>wallpaper_tree := Some 50,
     g_wallpaper_state := Some \<lparr>src_image = Some 60, wp_outputs = []\<rparr>,
     calls := [Acquire K_node 50, Acquire K_surface 60]\<rparr>"

theorem wallpaper_render_all_or_nothing_witness:
  "\<exists>w'. zen_wallpaper_render_output (demo_wo\<lparr>ro_node := None\<rparr>) 7 demo_wallpapered = Some (w', -1) \<and>
     settles {#(K_surface, 60)#} demo_wallpapered {#(K_surface, 60)#} w'"
proof -
  have o7: "zouts demo_wallpapered 7 = Some \<lparr>wlr_output = 8, scene_output = None\<rparr>"
    by (simp add: demo_wallpapered_def demo_desktop_def)
  have st: "g_wallpaper_state demo_wallpapered = Some \<lparr>src_image = Some 60, wp_outputs = []\<rparr>"
    by (simp add: demo_wallpapered_def)
  have img: "image_ok (demo_wo\<lparr>ro_node := None\<rparr>) (src_image \<lparr>src_image = Some 60, wp_outputs = []\<rparr>)"
    by (simp add: image_ok_def demo_wo_def dim_def INT_MAX_def)
  have "\<exists>w'. zen_wallpaper_render_output (demo_wo\<lparr>ro_node := None\<rparr>) 7 demo_wallpapered = Some (w', -1)"
    by (simp add: zen_wallpaper_render_output_def render_output_internal_def st o7 demo_wo_def
        wallpaper_drawing_def compute_aspect_fill_scale_def double_div_def wallpaper_output_cleanup_def)
  then obtain w' where w': "zen_wallpaper_render_output (demo_wo\<lparr>ro_node := None\<rparr>) 7 demo_wallpapered = Some (w', -1)"
    by blast
  from wallpaper_render_all_or_nothing [OF o7 st img] have
    "settles (wallpaper_objects (Some \<lparr>src_image = Some 60, wp_outputs = []\<rparr>)) demo_wallpapered
      (wallpaper_objects (Some \<lparr>src_image = Some 60, wp_outputs = []\<rparr>)) w'" unfolding w' by clarsimp
  with w' show ?thesis by (simp add: wallpaper_objects_def)
qed

theorem wallpaper_destroy_leaks_buffers_witness:
  "\<exists>w1 w2. zen_wallpaper_init (demo_wp\<lparr>theme_HOME := None\<rparr>) demo_desktop = Some (w1, 0) \<and>
     render_outputs [(demo_wo, 7)] w1 = Some w2 \<and>
     settles {#} demo_desktop {#(K_node, 50), (K_buffer, 63)#} (zen_wallpaper_destroy w2)"
proof -
  let ?st = "\<lparr>src_image = None, wp_outputs = []\<rparr>"
  let ?w1 = "demo_desktop\<lparr>wallpaper_tree := Some 50, calls := [Acquire K_node 50], g_wallpaper_state := Some ?st\<rparr>"
  let ?wo = "\<lparr>wo_output = 8, wo_surface = Some 61, wbuf = Some 63, scene_buf = Some 64\<rparr>"
  have sc: "scene demo_desktop \<noteq> None" by (simp add: demo_desktop_def)
  have i: "zen_wallpaper_init (demo_wp\<lparr>theme_HOME := None\<rparr>) demo_desktop = Some (?w1, 0)"
    by (simp add: zen_wallpaper_init_def wallpaper_path_def parse_wallpaper_path_from_theme_def
        find_first_png_def load_wallpaper_def demo_wp_def demo_desktop_def emits_def zero_world_def)
  have "\<exists>w2. render_outputs [(demo_wo, 7)] ?w1 = Some w2 \<and>
      g_wallpaper_state w2 = Some (?st\<lparr>wp_outputs := [?wo]\<rparr>)"
    by (simp add: zen_wallpaper_render_output_def render_output_internal_def demo_wo_def demo_desktop_def
        wallpaper_drawing_def)
  then obtain w2 where r: "render_outputs [(demo_wo, 7)] ?w1 = Some w2"
    and g: "g_wallpaper_state w2 = Some (?st\<lparr>wp_outputs := [?wo]\<rparr>)" by blast
  have "settles {#} demo_desktop (opt_object K_node (wallpaper_tree ?w1) +
      wallpaper_buffers (g_wallpaper_state w2)) (zen_wallpaper_destroy w2)"
    using wallpaper_destroy_leaks_buffers [OF sc i _ r, of ?st] demo_image_ok by (simp add: demo_desktop_def)
  then have "settles {#} demo_desktop {#(K_node, 50), (K_buffer, 63)#} (zen_wallpaper_destroy w2)"
    by (simp add: wallpaper_buffers_def g add_mset_commute)
  with i r show ?thesis by blast
qed

end
