(* ===== verification/Zen_Dbus.thy ===== *)
theory Zen_Dbus
  imports Zen_Lock Zen_Errors Zen_Ledger
begin

text \<open>
  The compositor's D-Bus service of \<open>src/compositor/src/dbus.c\<close>: its seven methods, the table
  that declares their signatures, the dispatch from the event loop, and the connection with
  its slot and event source.
\<close>

section \<open>What sd-bus answers\<close>

text \<open>An argument as \<open>sd_bus_message_read\<close> delivers it; a D-Bus boolean is a C \<open>int\<close>.\<close>

datatype marg = M_s cstring | M_b int | M_i int

record bus_env =
  msg_read :: "string \<Rightarrow> int \<times> marg list"  \<comment> \<open>for the types asked: the result, the arguments\<close>
  bus_fork_ok :: bool
  bus_errno :: int
  msg_reply :: int
  msg_new :: int
  msg_open :: int
  msg_append :: "nat \<Rightarrow> int"
  msg_close :: int
  msg_send :: int

fun marg_type :: "marg \<Rightarrow> char" where
  "marg_type (M_s s) = CHR ''s''"
| "marg_type (M_b b) = CHR ''b''"
| "marg_type (M_i i) = CHR ''i''"

fun bus_value_type :: "bus_value \<Rightarrow> string" where
  "bus_value_type (BV_b b) = ''b''"
| "bus_value_type (BV_i i) = ''i''"
| "bus_value_type (BV_as ss) = ''as''"

text \<open>What the documentation of \<open>sd_bus_message_read\<close> promises: an error, or the types asked for.\<close>

definition reads_typed :: "bus_env \<Rightarrow> bool" where
  "reads_typed E \<longleftrightarrow> (\<forall>types. fst (msg_read E types) < 0 \<or> map marg_type (snd (msg_read E types)) = types)"

definition EINVAL :: int where "EINVAL = 22"

section \<open>Methods\<close>

definition invalid_argument :: "string \<Rightarrow> world \<Rightarrow> (world \<times> int) option" where
  "invalid_argument msg w =
     Some (emits [Bus (Bus_set_error ''org.zenos.Error.InvalidArgument'' msg)] w, - EINVAL)"

definition reply_return :: "bus_env \<Rightarrow> bus_value \<Rightarrow> world \<Rightarrow> (world \<times> int) option" where
  "reply_return E v w = Some (emits [Bus (Bus_reply v)] w, msg_reply E)"

definition handle_launch_app :: "bus_env \<Rightarrow> world \<Rightarrow> (world \<times> int) option" where
  "handle_launch_app E w = (case msg_read E ''s'' of (ret, args) \<Rightarrow>
     if ret < 0 then Some (w, ret)
     else case args of
       [M_s app] \<Rightarrow>
         (case app of
            None \<Rightarrow> invalid_argument ''app_id must not be empty'' w
          | Some s \<Rightarrow>
              if s = [] then invalid_argument ''app_id must not be empty'' w
              else if bus_fork_ok E then reply_return E (BV_b True) (emits [Proc (Fork_exec [[s]])] w)
              else Some (emits [Proc Fork_failed,
                     Bus (Bus_set_error ''org.zenos.Error.Internal'' ''fork failed'')] w, - bus_errno E))
     | _ \<Rightarrow> None)"

text \<open>The loop over the toplevels: the ids appended, or the first error.\<close>

primrec append_app_ids :: "bus_env \<Rightarrow> world \<Rightarrow> nat \<Rightarrow> addr list \<Rightarrow> (int + string list) option" where
  "append_app_ids E w i [] = Some (Inr [])"
| "append_app_ids E w i (t # ts) = do {
     toplevel \<leftarrow> tops w t;
     let id = (case app_id toplevel of None \<Rightarrow> [] | Some s \<Rightarrow> s);
     if msg_append E i < 0 then Some (Inl (msg_append E i))
     else do {
       rest \<leftarrow> append_app_ids E w (Suc i) ts;
       Some (case rest of Inl ret \<Rightarrow> Inl ret | Inr ids \<Rightarrow> Inr (id # ids)) } }"

definition handle_get_running_apps :: "bus_env \<Rightarrow> world \<Rightarrow> (world \<times> int) option" where
  "handle_get_running_apps E w =
     (if msg_new E < 0 then Some (w, msg_new E)
      else if msg_open E < 0 then Some (w, msg_open E)
      else do {
        ts \<leftarrow> toplevels w;
        r \<leftarrow> append_app_ids E w 0 ts;
        case r of
          Inl ret \<Rightarrow> Some (w, ret)
        | Inr ids \<Rightarrow>
            if msg_close E < 0 then Some (w, msg_close E)
            else Some (emits [Bus (Bus_reply (BV_as ids))] w, msg_send E) })"

definition handle_pin_to_shelf :: "bus_env \<Rightarrow> world \<Rightarrow> (world \<times> int) option" where
  "handle_pin_to_shelf E w = (case msg_read E ''s'' of (ret, args) \<Rightarrow>
     if ret < 0 then Some (w, ret)
     else case args of
       [M_s app] \<Rightarrow>
         if app = None \<or> app = Some [] then invalid_argument ''app_id must not be empty'' w
         else reply_return E (BV_b True) w
     | _ \<Rightarrow> None)"

definition handle_unpin_from_shelf :: "bus_env \<Rightarrow> world \<Rightarrow> (world \<times> int) option" where
  "handle_unpin_from_shelf E w = (case msg_read E ''s'' of (ret, args) \<Rightarrow>
     if ret < 0 then Some (w, ret)
     else case args of
       [M_s app] \<Rightarrow>
         if app = None \<or> app = Some [] then invalid_argument ''app_id must not be empty'' w
         else reply_return E (BV_b True) w
     | _ \<Rightarrow> None)"

definition handle_set_shelf_config :: "bus_env \<Rightarrow> world \<Rightarrow> (world \<times> int) option" where
  "handle_set_shelf_config E w = (case msg_read E ''sbi'' of (ret, args) \<Rightarrow>
     if ret < 0 then Some (w, ret)
     else case args of
       [M_s position, M_b auto_hide, M_i icon_size] \<Rightarrow>
         if icon_size \<le> 0 then invalid_argument ''icon_size must be greater than 0'' w
         else reply_return E (BV_b True) w
     | _ \<Rightarrow> None)"

definition handle_toggle_dark_mode :: "bus_env \<Rightarrow> world \<Rightarrow> (world \<times> int) option" where
  "handle_toggle_dark_mode E w = (case msg_read E ''b'' of (ret, args) \<Rightarrow>
     if ret < 0 then Some (w, ret)
     else case args of
       [M_b enabled] \<Rightarrow>
         let w = w\<lparr>dark_mode := (enabled \<noteq> 0)\<rparr>
         in reply_return E (BV_b (dark_mode w)) w
     | _ \<Rightarrow> None)"

definition handle_show_notification :: "bus_env \<Rightarrow> world \<Rightarrow> (world \<times> int) option" where
  "handle_show_notification E w = (case msg_read E ''ssssii'' of (ret, args) \<Rightarrow>
     if ret < 0 then Some (w, ret)
     else case args of
       [M_s app, M_s summary, M_s body, M_s icon, M_i urgency, M_i timeout_ms] \<Rightarrow>
         if urgency < 0 \<or> urgency > 2 then invalid_argument ''urgency must be in range [0, 2]'' w
         else reply_return E (BV_i 1) w
     | _ \<Rightarrow> None)"

section \<open>The table\<close>

record vtable_method =
  vm_member :: string
  vm_signature :: string
  vm_result :: string
  vm_handler :: "bus_env \<Rightarrow> world \<Rightarrow> (world \<times> int) option"

definition compositor_vtable :: "vtable_method list" where
  "compositor_vtable =
     [\<lparr>vm_member = ''LaunchApp'', vm_signature = ''s'', vm_result = ''b'', vm_handler = handle_launch_app\<rparr>,
      \<lparr>vm_member = ''GetRunningApps'', vm_signature = '''', vm_result = ''as'', vm_handler = handle_get_running_apps\<rparr>,
      \<lparr>vm_member = ''PinToShelf'', vm_signature = ''s'', vm_result = ''b'', vm_handler = handle_pin_to_shelf\<rparr>,
      \<lparr>vm_member = ''UnpinFromShelf'', vm_signature = ''s'', vm_result = ''b'', vm_handler = handle_unpin_from_shelf\<rparr>,
      \<lparr>vm_member = ''SetShelfConfig'', vm_signature = ''sbi'', vm_result = ''b'', vm_handler = handle_set_shelf_config\<rparr>,
      \<lparr>vm_member = ''ToggleDarkMode'', vm_signature = ''b'', vm_result = ''b'', vm_handler = handle_toggle_dark_mode\<rparr>,
      \<lparr>vm_member = ''ShowNotification'', vm_signature = ''ssssii'', vm_result = ''i'', vm_handler = handle_show_notification\<rparr>]"

text \<open>
  \<open>sd_bus_process\<close> takes at most one message from the connection; when it is a call of one of
  the methods, the method's handler runs. \<open>pending\<close> is the member called and its message.
\<close>

definition dbus_dispatch_cb :: "(string \<times> bus_env) option \<Rightarrow> world \<Rightarrow> (world \<times> int) option" where
  "dbus_dispatch_cb pending w = (case pending of
      None \<Rightarrow> Some (w, 0)
    | Some (member, E) \<Rightarrow>
        if bus w = None then Some (w, 0)
        else case find (\<lambda>m. vm_member m = member) compositor_vtable of
               None \<Rightarrow> Some (w, 0)
             | Some m \<Rightarrow> do { (w, _) \<leftarrow> vm_handler m E w; Some (w, 0) })"

section \<open>The connection\<close>

record dbus_init_env =
  open_user :: "int \<times> addr"
  add_object_vtable :: "int \<times> addr"
  request_name :: int
  bus_get_fd :: int
  loop_add_fd :: ptr

definition zen_dbus_destroy :: "cptr \<Rightarrow> world \<Rightarrow> world" where
  "zen_dbus_destroy c w =
     (if c = CNULL then w
      else (emits (release_opt K_event_source (dbus_event_source w) @ release_opt K_slot (dbus_slot w) @
              release_opt K_bus (bus w)) w)
             \<lparr>dbus_event_source := None, dbus_slot := None, bus := None\<rparr>)"

definition zen_dbus_init :: "dbus_init_env \<Rightarrow> world \<Rightarrow> (world \<times> int) option" where
  "zen_dbus_init D w =
     (case open_user D of (ret, b) \<Rightarrow>
        if ret < 0 then Some (zen_dbus_destroy CPTR w, ret)
        else let w = (emits [Acquire K_bus b] w)\<lparr>bus := Some b\<rparr>
             in case add_object_vtable D of (ret, sl) \<Rightarrow>
               if ret < 0 then Some (zen_dbus_destroy CPTR w, ret)
               else let w = (emits [Acquire K_slot sl] w)\<lparr>dbus_slot := Some sl\<rparr>
                    in if request_name D < 0 then Some (zen_dbus_destroy CPTR w, request_name D)
                       else if bus_get_fd D < 0 then Some (zen_dbus_destroy CPTR w, bus_get_fd D)
                       else do {
                         _ \<leftarrow> wl_display w;
                         case loop_add_fd D of
                           None \<Rightarrow> Some (zen_dbus_destroy CPTR (w\<lparr>dbus_event_source := None\<rparr>), -1)
                         | Some src \<Rightarrow>
                             Some ((emits [Acquire K_event_source src] w)\<lparr>dbus_event_source := Some src\<rparr>, 0) })"

section \<open>The contract of a method\<close>

lemma marg_type_iff [simp]:
  "marg_type x = CHR ''s'' \<longleftrightarrow> (\<exists>s. x = M_s s)"
  "marg_type x = CHR ''b'' \<longleftrightarrow> (\<exists>b. x = M_b b)"
  "marg_type x = CHR ''i'' \<longleftrightarrow> (\<exists>i. x = M_i i)"
  by (cases x; simp)+

lemma reads_cases:
  assumes "reads_typed E"
  obtains ret args where "msg_read E types = (ret, args)" "ret < 0"
  | ret args where "msg_read E types = (ret, args)" "0 \<le> ret" "map marg_type args = types"
  using assms unfolding reads_typed_def by (metis linorder_not_le prod.collapse)

text \<open>Every toplevel in the list is allocated.\<close>

definition toplevels_live :: "world \<Rightarrow> bool" where
  "toplevels_live w \<longleftrightarrow> (case toplevels w of None \<Rightarrow> False | Some ts \<Rightarrow> set ts \<subseteq> dom (tops w))"

text \<open>
  What a handler may do: start a process first, and then send at most one message, either a
  reply of the declared type or an error whose name is one of the shared error names. Apart
  from the dark mode, nothing of the compositor changes.
\<close>

fun one_answer :: "string \<Rightarrow> call list \<Rightarrow> bool" where
  "one_answer result [] \<longleftrightarrow> True"
| "one_answer result [Bus (Bus_reply v)] \<longleftrightarrow> bus_value_type v = result"
| "one_answer result [Bus (Bus_set_error name msg)] \<longleftrightarrow> name \<in> set dbus_names"
| "one_answer result cs \<longleftrightarrow> False"

fun polite :: "string \<Rightarrow> call list \<Rightarrow> bool" where
  "polite result (Proc p # cs) \<longleftrightarrow> one_answer result cs"
| "polite result cs \<longleftrightarrow> one_answer result cs"

definition answered :: "string \<Rightarrow> world \<Rightarrow> (world \<times> int) option \<Rightarrow> bool" where
  "answered result w x \<longleftrightarrow> (\<exists>w' r cs. x = Some (w', r) \<and> polite result cs \<and>
     w' = w\<lparr>dark_mode := dark_mode w', calls := calls w @ cs\<rparr>)"

locale bus_method =
  fixes handler :: "bus_env \<Rightarrow> world \<Rightarrow> (world \<times> int) option"
    and result :: string
  assumes answers: "reads_typed E \<Longrightarrow> toplevels_live w \<Longrightarrow> answered result w (handler E w)"
begin

lemma returns:
  assumes "reads_typed E" "toplevels_live w"
  obtains w' r cs where "handler E w = Some (w', r)" "polite result cs"
    "w' = w\<lparr>dark_mode := dark_mode w', calls := calls w @ cs\<rparr>"
  using answers [OF assms] unfolding answered_def by blast

lemma keeps_live:
  assumes "reads_typed E" "toplevels_live w" "handler E w = Some (w', r)"
  shows "toplevels_live w'"
proof -
  from returns [OF assms(1,2)] assms(3) obtain d cs where "w' = w\<lparr>dark_mode := d, calls := calls w @ cs\<rparr>"
    by (metis option.inject prod.inject)
  with assms(2) show ?thesis by (simp add: toplevels_live_def split: option.splits)
qed

end

text \<open>The ways to answer.\<close>

lemma answered_silent: "answered result w (Some (w, r))"
  by (simp add: answered_def) (rule exI [of _ "[]"], simp)

lemma answered_emits: "polite result cs \<Longrightarrow> answered result w (Some (emits cs w, r))"
  unfolding answered_def by (intro exI conjI) (rule refl, assumption, simp add: emits_def)

lemma answered_dark: "polite result cs \<Longrightarrow> answered result w (Some (emits cs (w\<lparr>dark_mode := d\<rparr>), r))"
  unfolding answered_def by (intro exI conjI) (rule refl, assumption, simp add: emits_def)

lemmas answered_rules = answered_silent answered_emits answered_dark

lemma append_app_ids_live: "set ts \<subseteq> dom (tops w) \<Longrightarrow> \<exists>r. append_app_ids E w i ts = Some r"
proof (induction ts arbitrary: i)
  case (Cons t ts)
  then obtain tp where "tops w t = Some tp" by auto
  moreover from Cons.IH [of "Suc i"] Cons.prems obtain r where "append_app_ids E w (Suc i) ts = Some r" by auto
  ultimately show ?case by (simp add: Let_def)
qed simp

lemmas handler_defs = handle_launch_app_def handle_get_running_apps_def handle_pin_to_shelf_def
  handle_unpin_from_shelf_def handle_set_shelf_config_def handle_toggle_dark_mode_def
  handle_show_notification_def invalid_argument_def reply_return_def

interpretation launch_app: bus_method handle_launch_app "''b''"
proof
  fix E w assume "reads_typed E"
  then show "answered ''b'' w (handle_launch_app E w)"
    by (cases rule: reads_cases [where types = "''s''"])
      (auto simp: handler_defs dbus_names_def intro!: answered_rules split: option.split)
qed

interpretation get_running_apps: bus_method handle_get_running_apps "''as''"
proof
  fix E w assume "toplevels_live w"
  then obtain ts where ts: "toplevels w = Some ts" "set ts \<subseteq> dom (tops w)"
    by (auto simp: toplevels_live_def split: option.splits)
  from append_app_ids_live [OF ts(2), of E 0] ts(1) show "answered ''as'' w (handle_get_running_apps E w)"
    by (auto simp: handler_defs intro!: answered_rules split: sum.split)
qed

interpretation pin_to_shelf: bus_method handle_pin_to_shelf "''b''"
proof
  fix E w assume "reads_typed E"
  then show "answered ''b'' w (handle_pin_to_shelf E w)"
    by (cases rule: reads_cases [where types = "''s''"])
      (auto simp: handler_defs dbus_names_def intro!: answered_rules)
qed

interpretation unpin_from_shelf: bus_method handle_unpin_from_shelf "''b''"
proof
  fix E w assume "reads_typed E"
  then show "answered ''b'' w (handle_unpin_from_shelf E w)"
    by (cases rule: reads_cases [where types = "''s''"])
      (auto simp: handler_defs dbus_names_def intro!: answered_rules)
qed

interpretation set_shelf_config: bus_method handle_set_shelf_config "''b''"
proof
  fix E w assume "reads_typed E"
  then show "answered ''b'' w (handle_set_shelf_config E w)"
    by (cases rule: reads_cases [where types = "''sbi''"])
      (auto simp: handler_defs dbus_names_def intro!: answered_rules)
qed

interpretation toggle_dark_mode: bus_method handle_toggle_dark_mode "''b''"
proof
  fix E w assume "reads_typed E"
  then show "answered ''b'' w (handle_toggle_dark_mode E w)"
    by (cases rule: reads_cases [where types = "''b''"])
      (auto simp: handler_defs intro!: answered_rules)
qed

interpretation show_notification: bus_method handle_show_notification "''i''"
proof
  fix E w assume "reads_typed E"
  then show "answered ''i'' w (handle_show_notification E w)"
    by (cases rule: reads_cases [where types = "''ssssii''"])
      (auto simp: handler_defs dbus_names_def intro!: answered_rules)
qed

lemma vtable_methods:
  assumes "m \<in> set compositor_vtable"
  shows "bus_method (vm_handler m) (vm_result m)"
proof -
  note ms = launch_app.bus_method_axioms get_running_apps.bus_method_axioms
    pin_to_shelf.bus_method_axioms unpin_from_shelf.bus_method_axioms
    set_shelf_config.bus_method_axioms toggle_dark_mode.bus_method_axioms
    show_notification.bus_method_axioms
  from assms ms show ?thesis by (auto simp: compositor_vtable_def)
qed

text \<open>
  C20. The service answers as its table declares. Whatever message arrives for a method, the
  handler returns; it sends at most one message, a reply of exactly the type the table
  declares for that method or an error with one of the shared names, and changes nothing of
  the compositor but the dark mode.
\<close>

theorem dbus_replies_as_declared:
  assumes "reads_typed E" "toplevels_live w" "bus w \<noteq> None"
    and "find (\<lambda>m. vm_member m = member) compositor_vtable = Some m"
  shows "\<exists>w' cs. dbus_dispatch_cb (Some (member, E)) w = Some (w', 0) \<and>
    w' = w\<lparr>dark_mode := dark_mode w', calls := calls w @ cs\<rparr> \<and>
    polite (vm_result m) cs"
proof -
  from assms(4) have "m \<in> set compositor_vtable" by (auto simp: find_Some_iff)
  from bus_method.answers [OF vtable_methods [OF this] assms(1,2)] show ?thesis
    using assms(3,4) by (auto simp: answered_def dbus_dispatch_cb_def)
qed

section \<open>Errors, and the list of windows\<close>

text \<open>The messages a method refuses.\<close>

fun bad_arguments :: "string \<Rightarrow> marg list \<Rightarrow> bool" where
  "bad_arguments member [M_s s] \<longleftrightarrow>
     member \<in> {''LaunchApp'', ''PinToShelf'', ''UnpinFromShelf''} \<and> (s = None \<or> s = Some [])"
| "bad_arguments member [M_s s, M_b b, M_i i] \<longleftrightarrow> member = ''SetShelfConfig'' \<and> i \<le> 0"
| "bad_arguments member [M_s a, M_s b, M_s c, M_s d, M_i u, M_i t] \<longleftrightarrow>
     member = ''ShowNotification'' \<and> \<not> (0 \<le> u \<and> u \<le> 2)"
| "bad_arguments member args \<longleftrightarrow> False"

lemma find_method:
  "find (\<lambda>m. vm_member m = ''LaunchApp'') compositor_vtable =
     Some \<lparr>vm_member = ''LaunchApp'', vm_signature = ''s'', vm_result = ''b'', vm_handler = handle_launch_app\<rparr>"
  "find (\<lambda>m. vm_member m = ''PinToShelf'') compositor_vtable =
     Some \<lparr>vm_member = ''PinToShelf'', vm_signature = ''s'', vm_result = ''b'', vm_handler = handle_pin_to_shelf\<rparr>"
  "find (\<lambda>m. vm_member m = ''UnpinFromShelf'') compositor_vtable =
     Some \<lparr>vm_member = ''UnpinFromShelf'', vm_signature = ''s'', vm_result = ''b'', vm_handler = handle_unpin_from_shelf\<rparr>"
  "find (\<lambda>m. vm_member m = ''SetShelfConfig'') compositor_vtable =
     Some \<lparr>vm_member = ''SetShelfConfig'', vm_signature = ''sbi'', vm_result = ''b'', vm_handler = handle_set_shelf_config\<rparr>"
  "find (\<lambda>m. vm_member m = ''ShowNotification'') compositor_vtable =
     Some \<lparr>vm_member = ''ShowNotification'', vm_signature = ''ssssii'', vm_result = ''i'', vm_handler = handle_show_notification\<rparr>"
  by (simp_all add: compositor_vtable_def)

text \<open>
  Arguments are validated before anything happens: an empty application id, an icon size
  that is not positive and an urgency outside 0 to 2 are each answered with \<open>-EINVAL\<close> and the
  shared name of the invalid-argument error; no reply is sent, no process is started, and
  nothing of the compositor changes.
\<close>

theorem dbus_rejects_bad_arguments:
  assumes "find (\<lambda>m. vm_member m = member) compositor_vtable = Some m"
    and "msg_read E (vm_signature m) = (ret, args)" "0 \<le> ret" "bad_arguments member args"
  shows "\<exists>name msg. vm_handler m E w = Some (emits [Bus (Bus_set_error name msg)] w, - EINVAL) \<and>
    zen_error_dbus_name (error_code ZEN_ERR_INVALID_ARGUMENT) = Some name"
proof -
  have n: "zen_error_dbus_name (error_code ZEN_ERR_INVALID_ARGUMENT) = Some ''org.zenos.Error.InvalidArgument''"
    by (simp add: zen_error_dbus_name_def c_index_def dbus_names_def)
  have "vm_handler m E w \<in> range (\<lambda>msg. invalid_argument msg w)"
    using assms
    by (cases "(member, args)" rule: bad_arguments.cases) (auto simp: find_method handler_defs split: option.split)
  with n show ?thesis by (auto simp: invalid_argument_def)
qed

text \<open>What the loop collects: the application id of every window, in the list's order.\<close>

definition window_app_id :: "world \<Rightarrow> addr \<Rightarrow> string" where
  "window_app_id w t = (case tops w t of None \<Rightarrow> [] | Some tp \<Rightarrow> (case app_id tp of None \<Rightarrow> [] | Some s \<Rightarrow> s))"

lemma append_app_ids_value:
  "set ts \<subseteq> dom (tops w) \<Longrightarrow> (\<And>i. 0 \<le> msg_append E i) \<Longrightarrow>
   append_app_ids E w i ts = Some (Inr (map (window_app_id w) ts))"
proof (induction ts arbitrary: i)
  case (Cons t ts)
  then obtain tp where "tops w t = Some tp" by auto
  with Cons show ?case by (simp add: window_app_id_def not_less Let_def)
qed simp

text \<open>
  \<open>GetRunningApps\<close> lists the windows: one string for every toplevel, in the order of the
  compositor's list, most recently focused first, empty where the client set no application
  id; the call reads the compositor and changes nothing of it.
\<close>

theorem running_apps_listed:
  assumes "toplevels w = Some ts" "set ts \<subseteq> dom (tops w)"
    and "0 \<le> msg_new E" "0 \<le> msg_open E" "\<And>i. 0 \<le> msg_append E i" "0 \<le> msg_close E"
  shows "handle_get_running_apps E w =
    Some (emits [Bus (Bus_reply (BV_as (map (window_app_id w) ts)))] w, msg_send E)"
  using assms append_app_ids_value [OF assms(2,5)] by (simp add: handle_get_running_apps_def not_less)

section \<open>The connection\<close>

definition dbus_objects :: "world \<Rightarrow> (kind \<times> addr) multiset" where
  "dbus_objects w = opt_object K_event_source (dbus_event_source w) + (opt_object K_slot (dbus_slot w) +
     opt_object K_bus (bus w))"

lemma dbus_destroy_settles: "settles (dbus_objects w) w {#} (zen_dbus_destroy CPTR w)"
proof -
  have "accounts (dbus_objects w) (release_opt K_event_source (dbus_event_source w) @
      release_opt K_slot (dbus_slot w) @ release_opt K_bus (bus w)) {#}" unfolding dbus_objects_def
    by (intro accounts_append [OF accounts_release_opt]) (metis accounts_release_opt add.right_neutral)
  then show ?thesis by (auto simp: settles_def zen_dbus_destroy_def)
qed

text \<open>Nothing but the three fields and the trace changes.\<close>

definition dbus_frame :: "world \<Rightarrow> world \<Rightarrow> bool" where
  "dbus_frame w w' \<longleftrightarrow> w' = w\<lparr>bus := bus w', dbus_slot := dbus_slot w',
     dbus_event_source := dbus_event_source w', calls := calls w'\<rparr>"

definition connected :: "world \<Rightarrow> (world \<times> int) option \<Rightarrow> bool" where
  "connected w x \<longleftrightarrow> (\<exists>w' r. x = Some (w', r) \<and> dbus_frame w w' \<and> settles {#} w (dbus_objects w') w' \<and>
     (if r = 0 then bus w' \<noteq> None \<and> dbus_slot w' \<noteq> None \<and> dbus_event_source w' \<noteq> None
      else r < 0 \<and> dbus_objects w' = {#}))"

lemma connect_fail:
  assumes "settles {#} w (dbus_objects v) v" "dbus_frame w v" "r < 0"
  shows "connected w (Some (zen_dbus_destroy CPTR v, r))"
proof -
  have "settles {#} w {#} (zen_dbus_destroy CPTR v)" using assms(1) dbus_destroy_settles by (rule settles_trans)
  moreover have "dbus_objects (zen_dbus_destroy CPTR v) = {#}" by (simp add: dbus_objects_def zen_dbus_destroy_def)
  moreover have "dbus_frame w (zen_dbus_destroy CPTR v)"
  proof -
    from assms(2) have "\<exists>b s e c. v = w\<lparr>bus := b, dbus_slot := s, dbus_event_source := e, calls := c\<rparr>"
      unfolding dbus_frame_def by blast
    then show ?thesis by (auto simp: dbus_frame_def zen_dbus_destroy_def emits_def)
  qed
  ultimately show ?thesis using assms(3) by (simp add: connected_def)
qed


lemma connect_ok:
  assumes "settles {#} w (dbus_objects v) v" "dbus_frame w v"
    and "bus v \<noteq> None" "dbus_slot v \<noteq> None" "dbus_event_source v \<noteq> None"
  shows "connected w (Some (v, 0))"
  using assms by (simp add: connected_def)

lemma connect_init:
  assumes "bus w = None" "dbus_slot w = None" "dbus_event_source w = None" "wl_display w \<noteq> None"
  shows "connected w (zen_dbus_init D w)"
  using assms unfolding zen_dbus_init_def
  by (auto simp: Let_def emits_def dbus_objects_def dbus_frame_def split: prod.split option.split
      intro!: connect_fail connect_ok settles_tally)

text \<open>
  Connecting is all or nothing: whichever step fails, \<open>zen_dbus_init\<close> returns a negative
  code with the connection, the slot and the event source all given back and the fields NULL;
  on success it holds exactly the three. It never faults once the display exists.
\<close>

theorem dbus_init_all_or_nothing:
  assumes "bus w = None" "dbus_slot w = None" "dbus_event_source w = None" "wl_display w \<noteq> None"
  shows "\<exists>w' r. zen_dbus_init D w = Some (w', r) \<and> dbus_frame w w' \<and> settles {#} w (dbus_objects w') w' \<and>
    (if r = 0 then bus w' \<noteq> None \<and> dbus_slot w' \<noteq> None \<and> dbus_event_source w' \<noteq> None
     else r < 0 \<and> dbus_objects w' = {#})"
  using connect_init [OF assms] unfolding connected_def .

section \<open>Witnesses\<close>

text \<open>A message with the given arguments; reading other types than they have fails.\<close>

definition demo_message :: "marg list \<Rightarrow> bus_env" where
  "demo_message args = \<lparr>msg_read = (\<lambda>types. if map marg_type args = types then (1, args) else (-6, [])),
     bus_fork_ok = True, bus_errno = 11, msg_reply = 1, msg_new = 0, msg_open = 1, msg_append = (\<lambda>_. 1),
     msg_close = 1, msg_send = 1\<rparr>"

lemma demo_message_typed: "reads_typed (demo_message args)"
  by (auto simp: reads_typed_def demo_message_def)

definition demo_service :: world where
  "demo_service = zero_world\<lparr>wl_display := Some 1, bus := Some 2, toplevels := Some [7, 8],
     tops := [7 \<mapsto> \<lparr>xdg_toplevel = Some 70, scene_tree = None, title = None, app_id = Some ''foot''\<rparr>,
              8 \<mapsto> \<lparr>xdg_toplevel = Some 80, scene_tree = None, title = None, app_id = None\<rparr>]\<rparr>"

theorem dbus_replies_as_declared_witness:
  "\<exists>w' cs. dbus_dispatch_cb (Some (''UnpinFromShelf'', demo_message [M_s (Some ''foot'')])) demo_service =
     Some (w', 0) \<and> w' = demo_service\<lparr>dark_mode := dark_mode w', calls := calls demo_service @ cs\<rparr> \<and>
     polite ''b'' cs"
  using dbus_replies_as_declared [OF demo_message_typed _ _ find_method(3), of demo_service "[M_s (Some ''foot'')]"]
  by (simp add: toplevels_live_def demo_service_def)

theorem dbus_rejects_bad_arguments_witness:
  "\<exists>name msg. handle_set_shelf_config (demo_message [M_s (Some ''left''), M_b 1, M_i 0]) demo_service =
     Some (emits [Bus (Bus_set_error name msg)] demo_service, -22) \<and>
     zen_error_dbus_name (error_code ZEN_ERR_INVALID_ARGUMENT) = Some name"
  using dbus_rejects_bad_arguments [OF find_method(4), of "demo_message [M_s (Some ''left''), M_b 1, M_i 0]"
      1 "[M_s (Some ''left''), M_b 1, M_i 0]" demo_service]
  by (simp add: demo_message_def EINVAL_def)

theorem running_apps_listed_witness:
  "handle_get_running_apps (demo_message []) demo_service =
     Some (emits [Bus (Bus_reply (BV_as [''foot'', []]))] demo_service, 1)"
proof -
  have "toplevels demo_service = Some [7, 8]" "set [7, 8] \<subseteq> dom (tops demo_service)"
    by (simp_all add: demo_service_def)
  from running_apps_listed [OF this, of "demo_message []"] show ?thesis
    by (simp add: demo_message_def window_app_id_def demo_service_def)
qed

definition name_taken :: dbus_init_env where
  "name_taken = \<lparr>open_user = (0, 3), add_object_vtable = (1, 4), request_name = -17, bus_get_fd = 5,
     loop_add_fd = Some 6\<rparr>"

theorem dbus_init_all_or_nothing_witness:
  "\<exists>w'. zen_dbus_init name_taken (zero_world\<lparr>wl_display := Some 1\<rparr>) = Some (w', -17) \<and>
      settles {#} (zero_world\<lparr>wl_display := Some 1\<rparr>) {#} w'"
proof -
  let ?w = "zero_world\<lparr>wl_display := Some 1\<rparr>"
  have "\<exists>w'. zen_dbus_init name_taken ?w = Some (w', -17)" by (simp add: zen_dbus_init_def name_taken_def)
  then obtain w' where w': "zen_dbus_init name_taken ?w = Some (w', -17)" by blast
  have "\<exists>w'' r. zen_dbus_init name_taken ?w = Some (w'', r) \<and> dbus_frame ?w w'' \<and>
    settles {#} ?w (dbus_objects w'') w'' \<and>
    (if r = 0 then bus w'' \<noteq> None \<and> dbus_slot w'' \<noteq> None \<and> dbus_event_source w'' \<noteq> None
     else r < 0 \<and> dbus_objects w'' = {#})" by (rule dbus_init_all_or_nothing) (simp_all add: zero_world_def)
  with w' have "settles {#} ?w {#} w'" by auto
  with w' show ?thesis by blast
qed

end
