(* ===== verification/Zen_Xwayland.thy ===== *)
theory Zen_Xwayland
  imports Zen_Input_Props Zen_Ledger
begin

text \<open>
  The XWayland bridge of \<open>src/compositor/src/xwayland.c\<close>: the struct the compositor keeps for
  each X11 window, the listeners that follow the window's Wayland surface as it appears and
  goes away, and the bridge itself. The meeting of X11 windows with the focus of
  \<open>xdg.c\<close> and the hit test of \<open>input.c\<close> is at the end.
\<close>

section \<open>What the bridge asks of the outside\<close>

record xw_env =
  xw_create :: ptr                   \<comment> \<open>\<open>wlr_xwayland_create\<close>\<close>
  xw_display_name :: cstring
  xw_calloc :: ptr
  xw_strdup_ok :: bool
  xw_scene_surface :: ptr            \<comment> \<open>\<open>wlr_scene_surface_create\<close>\<close>
  xw_surface :: "addr \<Rightarrow> ptr"         \<comment> \<open>\<open>xwayland_surface->surface\<close>\<close>
  xw_title :: "addr \<Rightarrow> cstring"
  xw_keyboard :: bool                \<comment> \<open>\<open>wlr_seat_get_keyboard\<close> is not NULL\<close>

section \<open>X11 windows\<close>

definition xws_listeners :: "lfield list" where
  "xws_listeners = [L_associate, L_dissociate, L_destroy, L_set_title]"

text \<open>
  The link of the map and unmap listeners is NULL while they are not linked: it is zeroed at
  allocation and by \<open>wl_list_remove\<close>, so testing it is testing whether they are linked.
\<close>

definition handle_xws_map :: "xw_env \<Rightarrow> addr \<Rightarrow> world \<Rightarrow> world option" where
  "handle_xws_map E a w = do {
     xws \<leftarrow> xwss w a;
     let w = (case scene_surface xws of
                None \<Rightarrow> w
              | Some n \<Rightarrow> emits [Node (Set_enabled n True)] w);
     let w = emits [X11 (X11_activate (xwayland_surface xws) True)] w;
     Some (case (seat w, xw_surface E (xwayland_surface xws)) of
             (Some _, Some s) \<Rightarrow> if xw_keyboard E then emits [Keyboard (Keyboard_enter s)] w else w
           | _ \<Rightarrow> w) }"

definition handle_xws_unmap :: "addr \<Rightarrow> world \<Rightarrow> world option" where
  "handle_xws_unmap a w = do {
     xws \<leftarrow> xwss w a;
     let w = (case scene_surface xws of
                None \<Rightarrow> w
              | Some n \<Rightarrow> emits [Node (Set_enabled n False)] w);
     Some (case seat w of
             None \<Rightarrow> w
           | Some _ \<Rightarrow> emits [Keyboard Keyboard_clear_focus] w) }"

definition store_xws :: "addr \<Rightarrow> ZenXWaylandSurface \<Rightarrow> world \<Rightarrow> world" where
  "store_xws a xws w = w\<lparr>xwss := (xwss w)(a \<mapsto> xws)\<rparr>"

definition handle_xws_associate :: "xw_env \<Rightarrow> addr \<Rightarrow> world \<Rightarrow> world option" where
  "handle_xws_associate E a w = do {
     xws \<leftarrow> xwss w a;
     _ \<leftarrow> scene w;
     let w = store_xws a (xws\<lparr>scene_surface := xw_scene_surface E\<rparr>) w;
     case xw_scene_surface E of
       None \<Rightarrow> Some w
     | Some n \<Rightarrow> do {
         let w = emits [Acquire K_node n] w;
         _ \<leftarrow> xw_surface E (xwayland_surface xws);
         listen_all (Of_Xws a) [L_map, L_unmap] w } }"

definition drop_scene_surface :: "addr \<Rightarrow> world \<Rightarrow> world option" where
  "drop_scene_surface a w = do {
     xws \<leftarrow> xwss w a;
     Some (store_xws a (xws\<lparr>scene_surface := None\<rparr>) (emits (release_opt K_node (scene_surface xws)) w)) }"

definition handle_xws_dissociate :: "addr \<Rightarrow> world \<Rightarrow> world option" where
  "handle_xws_dissociate a w = do {
     _ \<leftarrow> xwss w a;
     w \<leftarrow> unlisten_linked (Of_Xws a) [L_map, L_unmap] w;
     drop_scene_surface a w }"

definition handle_xws_set_title :: "xw_env \<Rightarrow> addr \<Rightarrow> world \<Rightarrow> world option" where
  "handle_xws_set_title E a w = do {
     xws \<leftarrow> xwss w a;
     let new_title = (if xw_strdup_ok E then xw_title E (xwayland_surface xws) else None);
     Some (store_xws a (xws\<lparr>xws_title := new_title\<rparr>) w) }"

definition handle_xws_destroy :: "addr \<Rightarrow> world \<Rightarrow> world option" where
  "handle_xws_destroy a w = do {
     _ \<leftarrow> xwss w a;
     w \<leftarrow> unlisten_all (Of_Xws a) xws_listeners w;
     w \<leftarrow> unlisten_linked (Of_Xws a) [L_map, L_unmap] w;
     w \<leftarrow> drop_scene_surface a w;
     Some (w\<lparr>xwss := (xwss w)(a := None)\<rparr>) }"

section \<open>The bridge\<close>

definition handle_xwayland_ready :: "xw_env \<Rightarrow> world \<Rightarrow> world" where
  "handle_xwayland_ready E w = (case xwayland w of
      None \<Rightarrow> w
    | Some x \<Rightarrow>
        let w = (case xw_display_name E of None \<Rightarrow> w | Some d \<Rightarrow> emits [Setenv ''DISPLAY'' d] w)
        in case seat w of None \<Rightarrow> w | Some s \<Rightarrow> emits [X11 (X11_set_seat x s)] w)"

definition handle_new_xwayland_surface :: "xw_env \<Rightarrow> addr \<Rightarrow> world \<Rightarrow> world option" where
  "handle_new_xwayland_surface E xsurface w = (case xw_calloc E of
      None \<Rightarrow> Some w
    | Some a \<Rightarrow>
        listen_all (Of_Xws a) xws_listeners (store_xws a
          \<lparr>xwayland_surface = xsurface, scene_surface = None,
           xws_title = (if xw_strdup_ok E then xw_title E xsurface else None)\<rparr> w))"

text \<open>
  \<open>wlr_xwayland_destroy\<close> ends every X11 window that is left: the destroy listener of each is
  called, behind the dissociate listener where the window has a surface.
\<close>

definition end_xws :: "xw_env \<Rightarrow> addr \<Rightarrow> world \<Rightarrow> world option" where
  "end_xws E a w = do {
     xws \<leftarrow> xwss w a;
     w \<leftarrow> (if xw_surface E (xwayland_surface xws) \<noteq> None then handle_xws_dissociate a w else Some w);
     handle_xws_destroy a w }"

primrec end_all_xws :: "xw_env \<Rightarrow> addr list \<Rightarrow> world \<Rightarrow> world option" where
  "end_all_xws E [] w = Some w"
| "end_all_xws E (a # as) w = do { w \<leftarrow> end_xws E a w; end_all_xws E as w }"

fun xws_destroy_listener :: "listener \<Rightarrow> ptr" where
  "xws_destroy_listener (Of_Xws a, L_destroy) = Some a"
| "xws_destroy_listener _ = None"

definition zen_xwayland_destroy :: "xw_env \<Rightarrow> cptr \<Rightarrow> world \<Rightarrow> world option" where
  "zen_xwayland_destroy E c w =
     (if c = CNULL then Some w
      else case xwayland w of
             None \<Rightarrow> Some w
           | Some x \<Rightarrow> do {
               w \<leftarrow> unlisten_linked Of_Compositor [L_xwayland_ready, L_new_xwayland_surface] w;
               w \<leftarrow> end_all_xws E (List.map_filter xws_destroy_listener (lregs w)) w;
               Some ((emits [Release K_xwayland x] w)\<lparr>xwayland := None\<rparr>) })"

definition zen_xwayland_init :: "xw_env \<Rightarrow> cptr \<Rightarrow> world \<Rightarrow> (world \<times> int) option" where
  "zen_xwayland_init E c w =
     (if c = CNULL \<or> wl_display w = None \<or> wlr_comp w = None
      then do { w \<leftarrow> zen_xwayland_destroy E c w; Some (w, -1) }
      else let w = w\<lparr>xwayland := xw_create E\<rparr>
           in case xwayland w of
                None \<Rightarrow> do { w \<leftarrow> zen_xwayland_destroy E c w; Some (w, -1) }
              | Some x \<Rightarrow> do {
                  w \<leftarrow> listen_all Of_Compositor [L_xwayland_ready, L_new_xwayland_surface]
                         (emits [Acquire K_xwayland x] w);
                  Some (w, 0) })"

section \<open>Invariant\<close>

text \<open>
  The four listeners of a window are linked while its struct lives, and the two on its
  surface exactly while it has a scene node; nothing else of a window is linked.
\<close>

definition xws_linked :: "ZenXWaylandSurface option \<Rightarrow> lfield \<Rightarrow> bool" where
  "xws_linked x f \<longleftrightarrow> (case x of
      None \<Rightarrow> False
    | Some xws \<Rightarrow> f \<in> set xws_listeners \<or> f \<in> {L_map, L_unmap} \<and> scene_surface xws \<noteq> None)"

definition xws_wf :: "world \<Rightarrow> bool" where
  "xws_wf w \<longleftrightarrow> distinct (lregs w) \<and> finite (dom (xwss w)) \<and>
     (\<forall>a f. (Of_Xws a, f) \<in> set (lregs w) \<longleftrightarrow> xws_linked (xwss w a) f)"

lemma xws_wfD:
  assumes "xws_wf w"
  shows "distinct (lregs w)" "finite (dom (xwss w))"
    "(Of_Xws a, f) \<in> set (lregs w) \<longleftrightarrow> xws_linked (xwss w a) f"
  using assms by (auto simp: xws_wf_def)

lemma xws_wfI:
  assumes "distinct (lregs w)" "finite (dom (xwss w))"
    "\<And>a f. (Of_Xws a, f) \<in> set (lregs w) \<longleftrightarrow> xws_linked (xwss w a) f"
  shows "xws_wf w"
  using assms by (simp add: xws_wf_def)

lemma xws_linked_simps [simp]:
  "\<not> xws_linked None f"
  "xws_linked (Some x) L_map \<longleftrightarrow> scene_surface x \<noteq> None"
  "xws_linked (Some x) L_unmap \<longleftrightarrow> scene_surface x \<noteq> None"
  by (auto simp: xws_linked_def xws_listeners_def)

text \<open>Taking out the listeners that are linked always succeeds.\<close>

lemma unlisten_linked_filter:
  "distinct (lregs w) \<Longrightarrow>
   unlisten_linked ow fs w = Some (w\<lparr>lregs := filter (\<lambda>l. l \<notin> Pair ow ` set fs) (lregs w)\<rparr>)"
proof (induction fs arbitrary: w)
  case (Cons f fs)
  let ?v = "w\<lparr>lregs := filter (\<lambda>l. l \<noteq> (ow, f)) (lregs w)\<rparr>"
  have "(if (ow, f) \<in> set (lregs w) then unlisten (ow, f) w else Some w) = Some ?v"
  proof (cases "(ow, f) \<in> set (lregs w)")
    case True
    with Cons.prems show ?thesis
      by (simp add: unlisten_def distinct_remove1_removeAll removeAll_filter_not_eq eq_commute)
  next
    case False
    then have "filter (\<lambda>l. l \<noteq> (ow, f)) (lregs w) = lregs w" by (auto simp: filter_id_conv)
    with False show ?thesis by simp
  qed
  moreover have "filter (\<lambda>l. l \<notin> Pair ow ` set fs) (filter (\<lambda>l. l \<noteq> (ow, f)) (lregs w)) =
      filter (\<lambda>l. l \<notin> Pair ow ` set (f # fs)) (lregs w)" by (auto intro: filter_cong)
  moreover from Cons.IH [of ?v] Cons.prems have
    "unlisten_linked ow fs ?v = Some (?v\<lparr>lregs := filter (\<lambda>l. l \<notin> Pair ow ` set fs) (lregs ?v)\<rparr>)" by simp
  ultimately show ?case by simp
qed simp

text \<open>The nodes the windows hold.\<close>

definition xws_nodes :: "(addr \<rightharpoonup> ZenXWaylandSurface) \<Rightarrow> (kind \<times> addr) multiset" where
  "xws_nodes h = (\<Sum>a \<in> dom h. opt_object K_node (scene_surface (the (h a))))"

lemma xws_nodes_upd:
  assumes "finite (dom h)"
  shows "xws_nodes (h(a \<mapsto> x)) = opt_object K_node (scene_surface x) + xws_nodes (h(a := None))"
proof -
  have "xws_nodes (h(a \<mapsto> x)) = opt_object K_node (scene_surface x) +
      (\<Sum>b \<in> dom h - {a}. opt_object K_node (scene_surface (the ((h(a \<mapsto> x)) b))))"
    using assms by (simp add: xws_nodes_def sum.insert_remove)
  also have "(\<Sum>b \<in> dom h - {a}. opt_object K_node (scene_surface (the ((h(a \<mapsto> x)) b)))) =
      xws_nodes (h(a := None))" unfolding xws_nodes_def by (intro sum.cong) auto
  finally show ?thesis .
qed

lemma xws_nodes_at:
  assumes "finite (dom h)" "h a = Some x"
  shows "xws_nodes h = opt_object K_node (scene_surface x) + xws_nodes (h(a := None))"
  using xws_nodes_upd [OF assms(1), of a x] assms(2) by (simp add: map_upd_triv)

section \<open>The handlers keep it\<close>

text \<open>Nothing but the windows, the listeners and the trace changes.\<close>

definition xws_frame :: "world \<Rightarrow> world \<Rightarrow> bool" where
  "xws_frame w w' \<longleftrightarrow> w' = w\<lparr>xwss := xwss w', lregs := lregs w', calls := calls w'\<rparr>"

definition xws_kept :: "world \<Rightarrow> world option \<Rightarrow> bool" where
  "xws_kept w x \<longleftrightarrow> (\<exists>w'. x = Some w' \<and> xws_wf w' \<and> xws_frame w w' \<and>
     settles (xws_nodes (xwss w)) w (xws_nodes (xwss w')) w')"

lemma xws_kept_emits:
  assumes "xws_wf w" "accounts {#} cs {#}"
  shows "xws_kept w (Some (emits cs w))"
proof -
  have "settles {#} w {#} (emits cs w)" using assms(2) by (auto simp: settles_def)
  from settles_frame [OF this, of "xws_nodes (xwss w)"] show ?thesis using assms(1)
    by (simp add: xws_kept_def xws_wf_def xws_frame_def emits_def)
qed

lemma xws_kept_refl: "xws_wf w \<Longrightarrow> xws_kept w (Some w)"
  using xws_kept_emits [of w "[]"] by simp

lemma seat_emits [simp]: "seat (emits cs w) = seat w"
  by (simp add: emits_def)

lemma xws_map_kept:
  assumes "xws_wf w" "xwss w a = Some x"
  shows "xws_kept w (handle_xws_map E a w)" "xws_kept w (handle_xws_unmap a w)"
  using assms by (auto simp: handle_xws_map_def handle_xws_unmap_def Let_def split: option.split
      intro!: xws_kept_refl xws_kept_emits accounts_tallyI)

text \<open>Replacing the struct of a live window, with the links it then has.\<close>

lemma xws_wf_store:
  assumes "xws_wf w" "distinct (lregs w')" "xwss w' = (xwss w)(a := x)"
    and "\<And>b f. b \<noteq> a \<Longrightarrow> (Of_Xws b, f) \<in> set (lregs w') \<longleftrightarrow> (Of_Xws b, f) \<in> set (lregs w)"
    and "\<And>f. (Of_Xws a, f) \<in> set (lregs w') \<longleftrightarrow> xws_linked x f"
  shows "xws_wf w'"
proof (rule xws_wfI)
  show "finite (dom (xwss w'))" using xws_wfD(2) [OF assms(1)] by (simp add: assms(3))
  show "(Of_Xws b, f) \<in> set (lregs w') \<longleftrightarrow> xws_linked (xwss w' b) f" for b f
    using assms(4,5) xws_wfD(3) [OF assms(1)] by (cases "b = a") (simp_all add: assms(3))
qed (rule assms(2))

lemma xws_title_kept:
  assumes "xws_wf w" "xwss w a = Some x"
  shows "xws_kept w (handle_xws_set_title E a w)"
proof -
  define t where "t = (if xw_strdup_ok E then xw_title E (xwayland_surface x) else None)"
  let ?x = "x\<lparr>xws_title := t\<rparr>"
  have lnk: "xws_linked (Some ?x) f = xws_linked (Some x) f" for f by (simp add: xws_linked_def)
  have "xws_wf (store_xws a ?x w)"
    by (rule xws_wf_store [OF assms(1), of _ a "Some ?x"])
      (use xws_wfD [OF assms(1)] assms(2) in \<open>simp_all add: store_xws_def lnk\<close>)
  moreover have "xws_nodes (xwss (store_xws a ?x w)) = xws_nodes (xwss w)"
    using xws_nodes_at [OF xws_wfD(2) [OF assms(1)] assms(2)] xws_nodes_upd [OF xws_wfD(2) [OF assms(1)], of a ?x]
    by (simp add: store_xws_def)
  ultimately show ?thesis using assms(2)
    by (simp add: handle_xws_set_title_def Let_def xws_kept_def settles_refl xws_frame_def store_xws_def
        flip: t_def)
qed

lemma Pair_Xws: "(Of_Xws b, f) \<in> Pair (Of_Xws a) ` set fs \<longleftrightarrow> b = a \<and> f \<in> set fs"
  by auto

text \<open>A new window.\<close>

lemma xws_new_kept:
  assumes "xws_wf w" "\<And>a. xw_calloc E = Some a \<Longrightarrow> xwss w a = None"
  shows "xws_kept w (handle_new_xwayland_surface E xs w)"
proof (cases "xw_calloc E")
  case None
  with assms(1) show ?thesis by (simp add: handle_new_xwayland_surface_def xws_kept_refl)
next
  case (Some a)
  define x where "x = \<lparr>xwayland_surface = xs, scene_surface = None,
    xws_title = (if xw_strdup_ok E then xw_title E xs else None)\<rparr>"
  let ?w = "w\<lparr>xwss := (xwss w)(a \<mapsto> x), lregs := lregs w @ map (Pair (Of_Xws a)) xws_listeners\<rparr>"
  note wf = xws_wfD [OF assms(1)]
  have fresh: "(Of_Xws a, f) \<notin> set (lregs w)" for f using wf(3) assms(2) [OF Some] by simp
  have "distinct xws_listeners" by (simp add: xws_listeners_def)
  from listen_all_Some [OF this, of "Of_Xws a" "store_xws a x w"] fresh
  have run: "handle_new_xwayland_surface E xs w = Some ?w"
    by (auto simp: handle_new_xwayland_surface_def Some x_def [symmetric] store_xws_def)
  have "distinct (lregs ?w)" using wf(1) fresh by (auto simp: xws_listeners_def)
  then have "xws_wf ?w"
    by (rule xws_wf_store [OF assms(1), of _ a "Some x"])
      (use fresh in \<open>auto simp: xws_linked_def x_def xws_listeners_def\<close>)
  moreover have "xws_nodes (xwss ?w) = xws_nodes (xwss w)"
  proof -
    have "(xwss w)(a := None) = xwss w" using assms(2) [OF Some] by auto
    with xws_nodes_upd [OF wf(2), of a x] show ?thesis by (simp add: x_def)
  qed
  ultimately show ?thesis unfolding run by (simp add: xws_kept_def settles_refl xws_frame_def)
qed

text \<open>The window gets a surface, and with it a scene node.\<close>

lemma xws_associate_kept:
  assumes "xws_wf w" "xwss w a = Some x" "scene_surface x = None" "scene w \<noteq> None"
    "xw_surface E (xwayland_surface x) \<noteq> None"
  shows "xws_kept w (handle_xws_associate E a w)"
proof (cases "xw_scene_surface E")
  case None
  with assms have "handle_xws_associate E a w = Some w"
    by (auto simp: handle_xws_associate_def store_xws_def map_upd_triv)
  with assms(1) show ?thesis by (simp add: xws_kept_refl)
next
  case (Some n)
  let ?x = "x\<lparr>scene_surface := Some n\<rparr>"
  let ?w = "w\<lparr>xwss := (xwss w)(a \<mapsto> ?x), calls := calls w @ [Acquire K_node n],
    lregs := lregs w @ [(Of_Xws a, L_map), (Of_Xws a, L_unmap)]\<rparr>"
  note wf = xws_wfD [OF assms(1)]
  have lnk: "(Of_Xws a, f) \<in> set (lregs w) \<longleftrightarrow> f \<in> set xws_listeners" for f
    using wf(3) assms(2,3) by (simp add: xws_linked_def)
  have off: "(Of_Xws a, L_map) \<notin> set (lregs w)" "(Of_Xws a, L_unmap) \<notin> set (lregs w)"
    unfolding lnk by (simp_all add: xws_listeners_def)
  have run: "handle_xws_associate E a w = Some ?w"
    using assms(2,4,5) off by (auto simp: handle_xws_associate_def Some store_xws_def emits_def listen_def)
  have "xws_wf ?w"
    by (rule xws_wf_store [OF assms(1), of _ a "Some ?x"]) (use wf(1) off lnk in \<open>auto simp: xws_linked_def\<close>)
  moreover have "settles (xws_nodes (xwss w)) w (xws_nodes (xwss ?w)) ?w"
  proof -
    have "settles (xws_nodes (xwss w)) w (add_mset (K_node, n) (xws_nodes (xwss w))) ?w"
      by (rule settles_tally [where cs = "[Acquire K_node n]"]) simp_all
    with xws_nodes_at [OF wf(2) assms(2)] xws_nodes_upd [OF wf(2), of a ?x] assms(3) show ?thesis by simp
  qed
  ultimately show ?thesis unfolding run by (simp add: xws_kept_def xws_frame_def)
qed

text \<open>The surface goes away, and the node with it.\<close>

lemma xws_dissociate_kept:
  assumes "xws_wf w" "xwss w a = Some x"
  shows "xws_kept w (handle_xws_dissociate a w)"
    and "\<And>w'. handle_xws_dissociate a w = Some w' \<Longrightarrow> xwss w' a = Some (x\<lparr>scene_surface := None\<rparr>)"
proof -
  let ?x = "x\<lparr>scene_surface := None\<rparr>"
  let ?w = "w\<lparr>xwss := (xwss w)(a \<mapsto> ?x), calls := calls w @ release_opt K_node (scene_surface x),
    lregs := filter (\<lambda>l. l \<notin> Pair (Of_Xws a) ` set [L_map, L_unmap]) (lregs w)\<rparr>"
  note wf = xws_wfD [OF assms(1)]
  have run: "handle_xws_dissociate a w = Some ?w"
    using assms(2) unlisten_linked_filter [OF wf(1), of "Of_Xws a" "[L_map, L_unmap]"]
    by (simp add: handle_xws_dissociate_def drop_scene_surface_def store_xws_def emits_def del: unlisten_linked.simps)
  have "xws_wf ?w"
    by (rule xws_wf_store [OF assms(1), of _ a "Some ?x"])
      (use wf assms(2) in \<open>auto simp: xws_linked_def xws_listeners_def\<close>)
  moreover have "settles (xws_nodes (xwss w)) w (xws_nodes (xwss ?w)) ?w"
    using accounts_release_opt [of K_node "scene_surface x" "xws_nodes ((xwss w)(a := None))"]
      xws_nodes_at [OF wf(2) assms(2)] xws_nodes_upd [OF wf(2), of a ?x]
    by (auto simp: settles_def)
  ultimately show "xws_kept w (handle_xws_dissociate a w)" unfolding run by (simp add: xws_kept_def xws_frame_def)
  show "\<And>w'. handle_xws_dissociate a w = Some w' \<Longrightarrow> xwss w' a = Some ?x" using run by auto
qed

text \<open>The window goes away.\<close>

lemma xws_destroy_kept:
  assumes "xws_wf w" "xwss w a = Some x"
  shows "xws_kept w (handle_xws_destroy a w)"
    and "\<And>w'. handle_xws_destroy a w = Some w' \<Longrightarrow> xwss w' = (xwss w)(a := None)"
proof -
  note wf = xws_wfD [OF assms(1)]
  let ?L = "fold (\<lambda>f. remove1 (Of_Xws a, f)) xws_listeners (lregs w)"
  let ?w = "w\<lparr>xwss := (xwss w)(a := None), calls := calls w @ release_opt K_node (scene_surface x),
    lregs := filter (\<lambda>l. l \<notin> Pair (Of_Xws a) ` set [L_map, L_unmap]) ?L\<rparr>"
  have L: "set ?L = set (lregs w) - Pair (Of_Xws a) ` set xws_listeners" "distinct ?L"
    by (rule set_fold_remove1 [OF wf(1)], rule distinct_fold_remove1 [OF wf(1)])
  have "unlisten_all (Of_Xws a) xws_listeners w = Some (w\<lparr>lregs := ?L\<rparr>)"
    by (rule unlisten_all_Some) (use wf(3) assms(2) in \<open>auto simp: xws_linked_def xws_listeners_def\<close>)
  then have run: "handle_xws_destroy a w = Some ?w"
    using assms(2) unlisten_linked_filter [of "w\<lparr>lregs := ?L\<rparr>" "Of_Xws a" "[L_map, L_unmap]"] L(2)
    by (simp add: handle_xws_destroy_def drop_scene_surface_def store_xws_def emits_def
        del: unlisten_linked.simps unlisten_all.simps fold_simps)
  have "xws_wf ?w"
    by (rule xws_wf_store [OF assms(1), of _ a None])
      (use wf(3) assms(2) L in \<open>auto simp: xws_linked_def\<close>)
  moreover have "settles (xws_nodes (xwss w)) w (xws_nodes (xwss ?w)) ?w"
    using accounts_release_opt [of K_node "scene_surface x" "xws_nodes ((xwss w)(a := None))"]
      xws_nodes_at [OF wf(2) assms(2)] by (auto simp: settles_def)
  ultimately show "xws_kept w (handle_xws_destroy a w)" unfolding run by (simp add: xws_kept_def xws_frame_def)
  show "\<And>w'. handle_xws_destroy a w = Some w' \<Longrightarrow> xwss w' = (xwss w)(a := None)" using run by auto
qed


section \<open>Runs\<close>

text \<open>
  The events wlroots delivers. A handler runs while its listener is linked; the address of a
  new struct is not in use; a window gets a surface only when it has none.
\<close>

datatype xw_event =
    Ev_new xw_env addr
  | Ev_associate xw_env addr
  | Ev_dissociate addr
  | Ev_map xw_env addr
  | Ev_unmap addr
  | Ev_set_title xw_env addr
  | Ev_destroy addr

fun xw_handle :: "xw_event \<Rightarrow> world \<Rightarrow> world option" where
  "xw_handle (Ev_new E xs) w = handle_new_xwayland_surface E xs w"
| "xw_handle (Ev_associate E a) w = handle_xws_associate E a w"
| "xw_handle (Ev_dissociate a) w = handle_xws_dissociate a w"
| "xw_handle (Ev_map E a) w = handle_xws_map E a w"
| "xw_handle (Ev_unmap a) w = handle_xws_unmap a w"
| "xw_handle (Ev_set_title E a) w = handle_xws_set_title E a w"
| "xw_handle (Ev_destroy a) w = handle_xws_destroy a w"

fun xw_enabled :: "xw_event \<Rightarrow> world \<Rightarrow> bool" where
  "xw_enabled (Ev_new E xs) w \<longleftrightarrow> (case xw_calloc E of None \<Rightarrow> True | Some a \<Rightarrow> xwss w a = None)"
| "xw_enabled (Ev_associate E a) w \<longleftrightarrow> (Of_Xws a, L_associate) \<in> set (lregs w) \<and>
     (Of_Xws a, L_map) \<notin> set (lregs w) \<and> (\<forall>xs. xw_surface E xs \<noteq> None)"
| "xw_enabled (Ev_dissociate a) w \<longleftrightarrow> (Of_Xws a, L_dissociate) \<in> set (lregs w)"
| "xw_enabled (Ev_map E a) w \<longleftrightarrow> (Of_Xws a, L_map) \<in> set (lregs w)"
| "xw_enabled (Ev_unmap a) w \<longleftrightarrow> (Of_Xws a, L_unmap) \<in> set (lregs w)"
| "xw_enabled (Ev_set_title E a) w \<longleftrightarrow> (Of_Xws a, L_set_title) \<in> set (lregs w)"
| "xw_enabled (Ev_destroy a) w \<longleftrightarrow> (Of_Xws a, L_destroy) \<in> set (lregs w)"

inductive xw_step :: "world \<Rightarrow> world \<Rightarrow> bool" where
  "xw_enabled ev w \<Longrightarrow> xw_handle ev w = Some w' \<Longrightarrow> xw_step w w'"

inductive_cases xw_stepE: "xw_step w w'"

lemma linked_alive: "xws_wf w \<Longrightarrow> (Of_Xws a, f) \<in> set (lregs w) \<Longrightarrow> \<exists>x. xwss w a = Some x"
  by (simp add: xws_wfD(3) xws_linked_def split: option.splits)

lemma xw_handle_kept:
  assumes "xws_wf w" "scene w \<noteq> None" "xw_enabled ev w"
  shows "xws_kept w (xw_handle ev w)"
proof (cases ev)
  case (Ev_new E xs)
  with assms(3) have "xwss w a = None" if "xw_calloc E = Some a" for a using that by simp
  from xws_new_kept [OF assms(1) this] show ?thesis by (simp add: Ev_new)
next
  case (Ev_associate E a)
  with assms have lnk: "(Of_Xws a, L_associate) \<in> set (lregs w)" "(Of_Xws a, L_map) \<notin> set (lregs w)"
    and s: "\<And>xs. xw_surface E xs \<noteq> None" by auto
  from linked_alive [OF assms(1) lnk(1)] obtain x where x: "xwss w a = Some x" by blast
  with lnk(2) have "scene_surface x = None" by (simp add: xws_wfD(3) [OF assms(1)])
  from xws_associate_kept [OF assms(1) x this assms(2) s] show ?thesis by (simp add: Ev_associate)
next
  case (Ev_dissociate a)
  with assms linked_alive [OF assms(1)] show ?thesis by (auto intro: xws_dissociate_kept(1))
next
  case (Ev_map E a)
  with assms linked_alive [OF assms(1)] show ?thesis by (auto intro: xws_map_kept)
next
  case (Ev_unmap a)
  with assms linked_alive [OF assms(1)] show ?thesis by (auto intro: xws_map_kept)
next
  case (Ev_set_title E a)
  with assms linked_alive [OF assms(1)] show ?thesis by (auto intro: xws_title_kept)
next
  case (Ev_destroy a)
  with assms linked_alive [OF assms(1)] show ?thesis by (auto intro: xws_destroy_kept(1))
qed

lemma xws_frame_scene: "xws_frame w w' \<Longrightarrow> scene w' = scene w"
proof -
  assume "xws_frame w w'"
  then have "\<exists>h r c. w' = w\<lparr>xwss := h, lregs := r, calls := c\<rparr>" unfolding xws_frame_def by blast
  then show ?thesis by auto
qed

lemma xw_steps_kept:
  assumes "xw_step\<^sup>*\<^sup>* w w'" "xws_wf w" "scene w \<noteq> None"
  shows "xws_wf w' \<and> scene w' \<noteq> None \<and> settles (xws_nodes (xwss w)) w (xws_nodes (xwss w')) w'"
  using assms(1)
proof (induction rule: rtranclp_induct)
  case base
  show ?case using assms(2,3) by (simp add: settles_refl)
next
  case (step u v)
  from step(2) obtain ev where ev: "xw_enabled ev u" "xw_handle ev u = Some v" by (rule xw_stepE)
  with xw_handle_kept [of u ev] step(3) have "xws_wf v" "xws_frame u v"
    "settles (xws_nodes (xwss u)) u (xws_nodes (xwss v)) v" by (auto simp: xws_kept_def)
  with step(3) show ?case using settles_trans xws_frame_scene by metis
qed

text \<open>
  C19. X11 windows are managed without faults and without leaks: after any sequence of window
  events, the next event finds the struct it needs allocated and its listeners as they should
  be, and exactly the scene nodes of the windows that have a surface are held.
\<close>

theorem xwayland_never_faults:
  assumes "xws_wf w" "scene w \<noteq> None" "xw_step\<^sup>*\<^sup>* w u" "xw_enabled ev u"
  shows "\<exists>v. xw_handle ev u = Some v \<and> xws_wf v \<and> settles (xws_nodes (xwss w)) w (xws_nodes (xwss v)) v"
proof -
  from xw_steps_kept [OF assms(3,1,2)] have u: "xws_wf u" "scene u \<noteq> None"
    "settles (xws_nodes (xwss w)) w (xws_nodes (xwss u)) u" by auto
  from xw_handle_kept [OF u(1,2) assms(4)] settles_trans [OF u(3)] show ?thesis
    by (auto simp: xws_kept_def)
qed

section \<open>Ending the bridge\<close>

lemma end_xws_kept:
  assumes "xws_wf w" "xwss w a = Some x"
  shows "\<exists>w'. end_xws E a w = Some w' \<and> xws_wf w' \<and> xwss w' = (xwss w)(a := None) \<and>
    settles (xws_nodes (xwss w)) w (xws_nodes (xwss w')) w'"
proof (cases "xw_surface E (xwayland_surface x) = None")
  case True
  with assms xws_destroy_kept [OF assms] show ?thesis by (auto simp: end_xws_def xws_kept_def)
next
  case False
  from xws_dissociate_kept [OF assms] obtain v where v: "handle_xws_dissociate a w = Some v" "xws_wf v"
    "settles (xws_nodes (xwss w)) w (xws_nodes (xwss v)) v" "xwss v a = Some (x\<lparr>scene_surface := None\<rparr>)"
    by (auto simp: xws_kept_def)
  have "xwss v = (xwss w)(a \<mapsto> x\<lparr>scene_surface := None\<rparr>)"
    using v(1) assms xws_wfD(1) [OF assms(1)] unlisten_linked_filter [of w "Of_Xws a" "[L_map, L_unmap]"]
    by (auto simp: handle_xws_dissociate_def drop_scene_surface_def store_xws_def emits_def
        simp del: unlisten_linked.simps)
  with v False assms(2) xws_destroy_kept [OF v(2,4)] settles_trans [OF v(3)] show ?thesis
    by (auto simp: end_xws_def xws_kept_def)
qed

lemma end_all_xws_kept:
  "xws_wf w \<Longrightarrow> distinct as \<Longrightarrow> set as = dom (xwss w) \<Longrightarrow>
   \<exists>w'. end_all_xws E as w = Some w' \<and> xws_wf w' \<and> xwss w' = Map.empty \<and>
     settles (xws_nodes (xwss w)) w {#} w'"
proof (induction as arbitrary: w)
  case Nil
  then show ?case by (auto simp: xws_nodes_def settles_refl)
next
  case (Cons a as)
  then obtain x where "xwss w a = Some x" by auto
  from end_xws_kept [OF Cons.prems(1) this, of E] obtain v where v: "end_xws E a w = Some v" "xws_wf v"
    "xwss v = (xwss w)(a := None)" "settles (xws_nodes (xwss w)) w (xws_nodes (xwss v)) v" by blast
  from v(3) Cons.prems(2,3) have "set as = dom (xwss v)" by auto
  with Cons.IH [OF v(2)] Cons.prems(2) v(1,4) settles_trans show ?case by fastforce
qed

lemma xws_destroy_listener_iff: "xws_destroy_listener l = Some a \<longleftrightarrow> l = (Of_Xws a, L_destroy)"
  by (cases l rule: xws_destroy_listener.cases) auto

lemma destroy_listeners:
  assumes "distinct ls"
  shows "distinct (List.map_filter xws_destroy_listener ls)"
    and "set (List.map_filter xws_destroy_listener ls) = {a. (Of_Xws a, L_destroy) \<in> set ls}"
  using assms by (induction ls) (auto simp: map_filter_simps xws_destroy_listener_iff split: option.split)

text \<open>
  Destroying the bridge ends every X11 window that is left: no struct, no listener of a
  window and no listener of the bridge remains, the nodes of all windows and the bridge itself
  are given back, each exactly once.
\<close>

theorem xwayland_destroy_complete:
  assumes "xws_wf w" "xwayland w = Some x"
  shows "\<exists>w'. zen_xwayland_destroy E CPTR w = Some w' \<and> xwayland w' = None \<and> xwss w' = Map.empty \<and>
    (\<forall>a f. (Of_Xws a, f) \<notin> set (lregs w')) \<and>
    settles (add_mset (K_xwayland, x) (xws_nodes (xwss w))) w {#} w'"
proof -
  let ?w = "w\<lparr>lregs := filter (\<lambda>l. l \<notin> Pair Of_Compositor ` set [L_xwayland_ready, L_new_xwayland_surface]) (lregs w)\<rparr>"
  let ?as = "List.map_filter xws_destroy_listener (lregs ?w)"
  note wf = xws_wfD [OF assms(1)]
  have un: "unlisten_linked Of_Compositor [L_xwayland_ready, L_new_xwayland_surface] w = Some ?w"
    by (rule unlisten_linked_filter [OF wf(1)])
  have w: "xws_wf ?w" by (rule xws_wfI) (use wf in auto)
  have "(Of_Xws a, L_destroy) \<in> set (lregs ?w) \<longleftrightarrow> a \<in> dom (xwss ?w)" for a
    using xws_wfD(3) [OF w, of a L_destroy] by (auto simp: xws_linked_def xws_listeners_def split: option.splits)
  then have "distinct ?as" "set ?as = dom (xwss ?w)" using destroy_listeners [OF xws_wfD(1) [OF w]] by auto
  from end_all_xws_kept [OF w this, of E] obtain v where v: "end_all_xws E ?as ?w = Some v" "xws_wf v"
    "xwss v = Map.empty" "settles (xws_nodes (xwss ?w)) ?w {#} v" by blast
  let ?v = "(emits [Release K_xwayland x] v)\<lparr>xwayland := None\<rparr>"
  have "settles (add_mset (K_xwayland, x) (xws_nodes (xwss w))) w {#(K_xwayland, x)#} v"
    using settles_frame_left [OF v(4), of "{#(K_xwayland, x)#}"] by (simp add: settles_def)
  moreover have "settles {#(K_xwayland, x)#} v {#} ?v" by (rule settles_tally [where cs = "[Release K_xwayland x]"]) simp_all
  ultimately have "settles (add_mset (K_xwayland, x) (xws_nodes (xwss w))) w {#} ?v" by (rule settles_trans)
  moreover have "zen_xwayland_destroy E CPTR w = Some ?v"
    using v(1) assms(2) un by (simp add: zen_xwayland_destroy_def del: unlisten_linked.simps)
  moreover have "(Of_Xws a, f) \<notin> set (lregs ?v)" for a f
    using xws_wfD(3) [OF v(2), of a f] v(3) by (simp add: emits_def)
  moreover have "xwss ?v = Map.empty" using v(3) by (simp add: emits_def)
  ultimately show ?thesis by simp
qed


section \<open>X11 windows and the focus\<close>

text \<open>
  An X11 window takes the keyboard away for good: \<open>handle_xws_unmap\<close> clears the keyboard
  focus without asking whether the window had it, and the compositor goes on holding a
  Wayland window as focused. Focusing that window again, which is what a click on it does,
  changes nothing and sends no \<open>keyboard_enter\<close>, so it stays without keyboard.
\<close>

theorem x11_unmap_loses_keyboard:
  assumes "xwss w a = Some x" "seat w = Some s" "focused_toplevel w = Some t"
  shows "\<exists>w' cs. handle_xws_unmap a w = Some w' \<and> calls w' = calls w @ cs \<and>
    last cs = Keyboard Keyboard_clear_focus \<and> focused_toplevel w' = Some t \<and>
    zen_xdg_focus_toplevel E CPTR (Some t) w' = Some w'"
  using assms by (auto simp: handle_xws_unmap_def Let_def zen_xdg_focus_toplevel_def emits_def split: option.split)

text \<open>
  A click on an X11 window faults: its scene node carries the address of its struct, the
  hit test takes that address for a toplevel, and the focus code reads it as one, although no
  toplevel lives there.
\<close>

theorem x11_click_faults:
  assumes "xwss w a = Some x" "tops w a = None" "toplevel_at_scene_node (i_node_path E) = Some a"
    and "focused_toplevel w \<noteq> Some a"
  shows "handle_cursor_button E time_msec button True w = None"
proof -
  have "zen_xdg_focus_toplevel (i_xdg E) CPTR (Some a) w = None"
  proof (cases "deactivate_prev w")
    case (Some v)
    then have "tops v = tops w" by (auto simp: deactivate_prev_def emits_def bind_eq_Some_conv split: option.splits)
    with Some assms(2,4) show ?thesis by (simp add: zen_xdg_focus_toplevel_def)
  qed (use assms(4) in \<open>simp add: zen_xdg_focus_toplevel_def\<close>)
  with assms(3) show ?thesis by (simp add: handle_cursor_button_def bind_eq_None_conv)
qed

section \<open>Witnesses\<close>

definition demo_xw :: xw_env where
  "demo_xw = \<lparr>xw_create = Some 90, xw_display_name = Some '':0'', xw_calloc = Some 91, xw_strdup_ok = True,
     xw_scene_surface = Some 92, xw_surface = (\<lambda>_. Some 93), xw_title = (\<lambda>_. Some ''xterm''), xw_keyboard = True\<rparr>"

definition demo_bridge :: world where
  "demo_bridge = zero_world\<lparr>scene := Some 40, xwayland := Some 90, seat := Some 41\<rparr>"

definition demo_x11 :: world where
  "demo_x11 = demo_bridge\<lparr>
     xwss := [91 \<mapsto> \<lparr>xwayland_surface = 95, scene_surface = None, xws_title = Some ''xterm''\<rparr>],
     lregs := map (Pair (Of_Xws 91)) xws_listeners\<rparr>"

lemma demo_bridge_wf: "xws_wf demo_bridge"
  by (simp add: xws_wf_def demo_bridge_def zero_world_def)

lemma demo_x11_new: "xw_handle (Ev_new demo_xw 95) demo_bridge = Some demo_x11"
  by (simp add: handle_new_xwayland_surface_def demo_xw_def store_xws_def xws_listeners_def listen_def
      demo_bridge_def demo_x11_def zero_world_def)

lemma demo_x11_step: "xw_step demo_bridge demo_x11"
  by (rule xw_step.intros [OF _ demo_x11_new]) (simp add: demo_xw_def demo_bridge_def zero_world_def)

lemma demo_x11_steps: "xw_step\<^sup>*\<^sup>* demo_bridge demo_x11"
  using demo_x11_step by (rule r_into_rtranclp)

lemma demo_x11_wf: "xws_wf demo_x11"
  using xw_steps_kept [OF demo_x11_steps demo_bridge_wf] by (simp add: demo_bridge_def)

theorem xwayland_never_faults_witness:
  "\<exists>v. xw_handle (Ev_associate demo_xw 91) demo_x11 = Some v \<and> xws_wf v"
proof -
  have "scene demo_bridge \<noteq> None" by (simp add: demo_bridge_def)
  moreover have "xw_enabled (Ev_associate demo_xw 91) demo_x11"
    by (simp add: demo_x11_def xws_listeners_def demo_xw_def)
  ultimately show ?thesis
    using xwayland_never_faults [OF demo_bridge_wf _ demo_x11_steps] by blast
qed

theorem xwayland_destroy_complete_witness:
  "\<exists>w'. zen_xwayland_destroy demo_xw CPTR demo_x11 = Some w' \<and> xwss w' = Map.empty \<and>
     settles {#(K_xwayland, 90)#} demo_x11 {#} w'"
proof -
  have "xwayland demo_x11 = Some 90" by (simp add: demo_x11_def demo_bridge_def)
  from xwayland_destroy_complete [OF demo_x11_wf this, of demo_xw] show ?thesis
    by (auto simp: demo_x11_def xws_nodes_def)
qed

theorem x11_unmap_loses_keyboard_witness:
  "\<exists>w' cs. handle_xws_unmap 91 (demo_x11\<lparr>focused_toplevel := Some 7\<rparr>) = Some w' \<and>
     calls w' = calls demo_x11 @ cs \<and> last cs = Keyboard Keyboard_clear_focus"
proof -
  let ?w = "demo_x11\<lparr>focused_toplevel := Some 7\<rparr>"
  have "xwss ?w 91 = Some \<lparr>xwayland_surface = 95, scene_surface = None, xws_title = Some ''xterm''\<rparr>"
    "seat ?w = Some 41" "focused_toplevel ?w = Some 7" by (simp_all add: demo_x11_def demo_bridge_def)
  from x11_unmap_loses_keyboard [OF this, of demo_xdg] show ?thesis by auto
qed

theorem x11_click_faults_witness:
  "handle_cursor_button (demo_in\<lparr>i_node_path := [None, Some 91]\<rparr>) 1 272 True demo_x11 = None"
  by (rule x11_click_faults [of _ 91]) (simp_all add: demo_x11_def demo_bridge_def zero_world_def
      toplevel_at_scene_node_def)

end
