(* ===== verification/Zen_Main.thy ===== *)
theory Zen_Main
  imports Zen_Wallpaper Zen_Dbus Zen_Layer Zen_Xwayland Zen_Lock_Runs
begin

text \<open>
  The compositor's lifecycle of \<open>src/compositor/src/main.c\<close>: outputs with their frame loop,
  creation in nineteen steps with one cleanup path, the run, and destruction. The modules are
  those of the other theories, called in the order the code calls them.
\<close>

section \<open>What the lifecycle asks of the outside\<close>

record out_env =
  o_mode :: ptr                  \<comment> \<open>\<open>wlr_output_preferred_mode\<close>\<close>
  o_calloc :: ptr
  o_scene_output :: ptr          \<comment> \<open>\<open>wlr_scene_output_create\<close>\<close>
  o_wallpaper :: wo_env          \<comment> \<open>with the size of the output\<close>
  o_overlay :: ptr               \<comment> \<open>\<open>calloc\<close> of the overlay's buffer\<close>
  o_cairo :: cairo_env
  o_text_size :: "int \<times> int"     \<comment> \<open>\<open>pango_layout_get_pixel_size\<close>\<close>

text \<open>What \<open>wlr_backend_start\<close> may signal before it returns.\<close>

datatype announced = New_output out_env addr | New_input in_env device_type addr

record comp_env =
  c_display :: ptr
  c_backend :: ptr
  c_renderer :: ptr
  c_wlr_comp :: ptr
  c_allocator :: ptr
  c_scene :: ptr
  c_output_layout :: ptr
  c_scene_layout :: ptr
  c_background :: ptr
  c_announced :: "announced list"
  c_start_ok :: bool
  c_xdg :: xdg_env
  c_input :: in_env
  c_overlay_tree :: ptr
  c_wallpaper :: wp_env
  c_keybinds :: kb_env
  c_layer :: layer_env
  c_dbus :: dbus_init_env
  c_lock :: lock_env
  c_shell :: ptr
  c_socket :: cstring            \<comment> \<open>\<open>wl_display_add_socket_auto\<close>\<close>
  c_serial_ok :: bool            \<comment> \<open>\<open>fopen\<close> of the serial port\<close>
  c_mapped :: "addr \<Rightarrow> bool"     \<comment> \<open>the windows of clients that are mapped at the end\<close>

section \<open>Outputs\<close>

definition ZEN_CLEAR_COLOR :: "rat list" where
  "ZEN_CLEAR_COLOR = [427819 / 4194304, 427819 / 4194304, 3019899 / 16777216, 1]"

definition output_listeners :: "lfield list" where
  "output_listeners = [L_frame, L_request_state, L_destroy]"

definition output_handle_frame :: "addr \<Rightarrow> world \<Rightarrow> world option" where
  "output_handle_frame a w = do {
     output \<leftarrow> zouts w a;
     so \<leftarrow> scene_output output;
     Some (emits [Output (Scene_commit (Some so)), Output (Send_frame_done (Some so))] w) }"

definition output_handle_request_state :: "addr \<Rightarrow> world \<Rightarrow> world option" where
  "output_handle_request_state a w = do {
     output \<leftarrow> zouts w a;
     Some (emits [Output (Commit_requested (wlr_output output))] w) }"

definition output_handle_destroy :: "addr \<Rightarrow> world \<Rightarrow> world option" where
  "output_handle_destroy a w = do {
     _ \<leftarrow> zouts w a;
     w \<leftarrow> unlisten_all (Of_Output a) output_listeners w;
     Some (w\<lparr>zouts := (zouts w)(a := None)\<rparr>) }"

text \<open>The drawing on the overlay strip.\<close>

definition overlay_drawing :: "int \<Rightarrow> int \<Rightarrow> int \<times> int \<Rightarrow> draw list" where
  "overlay_drawing overlay_w overlay_h tsize =
     (let x = c_div (overlay_w - fst tsize) 2;
          y = c_div (overlay_h - snd tsize) 2
      in [Set_source_rgba 0 0 0 0, Cairo_paint, Set_font ''Sans Bold 18'', Set_text ''Zen OS'',
          Set_source_rgba 0 0 0 (1/2), Move_to (x + 1) (y + 1), Show_layout,
          Set_source_rgba 1 1 1 (9/10), Move_to x y, Show_layout])"

definition create_test_overlay :: "out_env \<Rightarrow> world \<Rightarrow> world option" where
  "create_test_overlay Q w =
     (let ow = ro_width (o_wallpaper Q); oh = ro_height (o_wallpaper Q)
      in if ow > 0 \<and> oh > 0 then
           case o_overlay Q of
             None \<Rightarrow> Some (w\<lparr>test_overlay := None\<rparr>)
           | Some a \<Rightarrow> do {
               let w = w\<lparr>test_overlay := Some a, bufs := (bufs w)(a \<mapsto> empty_cairo_buffer)\<rparr>;
               (w, ret) \<leftarrow> zen_cairo_buffer_create (o_cairo Q) (Some a) (shell_overlay_tree w) ow 48 w;
               if ret = 0 then do {
                 b \<leftarrow> bufs w a;
                 _ \<leftarrow> cr b;
                 layout \<leftarrow> zen_cairo_buffer_get_pango (Some a) w;
                 _ \<leftarrow> layout;
                 let w = emits (map Draw (overlay_drawing ow 48 (o_text_size Q))) w;
                 (w, _) \<leftarrow> zen_cairo_buffer_submit (Some a) w;
                 b \<leftarrow> bufs w a;
                 n \<leftarrow> scene_buffer b;
                 Some (emits [Node (Set_position n 0 (oh - 48))] w) }
               else Some (w\<lparr>bufs := (bufs w)(a := None), test_overlay := None\<rparr>) }
         else Some w)"

definition handle_new_output :: "out_env \<Rightarrow> addr \<Rightarrow> world \<Rightarrow> world option" where
  "handle_new_output Q wlr_out w = do {
     _ \<leftarrow> allocator w;
     _ \<leftarrow> renderer w;
     let w = emits [Output (Init_render wlr_out), Output (Commit_mode wlr_out (o_mode Q) 1)] w;
     case o_calloc Q of
       None \<Rightarrow> Some w
     | Some a \<Rightarrow> do {
         let w = w\<lparr>zouts := (zouts w)(a \<mapsto> \<lparr>wlr_output = wlr_out, scene_output = None\<rparr>)\<rparr>;
         w \<leftarrow> listen_all (Of_Output a) output_listeners w;
         _ \<leftarrow> output_layout w;
         _ \<leftarrow> scene w;
         _ \<leftarrow> scene_layout w;
         so \<leftarrow> o_scene_output Q;
         let w = w\<lparr>zouts := (zouts w)(a \<mapsto> \<lparr>wlr_output = wlr_out, scene_output = Some so\<rparr>)\<rparr>;
         let w = emits [Output (Layout_add_auto wlr_out), Output (Scene_layout_add wlr_out (Some so))] w;
         w \<leftarrow> (if wallpaper_tree w \<noteq> None
               then do { (w, _) \<leftarrow> zen_wallpaper_render_output (o_wallpaper Q) a w; Some w }
               else Some w);
         if test_overlay w = None \<and> shell_overlay_tree w \<noteq> None then create_test_overlay Q w
         else Some w } }"

section \<open>Boot signal\<close>

definition emit_boot_signal :: "bool \<Rightarrow> cstring \<Rightarrow> world \<Rightarrow> world" where
  "emit_boot_signal serial_ok wayland_socket w =
     (if serial_ok
      then emits [Serial ((case wayland_socket of None \<Rightarrow> []
             | Some s \<Rightarrow> [''ZEN_WAYLAND_SOCKET='' @ s]) @ [''ZEN_BOOT_OK''])] w
      else w)"

section \<open>Starting the backend\<close>

text \<open>A signal reaches the compositor only when its listener is linked.\<close>

primrec backend_start :: "announced list \<Rightarrow> world \<Rightarrow> world option" where
  "backend_start [] w = Some w"
| "backend_start (n # ns) w = do {
     w \<leftarrow> (case n of
             New_output Q a \<Rightarrow>
               if (Of_Compositor, L_new_output) \<in> set (lregs w) then handle_new_output Q a w else Some w
           | New_input I ty d \<Rightarrow>
               if (Of_Compositor, L_new_input) \<in> set (lregs w) then handle_new_input I ty d w else Some w);
     backend_start ns w }"

section \<open>The desktop shell\<close>

text \<open>The shell of \<open>src/shell/src/shell.c\<close> is a stub.\<close>

definition zen_shell_init :: "world \<Rightarrow> world \<times> int" where
  "zen_shell_init w = (w, 0)"

definition zen_shell_destroy :: "world \<Rightarrow> world" where
  "zen_shell_destroy w = w"

section \<open>Destruction\<close>

fun toplevel_destroy_listener :: "listener \<Rightarrow> ptr" where
  "toplevel_destroy_listener (Of_Toplevel a, L_destroy) = Some a"
| "toplevel_destroy_listener _ = None"

fun output_destroy_listener :: "listener \<Rightarrow> ptr" where
  "output_destroy_listener (Of_Output a, L_destroy) = Some a"
| "output_destroy_listener _ = None"

text \<open>
  \<open>wl_display_destroy_clients\<close> ends every client: a window that is mapped is unmapped, then
  destroyed, and the listeners of both are called.
\<close>

primrec end_windows :: "comp_env \<Rightarrow> addr list \<Rightarrow> world \<Rightarrow> world option" where
  "end_windows E [] w = Some w"
| "end_windows E (a # as) w = do {
     w \<leftarrow> (if c_mapped E a then handle_toplevel_unmap (c_xdg E) a w else Some w);
     w \<leftarrow> handle_toplevel_destroy (c_xdg E) a w;
     end_windows E as w }"

definition wl_display_destroy_clients :: "comp_env \<Rightarrow> world \<Rightarrow> world option" where
  "wl_display_destroy_clients E w = end_windows E (List.map_filter toplevel_destroy_listener (lregs w)) w"

text \<open>\<open>wlr_backend_destroy\<close> ends every output; the destroy listener of each is called.\<close>

primrec end_outputs :: "addr list \<Rightarrow> world \<Rightarrow> world option" where
  "end_outputs [] w = Some w"
| "end_outputs (a # as) w = do { w \<leftarrow> output_handle_destroy a w; end_outputs as w }"

definition destroy_overlay :: "world \<Rightarrow> world option" where
  "destroy_overlay w = (case test_overlay w of
      None \<Rightarrow> Some w
    | Some a \<Rightarrow> do {
        w \<leftarrow> zen_cairo_buffer_destroy (Some a) w;
        Some (w\<lparr>bufs := (bufs w)(a := None), test_overlay := None\<rparr>) })"

definition destroy_modules :: "comp_env \<Rightarrow> world \<Rightarrow> world option" where
  "destroy_modules E w = do {
     w \<leftarrow> destroy_overlay w;
     let w = (case shell w of None \<Rightarrow> w | Some _ \<Rightarrow> (zen_shell_destroy w)\<lparr>shell := None\<rparr>);
     w \<leftarrow> zen_lock_destroy (have_systemd (c_lock E)) CPTR w;
     let w = zen_dbus_destroy CPTR w;
     w \<leftarrow> zen_layer_destroy CPTR w;
     let w = zen_keybinds_destroy CPTR w;
     let w = zen_wallpaper_destroy w;
     w \<leftarrow> zen_input_destroy CPTR w;
     zen_xdg_destroy CPTR w }"

text \<open>Destroying the root of the scene destroys the trees below it.\<close>

definition destroy_core :: "comp_env \<Rightarrow> world \<Rightarrow> world option" where
  "destroy_core E w = do {
     w \<leftarrow> (if wl_display w \<noteq> None then wl_display_destroy_clients E w else Some w);
     let w = (case scene w of
                None \<Rightarrow> w
              | Some s \<Rightarrow> (emits (Release K_scene s # release_opt K_node (shell_overlay_tree w) @
                  release_opt K_node (wallpaper_tree w)) w)\<lparr>scene := None\<rparr>);
     let w = (emits (release_opt K_allocator (allocator w)) w)\<lparr>allocator := None\<rparr>;
     let w = (emits (release_opt K_renderer (renderer w)) w)\<lparr>renderer := None\<rparr>;
     w \<leftarrow> (case backend w of
             None \<Rightarrow> Some w
           | Some b \<Rightarrow> do {
               w \<leftarrow> end_outputs (List.map_filter output_destroy_listener (lregs w)) w;
               Some ((emits [Release K_backend b] w)\<lparr>backend := None\<rparr>) });
     Some ((emits (release_opt K_display (wl_display w)) w)\<lparr>wl_display := None\<rparr>) }"

definition zen_compositor_destroy :: "comp_env \<Rightarrow> cptr \<Rightarrow> world \<Rightarrow> world option" where
  "zen_compositor_destroy E c w =
     (if c = CNULL then Some w
      else do { w \<leftarrow> destroy_modules E w; destroy_core E w })"

section \<open>Creation\<close>

definition memset_compositor :: "world \<Rightarrow> world" where
  "memset_compositor w =
     (ZenCompositor.extend (ZenCompositor.truncate zero_world) (ZenCompositor.more w))\<lparr>shell := None\<rparr>"

text \<open>
  Steps 1 to 10: the core objects, the listener for outputs and the start of the backend.
  The second component of the result is whether to go on; if not, control goes to \<open>cleanup\<close>.
\<close>

definition create_core :: "comp_env \<Rightarrow> world \<Rightarrow> (world \<times> bool) option" where
  "create_core E w =
     (case c_display E of None \<Rightarrow> Some (w, False) | Some d \<Rightarrow>
      let w = (emits [Acquire K_display d] w)\<lparr>wl_display := Some d\<rparr> in
      case c_backend E of None \<Rightarrow> Some (w, False) | Some b \<Rightarrow>
      let w = (emits [Acquire K_backend b] w)\<lparr>backend := Some b\<rparr> in
      case c_renderer E of None \<Rightarrow> Some (w, False) | Some r \<Rightarrow>
      let w = (emits [Acquire K_renderer r] w)\<lparr>renderer := Some r\<rparr> in
      case c_wlr_comp E of None \<Rightarrow> Some (w, False) | Some wc \<Rightarrow>
      let w = w\<lparr>wlr_comp := Some wc\<rparr> in
      case c_allocator E of None \<Rightarrow> Some (w, False) | Some al \<Rightarrow>
      let w = (emits [Acquire K_allocator al] w)\<lparr>allocator := Some al\<rparr> in
      case c_scene E of None \<Rightarrow> Some (w, False) | Some sc \<Rightarrow>
      let w = (emits [Acquire K_scene sc] w)\<lparr>scene := Some sc\<rparr> in
      case c_output_layout E of None \<Rightarrow> Some (w, False) | Some ol \<Rightarrow>
      let w = w\<lparr>output_layout := Some ol\<rparr> in
      case c_scene_layout E of None \<Rightarrow> Some (w, False) | Some sl \<Rightarrow>
      let w = w\<lparr>scene_layout := Some sl\<rparr> in
      let w = (case c_background E of None \<Rightarrow> w | Some bg \<Rightarrow> emits [Node (Rect_set_size bg 8192 8192)] w) in
      do {
        w \<leftarrow> listen (Of_Compositor, L_new_output) w;
        w \<leftarrow> backend_start (c_announced E) w;
        Some (w, c_start_ok E) })"

text \<open>
  Steps 11 to 19: the modules, one after the other until one fails. Only the failure of D-Bus
  is not fatal.
\<close>

definition stage_xdg :: "comp_env \<Rightarrow> world \<Rightarrow> (world \<times> bool) option" where
  "stage_xdg E w = do { (w, rc) \<leftarrow> zen_xdg_init (c_xdg E) CPTR w; Some (w, rc = 0) }"

definition stage_input :: "comp_env \<Rightarrow> world \<Rightarrow> (world \<times> bool) option" where
  "stage_input E w = do { (w, rc) \<leftarrow> zen_input_init (c_input E) CPTR w; Some (w, rc = 0) }"

definition stage_overlay :: "comp_env \<Rightarrow> world \<Rightarrow> (world \<times> bool) option" where
  "stage_overlay E w = do {
     _ \<leftarrow> scene w;
     let w = w\<lparr>shell_overlay_tree := c_overlay_tree E\<rparr>;
     Some (case c_overlay_tree E of
             None \<Rightarrow> (w, False)
           | Some ot \<Rightarrow> (emits [Acquire K_node ot] w, True)) }"

definition stage_wallpaper :: "comp_env \<Rightarrow> world \<Rightarrow> (world \<times> bool) option" where
  "stage_wallpaper E w = do { (w, rc) \<leftarrow> zen_wallpaper_init (c_wallpaper E) w; Some (w, rc = 0) }"

definition stage_keybinds :: "comp_env \<Rightarrow> world \<Rightarrow> (world \<times> bool) option" where
  "stage_keybinds E w = do { (w, rc) \<leftarrow> zen_keybinds_init (c_keybinds E) CPTR w; Some (w, rc = 0) }"

definition stage_layer :: "comp_env \<Rightarrow> world \<Rightarrow> (world \<times> bool) option" where
  "stage_layer E w = do { (w, rc) \<leftarrow> zen_layer_init (c_layer E) CPTR w; Some (w, rc = 0) }"

definition stage_dbus :: "comp_env \<Rightarrow> world \<Rightarrow> (world \<times> bool) option" where
  "stage_dbus E w = do { (w, _) \<leftarrow> zen_dbus_init (c_dbus E) w; Some (w, True) }"

definition stage_lock :: "comp_env \<Rightarrow> world \<Rightarrow> (world \<times> bool) option" where
  "stage_lock E w = do { (w, rc) \<leftarrow> zen_lock_init (c_lock E) CPTR w; Some (w, rc = 0) }"

definition stage_shell :: "comp_env \<Rightarrow> world \<Rightarrow> (world \<times> bool) option" where
  "stage_shell E w =
     (let w = w\<lparr>shell := c_shell E\<rparr>
      in if c_shell E = None then Some (w, False)
         else case zen_shell_init w of (w, rc) \<Rightarrow> Some (w, rc = 0))"

primrec run_stages :: "(world \<Rightarrow> (world \<times> bool) option) list \<Rightarrow> world \<Rightarrow> (world \<times> bool) option" where
  "run_stages [] w = Some (w, True)"
| "run_stages (s # ss) w = do { (w, ok) \<leftarrow> s w; if ok then run_stages ss w else Some (w, False) }"

definition create_modules :: "comp_env \<Rightarrow> world \<Rightarrow> (world \<times> bool) option" where
  "create_modules E = run_stages [stage_xdg E, stage_input E, stage_overlay E, stage_wallpaper E,
     stage_keybinds E, stage_layer E, stage_dbus E, stage_lock E, stage_shell E]"

definition zen_compositor_create :: "comp_env \<Rightarrow> world \<Rightarrow> (world \<times> int) option" where
  "zen_compositor_create E w = do {
     let w = (memset_compositor w)\<lparr>clear_color := ZEN_CLEAR_COLOR\<rparr>;
     (w, ok) \<leftarrow> create_core E w;
     (w, ok) \<leftarrow> (if ok then create_modules E w else Some (w, False));
     if ok then Some (w, 0)
     else do { w \<leftarrow> zen_compositor_destroy E CPTR w; Some (w, -1) } }"

section \<open>Running\<close>

text \<open>\<open>wl_display_run\<close> dispatches events until the display is terminated: a parameter.\<close>

definition zen_compositor_run :: "comp_env \<Rightarrow> (world \<Rightarrow> world option) \<Rightarrow> world \<Rightarrow> world option" where
  "zen_compositor_run E event_loop w = do {
     _ \<leftarrow> wl_display w;
     let w = (case c_socket E of None \<Rightarrow> w | Some s \<Rightarrow> emits [Setenv ''WAYLAND_DISPLAY'' s] w);
     let w = emit_boot_signal (c_serial_ok E) (c_socket E) w;
     event_loop w }"

definition zen_main :: "comp_env \<Rightarrow> (world \<Rightarrow> world option) \<Rightarrow> world \<Rightarrow> (world \<times> int) option" where
  "zen_main E event_loop w = do {
     (w, rc) \<leftarrow> zen_compositor_create E w;
     if rc \<noteq> 0 then Some (w, 1)
     else do {
       w \<leftarrow> zen_compositor_run E event_loop w;
       w \<leftarrow> zen_compositor_destroy E CPTR w;
       Some (w, 0) } }"

end
