(* ===== verification/Zen_Main_Destroy.thy ===== *)
theory Zen_Main_Destroy
  imports Zen_Main
begin

text \<open>
  Destroying the compositor before the first client: \<open>startup\<close> describes every state creation
  goes through, \<open>comp_objects\<close> what the compositor owns in it, and \<open>destroy_startup\<close> shows that
  \<open>zen_compositor_destroy\<close> returns and gives back exactly that. Creation jumps to this code from
  nineteen places.
\<close>

section \<open>The state before the first client\<close>

text \<open>
  While the compositor starts there is no window, no keyboard and no panel, nothing is drawn,
  and the only objects with listeners are the outputs.
\<close>

definition startup :: "comp_env \<Rightarrow> world \<Rightarrow> bool" where
  "startup E w \<longleftrightarrow> tops w = Map.empty \<and> kbds w = Map.empty \<and> lays w = Map.empty \<and>
     (toplevels w = None \<or> toplevels w = Some []) \<and> (keyboards w = None \<or> keyboards w = Some []) \<and>
     (layer_surfaces w = None \<or> layer_surfaces w = Some []) \<and>
     test_overlay w = None \<and> lock_buffer (s_lock w) = None \<and>
     (\<forall>st. g_wallpaper_state w = Some st \<longrightarrow> wp_outputs st = []) \<and>
     (have_systemd (c_lock E) \<or> s_lock_signal_slot w = None) \<and>
     distinct (lregs w) \<and> (\<forall>a f. (Of_Toplevel a, f) \<notin> set (lregs w)) \<and>
     (\<forall>a f. (Of_Output a, f) \<in> set (lregs w) \<longleftrightarrow> a \<in> dom (zouts w) \<and> f \<in> set output_listeners)"

text \<open>What the compositor owns.\<close>

definition module_objects :: "world \<Rightarrow> (kind \<times> addr) multiset" where
  "module_objects w = opt_object K_timer (s_idle_timer w) + opt_object K_slot (s_lock_signal_slot w) +
     dbus_objects w + wallpaper_objects (g_wallpaper_state w) +
     opt_object K_xcursor_mgr (xcursor_mgr w) + opt_object K_cursor (cursor w)"

definition scene_objects :: "world \<Rightarrow> (kind \<times> addr) multiset" where
  "scene_objects w = (case scene w of None \<Rightarrow> {#}
     | Some s \<Rightarrow> add_mset (K_scene, s) (opt_object K_node (shell_overlay_tree w) +
         opt_object K_node (wallpaper_tree w)))"

definition core_objects :: "world \<Rightarrow> (kind \<times> addr) multiset" where
  "core_objects w = scene_objects w + opt_object K_allocator (allocator w) +
     opt_object K_renderer (renderer w) + opt_object K_backend (backend w) + opt_object K_display (wl_display w)"

definition comp_objects :: "world \<Rightarrow> (kind \<times> addr) multiset" where
  "comp_objects w = module_objects w + core_objects w"

section \<open>Destroying it\<close>

lemma lock_destroy_closed:
  assumes "lock_buffer (s_lock w) = None"
  shows "zen_lock_destroy sd CPTR w = Some (wipe_password ((emits (release_opt K_timer (s_idle_timer w) @
    (if sd then release_opt K_slot (s_lock_signal_slot w) else [])) w)\<lparr>s_idle_timer := None,
    s_lock_signal_slot := (if sd then None else s_lock_signal_slot w), locked := False,
    active_lock := None, lock_mgr := None, s_lock := empty_lock_screen\<rparr>))"
  using assms by (simp add: zen_lock_destroy_def free_lock_buffer_def wipe_password_def emits_def Let_def)

lemma layer_destroy_closed:
  assumes "layer_surfaces w = None \<or> layer_surfaces w = Some []"
  shows "zen_layer_destroy CPTR w =
    Some (w\<lparr>layer_shell := (if layer_surfaces w = None then layer_shell w else None)\<rparr>)"
  using assms by (auto simp: zen_layer_destroy_def)

lemma input_destroy_closed:
  assumes "keyboards w = None \<or> keyboards w = Some []" "distinct (lregs w)"
  shows "zen_input_destroy CPTR w = Some ((emits (release_opt K_xcursor_mgr (xcursor_mgr w) @
    release_opt K_cursor (cursor w)) w)\<lparr>lregs := filter (\<lambda>l. l \<notin> Pair Of_Compositor ` set input_listeners) (lregs w),
    xcursor_mgr := None, cursor := None, seat := None\<rparr>)"
proof -
  have "zen_input_destroy CPTR w = do {
      w \<leftarrow> unlisten_linked Of_Compositor input_listeners w;
      let w = (case xcursor_mgr w of None \<Rightarrow> w | Some m \<Rightarrow> (emits [Release K_xcursor_mgr m] w)\<lparr>xcursor_mgr := None\<rparr>);
      let w = (case cursor w of None \<Rightarrow> w | Some cu \<Rightarrow> (emits [Release K_cursor cu] w)\<lparr>cursor := None\<rparr>);
      Some (w\<lparr>seat := None\<rparr>) }"
    using assms(1) by (auto simp: zen_input_destroy_def)
  then show ?thesis unfolding unlisten_linked_filter [OF assms(2)]
    by (simp add: Let_def emits_def split: option.split)
qed

lemma xdg_destroy_closed:
  assumes "toplevels w = None \<or> toplevels w = Some []" "distinct (lregs w)"
  shows "zen_xdg_destroy CPTR w = Some (w\<lparr>focused_toplevel := None,
    lregs := filter (\<lambda>l. l \<noteq> (Of_Compositor, L_new_xdg_toplevel)) (lregs w)\<rparr>)"
proof -
  have "filter (\<lambda>l. l \<noteq> (Of_Compositor, L_new_xdg_toplevel)) (lregs w) = lregs w"
    if "(Of_Compositor, L_new_xdg_toplevel) \<notin> set (lregs w)"
    using that by (auto simp: filter_id_conv)
  moreover have "remove1 l (lregs w) = filter (\<lambda>l'. l' \<noteq> l) (lregs w)" for l
    using assms(2) by (simp add: distinct_remove1_removeAll removeAll_filter_not_eq eq_commute)
  ultimately show ?thesis using assms(1) by (auto simp: zen_xdg_destroy_def unlisten_def Let_def)
qed

text \<open>The modules: what they own is given back, and the core and the outputs are as before.\<close>

lemma keybinds_destroy_closed: "\<exists>k. zen_keybinds_destroy CPTR w = w\<lparr>keybindings := k\<rparr>"
  by (auto simp: zen_keybinds_destroy_def split: option.split intro: exI [of _ None] exI [of _ "keybindings w"])

lemma wallpaper_destroy_closed:
  assumes "\<And>st. g_wallpaper_state w = Some st \<Longrightarrow> wp_outputs st = []"
  shows "zen_wallpaper_destroy w = (emits (case g_wallpaper_state w of None \<Rightarrow> []
    | Some st \<Rightarrow> release_opt K_surface (src_image st)) w)\<lparr>g_wallpaper_state := None\<rparr>"
  using assms by (simp add: zen_wallpaper_destroy_def split: option.split)

definition module_releases :: "bool \<Rightarrow> world \<Rightarrow> call list" where
  "module_releases sd w = release_opt K_timer (s_idle_timer w) @
     (if sd then release_opt K_slot (s_lock_signal_slot w) else []) @
     release_opt K_event_source (dbus_event_source w) @ release_opt K_slot (dbus_slot w) @
     release_opt K_bus (bus w) @
     (case g_wallpaper_state w of None \<Rightarrow> [] | Some st \<Rightarrow> release_opt K_surface (src_image st)) @
     release_opt K_xcursor_mgr (xcursor_mgr w) @ release_opt K_cursor (cursor w)"

text \<open>Nothing is drawn and there is no keyboard and no panel; there may be windows.\<close>

definition idle_desktop :: "world \<Rightarrow> bool" where
  "idle_desktop w \<longleftrightarrow> test_overlay w = None \<and> lock_buffer (s_lock w) = None \<and>
     (keyboards w = None \<or> keyboards w = Some []) \<and> (layer_surfaces w = None \<or> layer_surfaces w = Some []) \<and>
     (\<forall>st. g_wallpaper_state w = Some st \<longrightarrow> wp_outputs st = []) \<and> distinct (lregs w)"

lemma startup_idle: "startup E w \<Longrightarrow> idle_desktop w"
  by (simp add: startup_def idle_desktop_def)

lemma destroy_before_xdg:
  assumes "idle_desktop w"
  shows "\<exists>k ls. destroy_modules E w = zen_xdg_destroy CPTR (w\<lparr>shell := None, s_idle_timer := None,
    s_lock_signal_slot := (if have_systemd (c_lock E) then None else s_lock_signal_slot w), locked := False,
    active_lock := None, lock_mgr := None, s_lock := empty_lock_screen, s_password := replicate 256 NUL,
    s_password_len := 0, dbus_event_source := None, dbus_slot := None, bus := None, layer_shell := ls,
    keybindings := k, g_wallpaper_state := None, xcursor_mgr := None, cursor := None, seat := None,
    lregs := filter (\<lambda>l. l \<notin> Pair Of_Compositor ` set input_listeners) (lregs w),
    calls := calls w @ module_releases (have_systemd (c_lock E)) w\<rparr>)"
proof -
  from assms have st: "test_overlay w = None" "lock_buffer (s_lock w) = None"
    "keyboards w = None \<or> keyboards w = Some []"
    "layer_surfaces w = None \<or> layer_surfaces w = Some []" "distinct (lregs w)"
    and wp: "\<And>st. g_wallpaper_state w = Some st \<Longrightarrow> wp_outputs st = []" by (simp_all add: idle_desktop_def)
  have w1: "(case shell w of None \<Rightarrow> w | Some _ \<Rightarrow> (zen_shell_destroy w)\<lparr>shell := None\<rparr>) = w\<lparr>shell := None\<rparr>"
    by (simp add: zen_shell_destroy_def split: option.split)
  define w2 where "w2 = wipe_password ((emits (release_opt K_timer (s_idle_timer w) @
    (if have_systemd (c_lock E) then release_opt K_slot (s_lock_signal_slot w) else [])) w)\<lparr>shell := None, s_idle_timer := None,
    s_lock_signal_slot := (if have_systemd (c_lock E) then None else s_lock_signal_slot w), locked := False,
    active_lock := None, lock_mgr := None, s_lock := empty_lock_screen\<rparr>)"
  have lock: "zen_lock_destroy (have_systemd (c_lock E)) CPTR (w\<lparr>shell := None\<rparr>) = Some w2"
    using lock_destroy_closed [of "w\<lparr>shell := None\<rparr>" "have_systemd (c_lock E)"] st(2)
    by (simp add: w2_def emits_def wipe_password_def)
  define w3 where "w3 = zen_dbus_destroy CPTR w2"
  have f3: "layer_surfaces w3 = layer_surfaces w" by (simp add: w3_def w2_def zen_dbus_destroy_def emits_def wipe_password_def)
  define ls where "ls = (if layer_surfaces w3 = None then layer_shell w3 else None)"
  have layer: "zen_layer_destroy CPTR w3 = Some (w3\<lparr>layer_shell := ls\<rparr>)"
    unfolding ls_def by (rule layer_destroy_closed) (use st(4) f3 in simp)
  obtain k where kb: "zen_keybinds_destroy CPTR (w3\<lparr>layer_shell := ls\<rparr>) = w3\<lparr>layer_shell := ls, keybindings := k\<rparr>"
    using keybinds_destroy_closed by blast
  define w5 where "w5 = zen_wallpaper_destroy (w3\<lparr>layer_shell := ls, keybindings := k\<rparr>)"
  note fr = w3_def w2_def zen_dbus_destroy_def emits_def wipe_password_def
  have w5: "w5 = (emits (case g_wallpaper_state w of None \<Rightarrow> [] | Some st \<Rightarrow> release_opt K_surface (src_image st))
      (w3\<lparr>layer_shell := ls, keybindings := k\<rparr>))\<lparr>g_wallpaper_state := None\<rparr>"
    unfolding w5_def using wallpaper_destroy_closed [of "w3\<lparr>layer_shell := ls, keybindings := k\<rparr>"] wp
    by (simp add: fr)
  have f5: "keyboards w5 = keyboards w" "lregs w5 = lregs w" 
    "xcursor_mgr w5 = xcursor_mgr w" "cursor w5 = cursor w" unfolding w5 by (simp_all add: fr)
  have input: "zen_input_destroy CPTR w5 = Some ((emits (release_opt K_xcursor_mgr (xcursor_mgr w) @
    release_opt K_cursor (cursor w)) w5)\<lparr>lregs := filter (\<lambda>l. l \<notin> Pair Of_Compositor ` set input_listeners) (lregs w),
    xcursor_mgr := None, cursor := None, seat := None\<rparr>)" (is "_ = Some ?w6")
    using input_destroy_closed [of w5] st(3,5) f5 by simp
  have "destroy_modules E w = zen_xdg_destroy CPTR ?w6"
    using st(1) input
    by (simp add: destroy_modules_def destroy_overlay_def w1 lock layer kb flip: w3_def w5_def)
  also have "?w6 = w\<lparr>shell := None, s_idle_timer := None,
    s_lock_signal_slot := (if have_systemd (c_lock E) then None else s_lock_signal_slot w), locked := False,
    active_lock := None, lock_mgr := None, s_lock := empty_lock_screen, s_password := replicate 256 NUL,
    s_password_len := 0, dbus_event_source := None, dbus_slot := None, bus := None, layer_shell := ls,
    keybindings := k, g_wallpaper_state := None, xcursor_mgr := None, cursor := None, seat := None,
    lregs := filter (\<lambda>l. l \<notin> Pair Of_Compositor ` set input_listeners) (lregs w),
    calls := calls w @ module_releases (have_systemd (c_lock E)) w\<rparr>"
    unfolding w5 by (simp add: fr module_releases_def)
  finally show ?thesis by blast
qed

lemma destroy_modules_closed:
  assumes "startup E w"
  shows "\<exists>k ls. destroy_modules E w = Some (w\<lparr>shell := None, s_idle_timer := None,
    s_lock_signal_slot := (if have_systemd (c_lock E) then None else s_lock_signal_slot w), locked := False,
    active_lock := None, lock_mgr := None, s_lock := empty_lock_screen, s_password := replicate 256 NUL,
    s_password_len := 0, dbus_event_source := None, dbus_slot := None, bus := None, layer_shell := ls,
    keybindings := k, g_wallpaper_state := None, xcursor_mgr := None, cursor := None, seat := None,
    focused_toplevel := None,
    lregs := filter (\<lambda>l. l \<noteq> (Of_Compositor, L_new_xdg_toplevel))
      (filter (\<lambda>l. l \<notin> Pair Of_Compositor ` set input_listeners) (lregs w)),
    calls := calls w @ module_releases (have_systemd (c_lock E)) w\<rparr>)"
proof -
  from assms have st: "toplevels w = None \<or> toplevels w = Some []" "distinct (lregs w)" by (simp_all add: startup_def)
  from destroy_before_xdg [OF startup_idle [OF assms], of E] obtain k ls where
    run: "destroy_modules E w = zen_xdg_destroy CPTR (w\<lparr>shell := None, s_idle_timer := None,
    s_lock_signal_slot := (if have_systemd (c_lock E) then None else s_lock_signal_slot w), locked := False,
    active_lock := None, lock_mgr := None, s_lock := empty_lock_screen, s_password := replicate 256 NUL,
    s_password_len := 0, dbus_event_source := None, dbus_slot := None, bus := None, layer_shell := ls,
    keybindings := k, g_wallpaper_state := None, xcursor_mgr := None, cursor := None, seat := None,
    lregs := filter (\<lambda>l. l \<notin> Pair Of_Compositor ` set input_listeners) (lregs w),
    calls := calls w @ module_releases (have_systemd (c_lock E)) w\<rparr>)" (is "_ = zen_xdg_destroy CPTR ?v") by blast
  have "zen_xdg_destroy CPTR ?v = Some (?v\<lparr>focused_toplevel := None,
    lregs := filter (\<lambda>l. l \<noteq> (Of_Compositor, L_new_xdg_toplevel)) (lregs ?v)\<rparr>)"
    by (rule xdg_destroy_closed) (use st in simp_all)
  with run show ?thesis by (intro exI [of _ k] exI [of _ ls]) simp
qed

lemma accounts_release_last: "accounts (opt_object k p) (release_opt k p) {#}"
  using accounts_release_opt [of k p "{#}"] by simp

lemma accounts_module_releases:
  assumes "startup E w"
  shows "accounts (module_objects w) (module_releases (have_systemd (c_lock E)) w) {#}"
proof -
  let ?src = "case g_wallpaper_state w of None \<Rightarrow> None | Some st \<Rightarrow> src_image st"
  have slot: "(if have_systemd (c_lock E) then release_opt K_slot (s_lock_signal_slot w) else []) =
      release_opt K_slot (s_lock_signal_slot w)" using assms by (auto simp: startup_def)
  have wp: "wallpaper_objects (g_wallpaper_state w) = opt_object K_surface ?src"
    "(case g_wallpaper_state w of None \<Rightarrow> [] | Some st \<Rightarrow> release_opt K_surface (src_image st)) =
      release_opt K_surface ?src"
    using assms by (auto simp: startup_def wallpaper_objects_def split: option.split)
  show ?thesis unfolding module_objects_def module_releases_def slot wp dbus_objects_def add.assoc
    by (intro accounts_append [OF accounts_release_opt] accounts_release_last)
qed

lemma destroy_modules_startup:
  assumes "startup E w"
  obtains w' where "destroy_modules E w = Some w'" "startup E w'" "settles (module_objects w) w {#} w'"
    "core_objects w' = core_objects w" "wl_display w' = wl_display w"
proof -
  from destroy_modules_closed [OF assms] obtain w' k ls where run: "destroy_modules E w = Some w'"
    and w': "w' = w\<lparr>shell := None, s_idle_timer := None,
    s_lock_signal_slot := (if have_systemd (c_lock E) then None else s_lock_signal_slot w), locked := False,
    active_lock := None, lock_mgr := None, s_lock := empty_lock_screen, s_password := replicate 256 NUL,
    s_password_len := 0, dbus_event_source := None, dbus_slot := None, bus := None, layer_shell := ls,
    keybindings := k, g_wallpaper_state := None, xcursor_mgr := None, cursor := None, seat := None,
    focused_toplevel := None,
    lregs := filter (\<lambda>l. l \<noteq> (Of_Compositor, L_new_xdg_toplevel))
      (filter (\<lambda>l. l \<notin> Pair Of_Compositor ` set input_listeners) (lregs w)),
    calls := calls w @ module_releases (have_systemd (c_lock E)) w\<rparr>" by blast
  have "startup E w'" using assms unfolding w' startup_def by (auto simp: empty_lock_screen_def)
  moreover have "settles (module_objects w) w {#} w'"
    unfolding settles_def using accounts_module_releases [OF assms] by (auto simp: w')
  moreover have "core_objects w' = core_objects w" "wl_display w' = wl_display w"
    by (simp_all add: w' core_objects_def scene_objects_def split: option.split)
  ultimately show ?thesis using run that by blast
qed

text \<open>The outputs go with the backend.\<close>

lemma output_destroy_closed:
  assumes "startup E w" "a \<in> dom (zouts w)"
  obtains w' where "output_handle_destroy a w = Some w'" "startup E w'" "zouts w' = (zouts w)(a := None)"
    "w' = w\<lparr>zouts := zouts w', lregs := lregs w'\<rparr>"
proof -
  let ?L = "fold (\<lambda>f. remove1 (Of_Output a, f)) output_listeners (lregs w)"
  let ?w = "w\<lparr>lregs := ?L, zouts := (zouts w)(a := None)\<rparr>"
  from assms(1) have d: "distinct (lregs w)" and o: "\<And>a f. (Of_Output a, f) \<in> set (lregs w) \<longleftrightarrow>
      a \<in> dom (zouts w) \<and> f \<in> set output_listeners" by (auto simp: startup_def)
  have L: "set ?L = set (lregs w) - Pair (Of_Output a) ` set output_listeners" "distinct ?L"
    by (rule set_fold_remove1 [OF d], rule distinct_fold_remove1 [OF d])
  have "unlisten_all (Of_Output a) output_listeners w = Some (w\<lparr>lregs := ?L\<rparr>)"
    by (rule unlisten_all_Some) (use o assms(2) in \<open>auto simp: output_listeners_def\<close>)
  with assms(2) have "output_handle_destroy a w = Some ?w" by (auto simp: output_handle_destroy_def)
  moreover have "startup E ?w" using assms(1) L unfolding startup_def by (auto simp del: fold_simps)
  ultimately show ?thesis by (intro that [of ?w]) simp_all
qed

lemma end_outputs_startup:
  "startup E w \<Longrightarrow> distinct as \<Longrightarrow> set as = dom (zouts w) \<Longrightarrow>
   \<exists>w'. end_outputs as w = Some w' \<and> w' = w\<lparr>zouts := Map.empty, lregs := lregs w'\<rparr>"
proof (induction as arbitrary: w)
  case Nil
  then have "zouts w = Map.empty" by auto
  then show ?case by (simp add: exI [of _ w])
next
  case (Cons a as)
  then have "a \<in> dom (zouts w)" by auto
  from output_destroy_closed [OF Cons.prems(1) this] obtain v where v: "output_handle_destroy a w = Some v"
    "startup E v" "zouts v = (zouts w)(a := None)" "v = w\<lparr>zouts := zouts v, lregs := lregs v\<rparr>" by blast
  from v(3) Cons.prems(2,3) have "set as = dom (zouts v)" by auto
  from Cons.IH [OF v(2) _ this] Cons.prems(2) obtain u where
    u: "end_outputs as v = Some u" "u = v\<lparr>zouts := Map.empty, lregs := lregs u\<rparr>" by auto
  from v(4) obtain Z L where "v = w\<lparr>zouts := Z, lregs := L\<rparr>" by blast
  then have "v\<lparr>zouts := Map.empty, lregs := lregs u\<rparr> = w\<lparr>zouts := Map.empty, lregs := lregs u\<rparr>" by simp
  with u v(1) show ?case by auto
qed

lemma no_toplevel_listeners:
  "(\<And>a f. (Of_Toplevel a, f) \<notin> set ls) \<Longrightarrow> List.map_filter toplevel_destroy_listener ls = []"
proof (induction ls)
  case (Cons l ls)
  then have "toplevel_destroy_listener l = None" by (cases l rule: toplevel_destroy_listener.cases) auto
  with Cons show ?case by (simp add: map_filter_simps)
qed (simp add: map_filter_simps)

lemma output_destroy_listener_iff: "output_destroy_listener l = Some a \<longleftrightarrow> l = (Of_Output a, L_destroy)"
  by (cases l rule: output_destroy_listener.cases) auto

lemma output_listeners_of:
  assumes "distinct ls"
  shows "distinct (List.map_filter output_destroy_listener ls)"
    and "set (List.map_filter output_destroy_listener ls) = {a. (Of_Output a, L_destroy) \<in> set ls}"
  using assms by (induction ls) (auto simp: map_filter_simps output_destroy_listener_iff split: option.split)

lemma end_all_outputs:
  assumes "startup E w"
  obtains w' L where "end_outputs (List.map_filter output_destroy_listener (lregs w)) w = Some w'"
    "w' = w\<lparr>zouts := Map.empty, lregs := L\<rparr>"
proof -
  from assms have d: "distinct (lregs w)" and o: "\<And>a f. (Of_Output a, f) \<in> set (lregs w) \<longleftrightarrow>
      a \<in> dom (zouts w) \<and> f \<in> set output_listeners" by (auto simp: startup_def)
  have "set (List.map_filter output_destroy_listener (lregs w)) = dom (zouts w)"
    unfolding output_listeners_of(2) [OF d] by (auto simp: o output_listeners_def)
  from end_outputs_startup [OF assms output_listeners_of(1) [OF d] this] that show ?thesis by blast
qed

text \<open>The core: everything else is given back, in the reverse order of creation.\<close>

definition core_releases :: "world \<Rightarrow> call list" where
  "core_releases w = (case scene w of None \<Rightarrow> []
     | Some s \<Rightarrow> Release K_scene s # release_opt K_node (shell_overlay_tree w) @ release_opt K_node (wallpaper_tree w)) @
     release_opt K_allocator (allocator w) @ release_opt K_renderer (renderer w) @
     release_opt K_backend (backend w) @ release_opt K_display (wl_display w)"

lemma accounts_core_releases: "accounts (core_objects w) (core_releases w) {#}"
proof -
  have "accounts (scene_objects w + A) (case scene w of None \<Rightarrow> []
     | Some s \<Rightarrow> Release K_scene s # release_opt K_node (shell_overlay_tree w) @ release_opt K_node (wallpaper_tree w)) A"
    for A
    by (auto simp: scene_objects_def add.assoc split: option.split
        intro!: accounts_Cons [OF accounts_release] accounts_append [OF accounts_release_opt] accounts_release_opt)
  note scn = this
  show ?thesis unfolding core_objects_def core_releases_def add.assoc
    by (intro accounts_append [OF scn] accounts_append [OF accounts_release_opt] accounts_release_last)
qed

lemma destroy_core_startup:
  assumes "startup E w"
  obtains w' L where "destroy_core E w = Some w'"
    "w' = w\<lparr>scene := None, allocator := None, renderer := None, backend := None, wl_display := None,
      zouts := (if backend w = None then zouts w else Map.empty), lregs := L, calls := calls w @ core_releases w\<rparr>"
proof -
  have clients: "(if wl_display w \<noteq> None then wl_display_destroy_clients E w else Some w) = Some w"
    using assms no_toplevel_listeners by (simp add: wl_display_destroy_clients_def startup_def)
  define cs where "cs = (case scene w of None \<Rightarrow> []
     | Some s \<Rightarrow> Release K_scene s # release_opt K_node (shell_overlay_tree w) @ release_opt K_node (wallpaper_tree w)) @
     release_opt K_allocator (allocator w) @ release_opt K_renderer (renderer w)"
  define v where "v = w\<lparr>scene := None, allocator := None, renderer := None, calls := calls w @ cs\<rparr>"
  have v: "(let w = (case scene w of None \<Rightarrow> w
       | Some s \<Rightarrow> (emits (Release K_scene s # release_opt K_node (shell_overlay_tree w) @
           release_opt K_node (wallpaper_tree w)) w)\<lparr>scene := None\<rparr>);
       w = (emits (release_opt K_allocator (allocator w)) w)\<lparr>allocator := None\<rparr>
     in (emits (release_opt K_renderer (renderer w)) w)\<lparr>renderer := None\<rparr>) = v"
    by (simp add: v_def cs_def emits_def Let_def split: option.split)
  have "startup E v" using assms by (simp add: v_def startup_def)
  from end_all_outputs [OF this] obtain u L where
    u: "end_outputs (List.map_filter output_destroy_listener (lregs v)) v = Some u"
    "u = v\<lparr>zouts := Map.empty, lregs := L\<rparr>" by blast
  let ?w' = "w\<lparr>scene := None, allocator := None, renderer := None, backend := None, wl_display := None,
      zouts := (if backend w = None then zouts w else Map.empty),
      lregs := (if backend w = None then lregs w else L), calls := calls w @ core_releases w\<rparr>"
  have "destroy_core E w = do {
      w \<leftarrow> (case backend v of None \<Rightarrow> Some v
        | Some b \<Rightarrow> do { w \<leftarrow> end_outputs (List.map_filter output_destroy_listener (lregs v)) v;
            Some ((emits [Release K_backend b] w)\<lparr>backend := None\<rparr>) });
      Some ((emits (release_opt K_display (wl_display w)) w)\<lparr>wl_display := None\<rparr>) }"
    unfolding v [symmetric] destroy_core_def clients Let_def by simp
  also have "\<dots> = Some ?w'"
    unfolding u(1) unfolding u(2) by (simp add: v_def cs_def emits_def core_releases_def split: option.split)
  finally show ?thesis using that by blast
qed

text \<open>Together.\<close>

lemma destroy_startup:
  assumes "startup E w"
  obtains w' where "zen_compositor_destroy E CPTR w = Some w'" "settles (comp_objects w) w {#} w'"
    "wl_display w' = None" "backend w' = None" "scene w' = None"
proof -
  from destroy_modules_startup [OF assms] obtain v where v: "destroy_modules E w = Some v" "startup E v"
    "settles (module_objects w) w {#} v" "core_objects v = core_objects w" "wl_display v = wl_display w" by blast
  from destroy_core_startup [OF v(2)] obtain u L where u: "destroy_core E v = Some u"
    "u = v\<lparr>scene := None, allocator := None, renderer := None, backend := None, wl_display := None,
      zouts := (if backend v = None then zouts v else Map.empty), lregs := L, calls := calls v @ core_releases v\<rparr>"
    by blast
  have "settles (core_objects w) v {#} u"
    unfolding settles_def using accounts_core_releases [of v] v(4) u(2) by (auto simp: v(4))
  with settles_frame [OF v(3), of "core_objects w"] have "settles (comp_objects w) w {#} u"
    unfolding comp_objects_def using settles_trans by fastforce
  with v(1) u show ?thesis by (intro that [of u]) (simp_all add: zen_compositor_destroy_def)
qed

end
