(* ===== verification/Zen_Main_Create.thy ===== *)
theory Zen_Main_Create
  imports Zen_Main_Destroy
begin

text \<open>
  Creating the compositor, step by step. Each of the nine module steps keeps \<open>good\<close>: the state
  can be destroyed, and exactly what the compositor's fields point to is held. The core steps
  establish it, whatever outputs and devices the backend announces while it starts.
\<close>

section \<open>Outputs at startup\<close>

text \<open>While the backend starts, the core exists and neither tree does.\<close>

definition bare :: "world \<Rightarrow> bool" where
  "bare w \<longleftrightarrow> allocator w \<noteq> None \<and> renderer w \<noteq> None \<and> output_layout w \<noteq> None \<and> scene w \<noteq> None \<and>
     scene_layout w \<noteq> None \<and> wallpaper_tree w = None \<and> shell_overlay_tree w = None \<and>
     (Of_Compositor, L_new_output) \<in> set (lregs w) \<and> (Of_Compositor, L_new_input) \<notin> set (lregs w)"

text \<open>Only outputs and their listeners were added, and nothing was acquired.\<close>

definition outputs_added :: "addr list \<Rightarrow> world \<Rightarrow> world \<Rightarrow> bool" where
  "outputs_added as w w' \<longleftrightarrow> (\<exists>Z L cs. w' = w\<lparr>zouts := Z, lregs := L, calls := calls w @ cs\<rparr> \<and>
     accounts {#} cs {#} \<and> dom Z = dom (zouts w) \<union> set as \<and>
     (\<forall>ow f. (\<forall>a. ow \<noteq> Of_Output a) \<longrightarrow> (ow, f) \<in> set L \<longleftrightarrow> (ow, f) \<in> set (lregs w)))"

lemma outputs_added_refl: "outputs_added [] w w"
  unfolding outputs_added_def
  by (intro exI [of _ "zouts w"] exI [of _ "lregs w"] exI [of _ "[]"]) simp

lemma outputs_added_trans:
  assumes "outputs_added as u v" "outputs_added bs v w"
  shows "outputs_added (as @ bs) u w"
proof -
  from assms(1) obtain Z L cs where v: "v = u\<lparr>zouts := Z, lregs := L, calls := calls u @ cs\<rparr>"
    "accounts {#} cs {#}" "dom Z = dom (zouts u) \<union> set as"
    "\<forall>ow f. (\<forall>a. ow \<noteq> Of_Output a) \<longrightarrow> (ow, f) \<in> set L \<longleftrightarrow> (ow, f) \<in> set (lregs u)"
    unfolding outputs_added_def by blast
  from assms(2) obtain Z' L' ds where w: "w = v\<lparr>zouts := Z', lregs := L', calls := calls v @ ds\<rparr>"
    "accounts {#} ds {#}" "dom Z' = dom (zouts v) \<union> set bs"
    "\<forall>ow f. (\<forall>a. ow \<noteq> Of_Output a) \<longrightarrow> (ow, f) \<in> set L' \<longleftrightarrow> (ow, f) \<in> set (lregs v)"
    unfolding outputs_added_def by blast
  have "accounts {#} (cs @ ds) {#}" using v(2) w(2) by (rule accounts_append)
  then show ?thesis unfolding outputs_added_def
    using v w by (intro exI [of _ Z'] exI [of _ L'] exI [of _ "cs @ ds"]) (auto simp: v(1))
qed

lemma outputs_added_bare: "outputs_added as w w' \<Longrightarrow> bare w \<Longrightarrow> bare w'"
  by (auto simp: outputs_added_def bare_def)

lemma new_output_bare:
  assumes "bare w" "startup E w" "o_scene_output Q \<noteq> None"
    and "\<And>a. o_calloc Q = Some a \<Longrightarrow> zouts w a = None"
  obtains w' where "handle_new_output Q wlr_out w = Some w'" "startup E w'"
    "outputs_added (case o_calloc Q of None \<Rightarrow> [] | Some a \<Rightarrow> [a]) w w'"
proof (cases "o_calloc Q")
  case None
  let ?cs = "[Output (Init_render wlr_out), Output (Commit_mode wlr_out (o_mode Q) 1)]"
  have "handle_new_output Q wlr_out w = Some (emits ?cs w)"
    using assms(1) None by (auto simp: handle_new_output_def bare_def)
  moreover have "startup E (emits ?cs w)" using assms(2) by (simp add: startup_def emits_def)
  moreover have "accounts {#} ?cs {#}" by (rule accounts_tallyI) simp_all
  then have "outputs_added [] w (emits ?cs w)" unfolding outputs_added_def
    by (intro exI [of _ "zouts w"] exI [of _ "lregs w"] exI [of _ ?cs]) (simp add: emits_def)
  ultimately show ?thesis using that None by simp
next
  case (Some a)
  obtain so where so: "o_scene_output Q = Some so" using assms(3) by blast
  let ?cs = "[Output (Init_render wlr_out), Output (Commit_mode wlr_out (o_mode Q) 1),
    Output (Layout_add_auto wlr_out), Output (Scene_layout_add wlr_out (Some so))]"
  let ?w = "w\<lparr>zouts := (zouts w)(a \<mapsto> \<lparr>wlr_output = wlr_out, scene_output = Some so\<rparr>),
    lregs := lregs w @ map (Pair (Of_Output a)) output_listeners, calls := calls w @ ?cs\<rparr>"
  from assms(2) have d: "distinct (lregs w)" and o: "\<And>a f. (Of_Output a, f) \<in> set (lregs w) \<longleftrightarrow>
      a \<in> dom (zouts w) \<and> f \<in> set output_listeners" by (auto simp: startup_def)
  have fresh: "(Of_Output a, f) \<notin> set (lregs w)" for f using o assms(4) [OF Some] by auto
  have listen: "listen_all (Of_Output a) output_listeners v =
      Some (v\<lparr>lregs := lregs v @ map (Pair (Of_Output a)) output_listeners\<rparr>)" if "lregs v = lregs w" for v
    by (rule listen_all_Some) (use fresh that in \<open>auto simp: output_listeners_def\<close>)
  have "handle_new_output Q wlr_out w = Some ?w"
    using assms(1) so Some by (auto simp: handle_new_output_def bare_def emits_def listen)
  moreover have "startup E ?w"
    using assms(2) fresh assms(4) [OF Some] unfolding startup_def by (auto simp: output_listeners_def)
  moreover have "accounts {#} ?cs {#}" by (rule accounts_tallyI) simp_all
  then have "outputs_added [a] w ?w" unfolding outputs_added_def
    by (intro exI [of _ "zouts ?w"] exI [of _ "lregs ?w"] exI [of _ ?cs]) auto
  ultimately show ?thesis using that Some by simp
qed

text \<open>The addresses the announced outputs are given, and what is asked of the announcements.\<close>

fun announced_addr :: "announced \<Rightarrow> ptr" where
  "announced_addr (New_output Q a) = o_calloc Q"
| "announced_addr (New_input I ty d) = None"

fun announced_scene :: "announced \<Rightarrow> bool" where
  "announced_scene (New_output Q a) \<longleftrightarrow> o_scene_output Q \<noteq> None"
| "announced_scene (New_input I ty d) \<longleftrightarrow> True"

definition announced_ok :: "announced list \<Rightarrow> bool" where
  "announced_ok ns \<longleftrightarrow> distinct (List.map_filter announced_addr ns) \<and> list_all announced_scene ns"

lemma backend_start_bare:
  "bare w \<Longrightarrow> startup E w \<Longrightarrow> announced_ok ns \<Longrightarrow>
   dom (zouts w) \<inter> set (List.map_filter announced_addr ns) = {} \<Longrightarrow>
   \<exists>w'. backend_start ns w = Some w' \<and> startup E w' \<and> outputs_added (List.map_filter announced_addr ns) w w'"
proof (induction ns arbitrary: w)
  case Nil
  then show ?case by (simp add: outputs_added_refl map_filter_simps)
next
  case (Cons n ns)
  let ?here = "case announced_addr n of None \<Rightarrow> [] | Some a \<Rightarrow> [a]"
  have mf: "List.map_filter announced_addr (n # ns) = ?here @ List.map_filter announced_addr ns"
    by (simp add: map_filter_simps split: option.split)
  have "\<exists>v. (case n of
        New_output Q a \<Rightarrow> if (Of_Compositor, L_new_output) \<in> set (lregs w) then handle_new_output Q a w else Some w
      | New_input I ty d \<Rightarrow> if (Of_Compositor, L_new_input) \<in> set (lregs w) then handle_new_input I ty d w else Some w) =
      Some v \<and> startup E v \<and> outputs_added ?here w v"
  proof (cases n)
    case (New_output Q a)
    have "zouts w b = None" if "o_calloc Q = Some b" for b
      using Cons.prems(4) that by (auto simp: mf New_output)
    moreover have "o_scene_output Q \<noteq> None" using Cons.prems(3) by (simp add: announced_ok_def New_output)
    ultimately obtain v where "handle_new_output Q a w = Some v" "startup E v"
      "outputs_added (case o_calloc Q of None \<Rightarrow> [] | Some a \<Rightarrow> [a]) w v"
      using new_output_bare [OF Cons.prems(1,2)] by metis
    with Cons.prems(1) show ?thesis by (simp add: New_output bare_def)
  next
    case (New_input I ty d)
    with Cons.prems(1,2) show ?thesis by (simp add: bare_def outputs_added_refl)
  qed
  then obtain v where v: "(case n of
        New_output Q a \<Rightarrow> if (Of_Compositor, L_new_output) \<in> set (lregs w) then handle_new_output Q a w else Some w
      | New_input I ty d \<Rightarrow> if (Of_Compositor, L_new_input) \<in> set (lregs w) then handle_new_input I ty d w else Some w) =
      Some v" "startup E v" "outputs_added ?here w v" by blast
  have "announced_ok ns" using Cons.prems(3) by (auto simp: announced_ok_def map_filter_simps split: option.splits)
  moreover have "dom (zouts v) = dom (zouts w) \<union> set ?here" using v(3) unfolding outputs_added_def by (elim exE conjE) simp
  then have "dom (zouts v) \<inter> set (List.map_filter announced_addr ns) = {}"
    using Cons.prems(3,4) by (cases "announced_addr n") (auto simp: announced_ok_def map_filter_simps)
  ultimately obtain u where u: "backend_start ns v = Some u" "startup E u"
    "outputs_added (List.map_filter announced_addr ns) v u"
    using Cons.IH [OF outputs_added_bare [OF v(3) Cons.prems(1)] v(2)] by blast
  have "backend_start (n # ns) w = Some u" using v(1) u(1) by simp
  then show ?case unfolding mf using u(2) outputs_added_trans [OF v(3) u(3)] by blast
qed

section \<open>Creation, step by step\<close>

text \<open>
  Where creation stands: the state can be destroyed at any moment, exactly what the
  compositor's fields point to is held, and the outputs are those of \<open>w0\<close>. \<open>todo k\<close> says that the modules from step \<open>k\<close> on have
  not been touched.
\<close>

definition good :: "comp_env \<Rightarrow> world \<Rightarrow> world \<Rightarrow> bool" where
  "good E w0 w \<longleftrightarrow> startup E w \<and> settles {#} w0 (comp_objects w) w \<and> zouts w = zouts w0"

lemma good_step:
  assumes "good E w0 w" "startup E w'" "settles (comp_objects w) w (comp_objects w') w'"
    and "zouts w' = zouts w"
  shows "good E w0 w'"
  using assms(1,2,4) settles_trans [OF _ assms(3)] by (simp add: good_def)

text \<open>A change that acquires \<open>A\<close> more.\<close>

lemma good_acquire:
  assumes "good E w0 w" "startup E w'" "settles {#} w A w'" "comp_objects w' = A + comp_objects w"
    and "zouts w' = zouts w"
  shows "good E w0 w'"
  using good_step [OF assms(1,2)] settles_frame [OF assms(3), of "comp_objects w"] assms(4,5) by simp

definition todo :: "nat \<Rightarrow> world \<Rightarrow> bool" where
  "todo k w \<longleftrightarrow> wl_display w \<noteq> None \<and> backend w \<noteq> None \<and> scene w \<noteq> None \<and>
     (k \<le> 1 \<longrightarrow> (Of_Compositor, L_new_xdg_toplevel) \<notin> set (lregs w)) \<and>
     (k \<le> 2 \<longrightarrow> cursor w = None \<and> xcursor_mgr w = None \<and>
        (\<forall>f \<in> set input_listeners. (Of_Compositor, f) \<notin> set (lregs w))) \<and>
     (k \<le> 3 \<longrightarrow> shell_overlay_tree w = None) \<and>
     (k \<le> 4 \<longrightarrow> wallpaper_tree w = None \<and> g_wallpaper_state w = None) \<and>
     (k \<le> 6 \<longrightarrow> (Of_Compositor, L_new_layer_surface) \<notin> set (lregs w)) \<and>
     (k \<le> 7 \<longrightarrow> bus w = None \<and> dbus_slot w = None \<and> dbus_event_source w = None) \<and>
     (k \<le> 8 \<longrightarrow> s_idle_timer w = None \<and> s_lock_signal_slot w = None \<and>
        (Of_Module, L_new_lock) \<notin> set (lregs w))"

definition stage_ok :: "comp_env \<Rightarrow> nat \<Rightarrow> (world \<Rightarrow> (world \<times> bool) option) \<Rightarrow> bool" where
  "stage_ok E k s \<longleftrightarrow> (\<forall>w0 w. good E w0 w \<longrightarrow> todo k w \<longrightarrow>
     (\<exists>w' ok. s w = Some (w', ok) \<and> good E w0 w' \<and> (ok \<longrightarrow> todo (Suc k) w')))"

lemma stage_okI:
  assumes "\<And>w0 w. good E w0 w \<Longrightarrow> todo k w \<Longrightarrow>
    \<exists>w' ok. s w = Some (w', ok) \<and> good E w0 w' \<and> (ok \<longrightarrow> todo (Suc k) w')"
  shows "stage_ok E k s"
  using assms by (simp add: stage_ok_def)

lemma stage_result:
  "s w = Some (v, b) \<Longrightarrow> good E w0 v \<Longrightarrow> (b \<Longrightarrow> todo k v) \<Longrightarrow>
   \<exists>w' ok. s w = Some (w', ok) \<and> good E w0 w' \<and> (ok \<longrightarrow> todo k w')"
  by blast

lemma run_stages_ok:
  "(\<And>i. i < length ss \<Longrightarrow> stage_ok E (k + i) (ss ! i)) \<Longrightarrow> good E w0 w \<Longrightarrow> todo k w \<Longrightarrow>
   \<exists>w' ok. run_stages ss w = Some (w', ok) \<and> good E w0 w' \<and> (ok \<longrightarrow> todo (k + length ss) w')"
proof (induction ss arbitrary: k w)
  case Nil
  then show ?case by (intro exI [of _ w] exI [of _ True]) simp
next
  case (Cons s ss)
  from Cons.prems(1) [of 0] have "stage_ok E k s" by simp
  with Cons.prems(2,3) obtain v ok where v: "s w = Some (v, ok)" "good E w0 v" "ok \<longrightarrow> todo (Suc k) v"
    unfolding stage_ok_def by blast
  show ?case
  proof (cases ok)
    case True
    have "stage_ok E (Suc k + i) (ss ! i)" if "i < length ss" for i
      using Cons.prems(1) [of "Suc i"] that by simp
    from Cons.IH [OF this v(2)] v(1,3) True show ?thesis by simp
  next
    case False
    with v show ?thesis by (intro exI [of _ v] exI [of _ False]) simp
  qed
qed

lemmas objects_defs = comp_objects_def module_objects_def core_objects_def scene_objects_def dbus_objects_def

lemma stage_xdg_ok: "stage_ok E 1 (stage_xdg E)"
proof (rule stage_okI)
  fix w0 w assume g: "good E w0 w" and t: "todo 1 w"
  have k: "good E w0 w'" if "w' = w\<lparr>toplevels := Some [], focused_toplevel := None, xdg_shell := x, lregs := L\<rparr>"
    "L = lregs w \<or> L = lregs w @ [(Of_Compositor, L_new_xdg_toplevel)]" for w' x L
  proof (rule good_acquire [OF g, where A = "{#}"])
    show "startup E w'" using g t that by (auto simp: good_def startup_def todo_def)
    show "settles {#} w {#} w'" using that by (simp add: settles_refl)
    show "comp_objects w' = {#} + comp_objects w" using that by (simp add: objects_defs split: option.split)
    show "zouts w' = zouts w" using that by simp
  qed
  show "\<exists>w' ok. stage_xdg E w = Some (w', ok) \<and> good E w0 w' \<and> (ok \<longrightarrow> todo (Suc 1) w')"
  proof (cases "x_shell_create (c_xdg E)")
    case None
    let ?w = "w\<lparr>toplevels := Some [], focused_toplevel := None, xdg_shell := None\<rparr>"
    from None t have "stage_xdg E w = Some (?w, False)"
      by (auto simp: stage_xdg_def zen_xdg_init_def todo_def wl_list_init_def)
    moreover have "good E w0 ?w" by (rule k [where x = None and L = "lregs w"]) simp_all
    ultimately show ?thesis by (rule stage_result) simp
  next
    case (Some x)
    let ?w = "w\<lparr>toplevels := Some [], focused_toplevel := None, xdg_shell := Some x,
      lregs := lregs w @ [(Of_Compositor, L_new_xdg_toplevel)]\<rparr>"
    from t Some have "stage_xdg E w = Some (?w, True)"
      by (auto simp: stage_xdg_def zen_xdg_init_def todo_def wl_list_init_def listen_def)
    moreover have "todo 2 ?w" using t by (auto simp: todo_def input_listeners_def)
    moreover have "good E w0 ?w" by (rule k [OF refl]) simp
    ultimately show ?thesis by (intro stage_result) (simp_all add: numeral_2_eq_2)
  qed
qed

text \<open>The input module: a failure tears down what it had set up.\<close>

lemma stage_input_ok: "stage_ok E 2 (stage_input E)"
proof (rule stage_okI)
  fix w0 w assume g: "good E w0 w" and t: "todo 2 w"
  let ?I = "c_input E"
  from g have d: "distinct (lregs w)" by (simp add: good_def startup_def)
  from t have off: "cursor w = None" "xcursor_mgr w = None"
    "\<forall>f \<in> set input_listeners. (Of_Compositor, f) \<notin> set (lregs w)" by (simp_all add: todo_def)
  then have keep: "filter (\<lambda>l. l \<notin> Pair Of_Compositor ` set input_listeners) (lregs w) = lregs w"
    by (auto simp: filter_id_conv)
  have fail: "\<exists>w' ok. do { (w, rc) \<leftarrow> input_init_failed CPTR v; Some (w, rc = 0) } = Some (w', ok) \<and>
      good E w0 w' \<and> (ok \<longrightarrow> todo (Suc 2) w')"
    if v: "v\<lparr>xcursor_mgr := None, cursor := None, seat := None\<rparr> =
        w\<lparr>keyboards := Some [], calls := calls w @ cs, xcursor_mgr := None, cursor := None, seat := None\<rparr>"
      "keyboards v = Some []" "lregs v = lregs w" "xcursor_mgr v = None" "calls v = calls w @ cs"
      "accounts {#} (cs @ release_opt K_cursor (cursor v)) {#}" for v cs
  proof -
    let ?cs = "cs @ release_opt K_cursor (cursor v)"
    let ?w' = "w\<lparr>keyboards := Some [], xcursor_mgr := None, cursor := None, seat := None, calls := calls w @ ?cs\<rparr>"
    have "zen_input_destroy CPTR v = Some ((v\<lparr>xcursor_mgr := None, cursor := None, seat := None\<rparr>)
        \<lparr>lregs := lregs w, calls := calls w @ ?cs\<rparr>)"
      using input_destroy_closed [of v] v(2-5) d keep by (simp add: emits_def)
    then have "zen_input_destroy CPTR v = Some ?w'" unfolding v(1) by simp
    moreover have "good E w0 ?w'"
    proof (rule good_acquire [OF g, where A = "{#}"])
      show "startup E ?w'" using g by (simp add: good_def startup_def)
      show "settles {#} w {#} ?w'" using v(6) by (auto simp: settles_def)
      show "comp_objects ?w' = {#} + comp_objects w" using off by (simp add: objects_defs split: option.split)
    qed simp
    ultimately show ?thesis by (intro exI [of _ ?w'] exI [of _ False]) (simp add: input_init_failed_def)
  qed
  from t obtain dp b where db: "wl_display w = Some dp" "backend w = Some b" by (auto simp: todo_def)
  consider "i_seat_create ?I = None" | s where "i_seat_create ?I = Some s" "i_cursor_create ?I = None"
    | s c where "i_seat_create ?I = Some s" "i_cursor_create ?I = Some c" "i_xcursor_create ?I = None"
    | s c m where "i_seat_create ?I = Some s" "i_cursor_create ?I = Some c" "i_xcursor_create ?I = Some m"
    by blast
  then show "\<exists>w' ok. stage_input E w = Some (w', ok) \<and> good E w0 w' \<and> (ok \<longrightarrow> todo (Suc 2) w')"
  proof cases
    case 1
    with fail [of "w\<lparr>keyboards := Some [], seat := None\<rparr>" "[]"] off db show ?thesis
      by (simp add: stage_input_def zen_input_init_def wl_list_init_def)
  next
    case 2
    with fail [of "w\<lparr>keyboards := Some [], seat := Some s, cursor := None\<rparr>" "[]"] off db show ?thesis
      by (simp add: stage_input_def zen_input_init_def wl_list_init_def)
  next
    case 3
    let ?cs = "[Acquire K_cursor c, Cursor (Cursor_attach_output_layout (output_layout w))]"
    have "accounts {#} (?cs @ release_opt K_cursor (Some c)) {#}" by (rule accounts_tallyI) simp_all
    with 3 fail [of "w\<lparr>keyboards := Some [], seat := Some s, cursor := Some c, calls := calls w @ ?cs,
        xcursor_mgr := None\<rparr>" ?cs] off db show ?thesis
      by (simp add: stage_input_def zen_input_init_def wl_list_init_def emits_def)
  next
    case 4
    let ?cs = "[Acquire K_cursor c, Cursor (Cursor_attach_output_layout (output_layout w)), Acquire K_xcursor_mgr m]"
    let ?w' = "w\<lparr>keyboards := Some [], seat := Some s, cursor := Some c, calls := calls w @ ?cs,
      xcursor_mgr := Some m, lregs := lregs w @ map (Pair Of_Compositor) input_listeners\<rparr>"
    have "stage_input E w = Some (?w', True)" using 4 off db
      by (simp add: stage_input_def zen_input_init_def wl_list_init_def emits_def listen_def input_listeners_def)
    moreover have "good E w0 ?w'"
    proof (rule good_acquire [OF g, where A = "{#(K_cursor, c), (K_xcursor_mgr, m)#}"])
      show "startup E ?w'" using g off(3) by (auto simp: good_def startup_def input_listeners_def)
      show "settles {#} w {#(K_cursor, c), (K_xcursor_mgr, m)#} ?w'"
        by (rule settles_tally [where cs = ?cs]) (simp_all add: add_mset_commute)
      show "comp_objects ?w' = {#(K_cursor, c), (K_xcursor_mgr, m)#} + comp_objects w"
        using off by (simp add: objects_defs add_mset_commute split: option.split)
    qed simp
    moreover have "todo 3 ?w'" using t by (auto simp: todo_def input_listeners_def)
    ultimately show ?thesis by (intro exI [of _ ?w'] exI [of _ True]) simp
  qed
qed

lemma stage_overlay_ok: "stage_ok E 3 (stage_overlay E)"
proof (rule stage_okI)
  fix w0 w assume g: "good E w0 w" and t: "todo 3 w"
  from t obtain sc where sc: "scene w = Some sc" "shell_overlay_tree w = None" by (auto simp: todo_def)
  let ?w = "w\<lparr>shell_overlay_tree := c_overlay_tree E\<rparr>"
  show "\<exists>w' ok. stage_overlay E w = Some (w', ok) \<and> good E w0 w' \<and> (ok \<longrightarrow> todo (Suc 3) w')"
  proof (cases "c_overlay_tree E")
    case None
    have "good E w0 ?w"
    proof (rule good_acquire [OF g, where A = "{#}"])
      show "startup E ?w" using g by (simp add: good_def startup_def)
    qed (use None sc in \<open>simp_all add: settles_refl objects_defs split: option.split\<close>)
    with None sc show ?thesis by (intro exI [of _ ?w] exI [of _ False]) (simp add: stage_overlay_def)
  next
    case (Some ot)
    let ?w' = "emits [Acquire K_node ot] ?w"
    have "good E w0 ?w'"
    proof (rule good_acquire [OF g, where A = "{#(K_node, ot)#}"])
      show "startup E ?w'" using g by (simp add: good_def startup_def emits_def)
      show "settles {#} w {#(K_node, ot)#} ?w'" by (rule settles_tally [where cs = "[Acquire K_node ot]"]) simp_all
      show "comp_objects ?w' = {#(K_node, ot)#} + comp_objects w"
        using Some sc by (simp add: objects_defs emits_def add_mset_commute)
    qed (simp add: emits_def)
    moreover have "todo 4 ?w'" using t by (simp add: todo_def emits_def)
    ultimately show ?thesis using Some sc by (intro exI [of _ ?w'] exI [of _ True]) (simp add: stage_overlay_def)
  qed
qed

lemma wallpaper_init_shape:
  assumes "scene w \<noteq> None"
  shows "\<exists>w' r. zen_wallpaper_init V w = Some (w', r) \<and>
    (r = 0 \<and> (\<exists>t src cs. w' = w\<lparr>wallpaper_tree := Some t, calls := calls w @ cs,
       g_wallpaper_state := Some \<lparr>src_image = src, wp_outputs = []\<rparr>\<rparr>) \<or>
     r = -1 \<and> (w' = w \<or> w' = w\<lparr>wallpaper_tree := None\<rparr>))"
  using assms
  by (auto simp: zen_wallpaper_init_def load_wallpaper_def Let_def emits_def split: option.split prod.split) blast+

lemma stage_wallpaper_ok: "stage_ok E 4 (stage_wallpaper E)"
proof (rule stage_okI)
  fix w0 w assume g: "good E w0 w" and t: "todo 4 w"
  let ?V = "c_wallpaper E"
  from t have off: "scene w \<noteq> None" "wallpaper_tree w = None" "g_wallpaper_state w = None" by (simp_all add: todo_def)
  from wallpaper_init_shape [OF off(1), of ?V] obtain w' r where run: "zen_wallpaper_init ?V w = Some (w', r)"
    and sh: "r = 0 \<and> (\<exists>t src cs. w' = w\<lparr>wallpaper_tree := Some t, calls := calls w @ cs,
       g_wallpaper_state := Some \<lparr>src_image = src, wp_outputs = []\<rparr>\<rparr>) \<or>
     r = -1 \<and> (w' = w \<or> w' = w\<lparr>wallpaper_tree := None\<rparr>)" by blast
  have "good E w0 w'"
  proof (rule good_acquire [OF g])
    show "startup E w'" using sh
    proof (elim disjE conjE exE)
      fix t src cs assume "w' = w\<lparr>wallpaper_tree := Some t, calls := calls w @ cs,
        g_wallpaper_state := Some \<lparr>src_image = src, wp_outputs = []\<rparr>\<rparr>"
      with g show ?thesis by (simp add: good_def startup_def)
    qed (use g in \<open>simp_all add: good_def startup_def\<close>)
    show "settles {#} w (opt_object K_node (if r = 0 then wallpaper_tree w' else None) +
        wallpaper_objects (if r = 0 then g_wallpaper_state w' else None)) w'"
      by (rule wallpaper_init_settles [OF run off(1)])
    show "comp_objects w' = opt_object K_node (if r = 0 then wallpaper_tree w' else None) +
        wallpaper_objects (if r = 0 then g_wallpaper_state w' else None) + comp_objects w"
      using sh
    proof (elim disjE conjE exE)
      fix t src cs assume "r = 0" "w' = w\<lparr>wallpaper_tree := Some t, calls := calls w @ cs,
        g_wallpaper_state := Some \<lparr>src_image = src, wp_outputs = []\<rparr>\<rparr>"
      with off show ?thesis by (auto simp: objects_defs wallpaper_objects_def ac_simps)
    qed (use off in \<open>simp_all add: wallpaper_objects_def objects_defs split: option.split\<close>)
    show "zouts w' = zouts w" using sh by (elim disjE conjE exE) simp_all
  qed
  moreover have "todo 5 w'" if "r = 0"
  proof -
    from sh that obtain tr src cs where "w' = w\<lparr>wallpaper_tree := Some tr, calls := calls w @ cs,
        g_wallpaper_state := Some \<lparr>src_image = src, wp_outputs = []\<rparr>\<rparr>" by auto
    with t show ?thesis by (simp add: todo_def)
  qed
  ultimately show "\<exists>w' ok. stage_wallpaper E w = Some (w', ok) \<and> good E w0 w' \<and> (ok \<longrightarrow> todo (Suc 4) w')"
    using run by (intro exI [of _ w'] exI [of _ "r = 0"]) (simp add: stage_wallpaper_def)
qed

text \<open>The keybindings; the file, if there is one, must not end in a separator.\<close>

definition config_firm :: "kb_env \<Rightarrow> bool" where
  "config_firm K \<longleftrightarrow> (\<forall>home f. getenv_HOME K = Some home \<longrightarrow> kb_fopen K (config_path home) = Some f \<longrightarrow>
     ends_firmly (c_str (cf_fread f (cf_ftell f))))"

lemma register_defaults_shape:
  "keybindings w = Some bs \<Longrightarrow>
   \<exists>k r. register_defaults K i ds w = Some (w\<lparr>keybindings := Some k\<rparr>, r) \<and> (r = 0 \<or> r = -1)"
proof (induction ds arbitrary: i w bs)
  case Nil
  then have "w\<lparr>keybindings := Some bs\<rparr> = w" by simp
  with Nil show ?case by (intro exI [of _ bs] exI [of _ 0]) simp
next
  case (Cons d ds)
  obtain m k a where d: "d = (m, k, a)" by (cases d)
  show ?case
  proof (cases "kb_default_ok K i")
    case True
    let ?w = "w\<lparr>keybindings := Some (bs @ [\<lparr>modifiers = m, keysym = k, action = a, custom_cmd = None\<rparr>])\<rparr>"
    have "keybindings ?w = Some (bs @ [\<lparr>modifiers = m, keysym = k, action = a, custom_cmd = None\<rparr>])" by simp
    from Cons.IH [OF this, of "Suc i"] True Cons.prems show ?thesis
      by (auto simp: d register_binding_def wl_list_append_def)
  next
    case False
    with Cons.prems show ?thesis
      by (simp add: d register_binding_def zen_keybinds_destroy_def) blast
  qed
qed

lemma keybinds_init_shape:
  assumes "config_firm K"
  shows "\<exists>k r. zen_keybinds_init K CPTR w = Some (w\<lparr>keybindings := Some k\<rparr>, r)"
proof -
  have "keybindings (w\<lparr>keybindings := Some []\<rparr>) = Some []" by simp
  from register_defaults_shape [OF this, of K 0 default_bindings] obtain k r where
    reg: "register_defaults K 0 default_bindings (w\<lparr>keybindings := Some []\<rparr>) = Some (w\<lparr>keybindings := Some k\<rparr>, r)"
    by auto
  show ?thesis
  proof (cases "r = 0 \<and> getenv_HOME K \<noteq> None")
    case False
    with reg show ?thesis by (auto simp: zen_keybinds_init_def wl_list_init_def)
  next
    case True
    then obtain home where home: "getenv_HOME K = Some home" by blast
    let ?w = "w\<lparr>keybindings := Some k\<rparr>"
    have "zen_keybinds_load_config K CPTR (Some (config_path home)) ?w \<noteq> None"
      by (rule load_config_total) (use assms home in \<open>auto simp: config_firm_def\<close>)
    then obtain w' rc where l: "zen_keybinds_load_config K CPTR (Some (config_path home)) ?w = Some (w', rc)" by auto
    from load_config_appends [OF l, of k] obtain new where "w' = w\<lparr>keybindings := Some (k @ new)\<rparr>"
      by (auto simp: appends_def)
    with l reg True home show ?thesis by (simp add: zen_keybinds_init_def wl_list_init_def) blast
  qed
qed

lemma stage_keybinds_ok:
  assumes "config_firm (c_keybinds E)"
  shows "stage_ok E 5 (stage_keybinds E)"
proof (rule stage_okI)
  fix w0 w assume g: "good E w0 w" and t: "todo 5 w"
  from keybinds_init_shape [OF assms, of w] obtain k r where
    run: "zen_keybinds_init (c_keybinds E) CPTR w = Some (w\<lparr>keybindings := Some k\<rparr>, r)" by blast
  let ?w = "w\<lparr>keybindings := Some k\<rparr>"
  have "good E w0 ?w"
    by (rule good_acquire [OF g, where A = "{#}"])
      (use g in \<open>simp_all add: good_def startup_def settles_refl objects_defs split: option.split\<close>)
  moreover have "todo 6 ?w" using t by (simp add: todo_def)
  ultimately show "\<exists>w' ok. stage_keybinds E w = Some (w', ok) \<and> good E w0 w' \<and> (ok \<longrightarrow> todo (Suc 5) w')"
    using run by (intro exI [of _ ?w] exI [of _ "r = 0"]) (simp add: stage_keybinds_def)
qed

lemma stage_layer_ok: "stage_ok E 6 (stage_layer E)"
proof (rule stage_okI)
  fix w0 w assume g: "good E w0 w" and t: "todo 6 w"
  have k: "good E w0 w'" if "w' = w\<lparr>layer_surfaces := Some [], layer_shell := x, lregs := L\<rparr>"
    "L = lregs w \<or> L = lregs w @ [(Of_Compositor, L_new_layer_surface)]" for w' x L
  proof (rule good_acquire [OF g, where A = "{#}"])
    show "startup E w'" using g t that by (auto simp: good_def startup_def todo_def)
  qed (use that in \<open>simp_all add: settles_refl objects_defs split: option.split\<close>)
  show "\<exists>w' ok. stage_layer E w = Some (w', ok) \<and> good E w0 w' \<and> (ok \<longrightarrow> todo (Suc 6) w')"
  proof (cases "ly_shell_create (c_layer E)")
    case None
    let ?w = "w\<lparr>layer_surfaces := Some [], layer_shell := None\<rparr>"
    have "stage_layer E w = Some (?w, False)"
      by (simp add: stage_layer_def zen_layer_init_def None wl_list_init_def)
    moreover have "good E w0 ?w" by (rule k [where x = None and L = "lregs w"]) simp_all
    ultimately show ?thesis by (rule stage_result) simp
  next
    case (Some x)
    let ?w = "w\<lparr>layer_surfaces := Some [], layer_shell := Some x, lregs := lregs w @ [(Of_Compositor, L_new_layer_surface)]\<rparr>"
    from t Some have "stage_layer E w = Some (?w, True)"
      by (simp add: stage_layer_def zen_layer_init_def todo_def wl_list_init_def listen_def)
    moreover have "todo 7 ?w" using t by (simp add: todo_def)
    moreover have "good E w0 ?w" by (rule k [OF refl]) simp
    ultimately show ?thesis by (intro stage_result) simp_all
  qed
qed

lemma stage_dbus_ok: "stage_ok E 7 (stage_dbus E)"
proof (rule stage_okI)
  fix w0 w assume g: "good E w0 w" and t: "todo 7 w"
  from t have off: "bus w = None" "dbus_slot w = None" "dbus_event_source w = None" "wl_display w \<noteq> None"
    by (simp_all add: todo_def)
  from connect_init [OF off, of "c_dbus E"] obtain w' r where run: "zen_dbus_init (c_dbus E) w = Some (w', r)"
    and w': "dbus_frame w w'" "settles {#} w (dbus_objects w') w'" by (auto simp: connected_def)
  from w'(1) obtain b s e c where eq: "w' = w\<lparr>bus := b, dbus_slot := s, dbus_event_source := e, calls := c\<rparr>"
    unfolding dbus_frame_def by blast
  have "good E w0 w'"
  proof (rule good_acquire [OF g _ w'(2)])
    show "startup E w'" using g eq by (simp add: good_def startup_def)
    show "comp_objects w' = dbus_objects w' + comp_objects w"
      using off(1-3) by (simp add: eq objects_defs ac_simps split: option.split)
    show "zouts w' = zouts w" by (simp add: eq)
  qed
  moreover have "todo 8 w'" using t by (simp add: eq todo_def)
  ultimately show "\<exists>w' ok. stage_dbus E w = Some (w', ok) \<and> good E w0 w' \<and> (ok \<longrightarrow> todo (Suc 7) w')"
    using run by (intro exI [of _ w'] exI [of _ True]) (simp add: stage_dbus_def)
qed

text \<open>The lock, with its timer and, where systemd is there, the signal's slot.\<close>

lemma stage_lock_ok: "stage_ok E 8 (stage_lock E)"
proof (rule stage_okI)
  fix w0 w assume g: "good E w0 w" and t: "todo 8 w"
  let ?K = "c_lock E"
  let ?sd = "have_systemd ?K"
  from t have off: "s_idle_timer w = None" "s_lock_signal_slot w = None" "(Of_Module, L_new_lock) \<notin> set (lregs w)"
    "wl_display w \<noteq> None" by (simp_all add: todo_def)
  show "\<exists>w' ok. stage_lock E w = Some (w', ok) \<and> good E w0 w' \<and> (ok \<longrightarrow> todo (Suc 8) w')"
  proof (cases "mgr_create ?K")
    case None
    let ?w' = "w\<lparr>s_lock := empty_lock_screen, s_password := replicate 256 NUL, s_password_len := 0,
      s_idle_timer := None, lock_mgr := None, s_lock_signal_slot := None, locked := False, active_lock := None\<rparr>"
    have "stage_lock E w = Some (?w', False)"
      using None off by (auto simp: stage_lock_def zen_lock_init_def zen_lock_destroy_def free_lock_buffer_def
          wipe_password_def empty_lock_screen_def Let_def emits_def)
    moreover have "good E w0 ?w'"
    proof (rule good_acquire [OF g, where A = "{#}"])
      show "startup E ?w'" using g by (simp add: good_def startup_def empty_lock_screen_def)
    qed (use off in \<open>simp_all add: settles_refl objects_defs split: option.split\<close>)
    ultimately show ?thesis by (rule stage_result) simp
  next
    case (Some m)
    define sig where "sig \<longleftrightarrow> ?sd \<and> bus w \<noteq> None \<and> fst (match_signal ?K) \<ge> 0"
    define slot where "slot = (if sig then snd (match_signal ?K) else None)"
    let ?cs = "(case add_timer ?K of None \<Rightarrow> [] | Some t \<Rightarrow> [Acquire K_timer t, Timer_update t ZEN_LOCK_IDLE_TIMEOUT_MS]) @
      (case slot of None \<Rightarrow> [] | Some s \<Rightarrow> [Acquire K_slot s])"
    let ?w' = "w\<lparr>s_lock := empty_lock_screen, s_password := replicate 256 NUL, s_password_len := 0,
      s_idle_timer := add_timer ?K, lock_mgr := Some m, lregs := lregs w @ [(Of_Module, L_new_lock)],
      s_lock_signal_slot := slot, calls := calls w @ ?cs\<rparr>"
    have "stage_lock E w = Some (?w', True)"
    proof -
      obtain dp where dp: "wl_display w = Some dp" using off(4) by blast
      let ?v = "w\<lparr>s_lock := empty_lock_screen, s_password := replicate 256 NUL, s_password_len := 0,
        s_idle_timer := add_timer ?K, lock_mgr := Some m, lregs := lregs w @ [(Of_Module, L_new_lock)],
        calls := calls w @ (case add_timer ?K of None \<Rightarrow> [] | Some t \<Rightarrow>
          [Acquire K_timer t, Timer_update t ZEN_LOCK_IDLE_TIMEOUT_MS])\<rparr>"
      have "zen_lock_init ?K CPTR w = Some (if sig
          then (emits (case snd (match_signal ?K) of None \<Rightarrow> [] | Some s \<Rightarrow> [Acquire K_slot s]) ?v)
            \<lparr>s_lock_signal_slot := snd (match_signal ?K)\<rparr> else ?v, 0)"
        unfolding zen_lock_init_def Let_def sig_def
        by (cases "add_timer ?K"; cases "bus w") (simp_all add: Some dp off(1-3) wipe_password_def emits_def listen_def)
      then show ?thesis unfolding stage_lock_def
        by (cases sig; cases "snd (match_signal ?K)") (simp_all add: slot_def emits_def off(2))
    qed
    moreover have "good E w0 ?w'"
    proof (rule good_acquire [OF g, where A = "opt_object K_timer (add_timer ?K) + opt_object K_slot slot"])
      show "startup E ?w'" using g off(3) by (auto simp: good_def startup_def empty_lock_screen_def slot_def sig_def)
      show "settles {#} w (opt_object K_timer (add_timer ?K) + opt_object K_slot slot) ?w'"
        by (rule settles_tally [where cs = ?cs]) (auto simp: add_mset_commute split: option.split)
      show "comp_objects ?w' = opt_object K_timer (add_timer ?K) + opt_object K_slot slot + comp_objects w"
        using off by (simp add: objects_defs ac_simps split: option.split)
    qed simp
    moreover have "todo 9 ?w'" using t by (simp add: todo_def)
    ultimately show ?thesis by (intro stage_result) simp_all
  qed
qed

lemma stage_shell_ok: "stage_ok E 9 (stage_shell E)"
proof (rule stage_okI)
  fix w0 w assume g: "good E w0 w" and t: "todo 9 w"
  let ?w = "w\<lparr>shell := c_shell E\<rparr>"
  have "good E w0 ?w"
    by (rule good_acquire [OF g, where A = "{#}"])
      (use g in \<open>simp_all add: good_def startup_def settles_refl objects_defs split: option.split\<close>)
  moreover have "todo 10 ?w" using t by (simp add: todo_def)
  moreover have "stage_shell E w = Some (?w, c_shell E \<noteq> None)" by (simp add: stage_shell_def zen_shell_init_def Let_def)
  ultimately show "\<exists>w' ok. stage_shell E w = Some (w', ok) \<and> good E w0 w' \<and> (ok \<longrightarrow> todo (Suc 9) w')"
    by (intro stage_result) simp_all
qed

lemma create_modules_ok:
  assumes "config_firm (c_keybinds E)" "good E w0 w" "todo 1 w"
  shows "\<exists>w' ok. create_modules E w = Some (w', ok) \<and> good E w0 w' \<and> (ok \<longrightarrow> todo 10 w')"
proof -
  let ?ss = "[stage_xdg E, stage_input E, stage_overlay E, stage_wallpaper E,
     stage_keybinds E, stage_layer E, stage_dbus E, stage_lock E, stage_shell E]"
  have "stage_ok E (1 + i) (?ss ! i)" if "i < length ?ss" for i
  proof -
    from that have "i \<in> {0, 1, 2, 3, 4, 5, 6, 7, 8}" by auto
    then show ?thesis
      using stage_xdg_ok stage_input_ok stage_overlay_ok stage_wallpaper_ok stage_keybinds_ok [OF assms(1)]
        stage_layer_ok stage_dbus_ok stage_lock_ok stage_shell_ok by (elim insertE) (simp_all add: eval_nat_numeral)
  qed
  from run_stages_ok [OF this assms(2,3)] show ?thesis unfolding create_modules_def by (simp add: eval_nat_numeral)
qed

section \<open>The core\<close>

text \<open>The compositor is a local variable of \<open>main\<close>: what it holds before \<open>memset\<close> is arbitrary.\<close>

definition stack_world :: "ZenCompositor \<Rightarrow> ptr \<Rightarrow> world" where
  "stack_world junk s = (ZenCompositor.extend junk (ZenCompositor.more zero_world))\<lparr>shell := s\<rparr>"

lemma memset_stack: "memset_compositor (stack_world junk s) = zero_world"
  by (simp add: memset_compositor_def stack_world_def zero_world_def ZenCompositor.defs)

lemma stack_world_calls [simp]: "calls (stack_world junk s) = []"
  by (simp add: stack_world_def zero_world_def ZenCompositor.defs)

definition acquire_opt :: "kind \<Rightarrow> ptr \<Rightarrow> call list" where
  "acquire_opt k p = (case p of None \<Rightarrow> [] | Some a \<Rightarrow> [Acquire k a])"

lemma acquire_opt_simps [simp]: "acquire_opt k None = []" "acquire_opt k (Some a) = [Acquire k a]"
  by (simp_all add: acquire_opt_def)

lemma accounts_acquire_opt: "accounts A (acquire_opt k p) (opt_object k p + A)"
  by (cases p) (simp_all add: accounts_acquire)

text \<open>The zeroed compositor with some of the core objects.\<close>

definition core_world :: "ptr \<Rightarrow> ptr \<Rightarrow> ptr \<Rightarrow> ptr \<Rightarrow> ptr \<Rightarrow> ptr \<Rightarrow> ptr \<Rightarrow> ptr \<Rightarrow> world" where
  "core_world d b r wc al sc ol sl = zero_world\<lparr>clear_color := ZEN_CLEAR_COLOR, wl_display := d, backend := b,
     renderer := r, wlr_comp := wc, allocator := al,
     calls := acquire_opt K_display d @ acquire_opt K_backend b @ acquire_opt K_renderer r @
       acquire_opt K_allocator al @ acquire_opt K_scene sc,
     scene := sc, output_layout := ol, scene_layout := sl\<rparr>"

lemma zero_world_fields:
  "wl_display zero_world = None" "backend zero_world = None" "renderer zero_world = None"
  "allocator zero_world = None" "scene zero_world = None" "output_layout zero_world = None"
  "scene_layout zero_world = None" "wlr_comp zero_world = None" "calls zero_world = []" "lregs zero_world = []"
  "zouts zero_world = Map.empty"
  by (simp_all add: zero_world_def)

lemma core_world_good: "good E zero_world (core_world d b r wc al sc ol sl)"
proof -
  let ?w = "core_world d b r wc al sc ol sl"
  have "startup E ?w" by (simp add: startup_def core_world_def zero_world_def)
  moreover have "comp_objects ?w = opt_object K_scene sc + (opt_object K_allocator al + (opt_object K_renderer r +
      (opt_object K_backend b + (opt_object K_display d + {#}))))"
    by (simp add: objects_defs core_world_def zero_world_def wallpaper_objects_def split: option.split)
  moreover have "accounts {#} (calls ?w) (opt_object K_scene sc + (opt_object K_allocator al +
      (opt_object K_renderer r + (opt_object K_backend b + (opt_object K_display d + {#})))))"
  proof -
    have "calls ?w = acquire_opt K_display d @ acquire_opt K_backend b @ acquire_opt K_renderer r @
       acquire_opt K_allocator al @ acquire_opt K_scene sc" by (simp add: core_world_def)
    then show ?thesis by (simp only:) (rule accounts_append [OF accounts_acquire_opt] accounts_acquire_opt)+
  qed
  ultimately show ?thesis by (auto simp: good_def settles_def zero_world_fields core_world_def)
qed

lemmas core_defs = create_core_def core_world_def emits_def zero_world_def

lemma create_core_ok:
  assumes "announced_ok (c_announced E)"
  shows "\<exists>w ok. create_core E (zero_world\<lparr>clear_color := ZEN_CLEAR_COLOR\<rparr>) = Some (w, ok) \<and>
    good E (zero_world\<lparr>zouts := zouts w\<rparr>) w \<and> (ok \<longrightarrow> todo 1 w \<and> dom (zouts w) = set (List.map_filter announced_addr (c_announced E)))"
    (is "\<exists>w ok. ?run = Some (w, ok) \<and> _")
proof -
  have fail: "\<exists>w ok. ?run = Some (w, ok) \<and> good E (zero_world\<lparr>zouts := zouts w\<rparr>) w \<and>
      (ok \<longrightarrow> todo 1 w \<and> dom (zouts w) = set (List.map_filter announced_addr (c_announced E)))"
    if "?run = Some (core_world d b r wc al sc ol sl, False)" for d b r wc al sc ol sl
  proof -
    let ?c = "core_world d b r wc al sc ol sl"
    have "zero_world\<lparr>zouts := zouts ?c\<rparr> = zero_world" by (simp add: core_world_def)
    with that core_world_good show ?thesis by auto
  qed
  consider "c_display E = None"
    | d where "c_display E = Some d" "c_backend E = None"
    | d b where "c_display E = Some d" "c_backend E = Some b" "c_renderer E = None"
    | d b r where "c_display E = Some d" "c_backend E = Some b" "c_renderer E = Some r" "c_wlr_comp E = None"
    | d b r wc where "c_display E = Some d" "c_backend E = Some b" "c_renderer E = Some r" "c_wlr_comp E = Some wc"
        "c_allocator E = None"
    | d b r wc al where "c_display E = Some d" "c_backend E = Some b" "c_renderer E = Some r" "c_wlr_comp E = Some wc"
        "c_allocator E = Some al" "c_scene E = None"
    | d b r wc al sc where "c_display E = Some d" "c_backend E = Some b" "c_renderer E = Some r" "c_wlr_comp E = Some wc"
        "c_allocator E = Some al" "c_scene E = Some sc" "c_output_layout E = None"
    | d b r wc al sc ol where "c_display E = Some d" "c_backend E = Some b" "c_renderer E = Some r" "c_wlr_comp E = Some wc"
        "c_allocator E = Some al" "c_scene E = Some sc" "c_output_layout E = Some ol" "c_scene_layout E = None"
    | d b r wc al sc ol sl where "c_display E = Some d" "c_backend E = Some b" "c_renderer E = Some r"
        "c_wlr_comp E = Some wc" "c_allocator E = Some al" "c_scene E = Some sc" "c_output_layout E = Some ol"
        "c_scene_layout E = Some sl"
    by (metis option.exhaust)
  then show ?thesis
  proof cases
    case 9
    let ?bg = "case c_background E of None \<Rightarrow> [] | Some bg \<Rightarrow> [Node (Rect_set_size bg 8192 8192)]"
    let ?v = "core_world (Some d) (Some b) (Some r) (Some wc) (Some al) (Some sc) (Some ol) (Some sl)"
    let ?u = "?v\<lparr>calls := calls ?v @ ?bg, lregs := [(Of_Compositor, L_new_output)]\<rparr>"
    have run: "?run = do { w \<leftarrow> backend_start (c_announced E) ?u; Some (w, c_start_ok E) }"
    proof (cases "c_background E")
      case None
      then have u: "?u = ?v\<lparr>lregs := [(Of_Compositor, L_new_output)]\<rparr>" by simp
      show ?thesis unfolding u using 9 None
        by (simp add: create_core_def core_world_def emits_def listen_def zero_world_fields)
    next
      case (Some bg)
      with 9 show ?thesis
        by (simp add: create_core_def core_world_def emits_def listen_def zero_world_fields)
    qed
    have g: "good E zero_world ?u"
    proof (rule good_acquire [OF core_world_good, where A = "{#}"])
      show "startup E ?u" by (simp add: startup_def core_world_def zero_world_def)
      show "settles {#} ?v {#} ?u" by (rule settles_tally [where cs = ?bg]) (simp_all split: option.split)
      show "comp_objects ?u = {#} + comp_objects ?v" by (simp add: objects_defs split: option.split)
    qed simp
    have "bare ?u" by (simp add: bare_def core_world_def zero_world_def)
    moreover have "zouts ?u = Map.empty" by (simp add: core_world_def zero_world_def)
    ultimately obtain x where x: "backend_start (c_announced E) ?u = Some x" "startup E x"
      "outputs_added (List.map_filter announced_addr (c_announced E)) ?u x"
      using backend_start_bare [OF _ _ assms, of ?u E] g by (auto simp: good_def)
    from x(3) obtain Z L cs where eq: "x = ?u\<lparr>zouts := Z, lregs := L, calls := calls ?u @ cs\<rparr>"
      "accounts {#} cs {#}" "dom Z = dom (zouts ?u) \<union> set (List.map_filter announced_addr (c_announced E))"
      "\<forall>ow f. (\<forall>a. ow \<noteq> Of_Output a) \<longrightarrow> (ow, f) \<in> set L \<longleftrightarrow> (ow, f) \<in> set (lregs ?u)"
      unfolding outputs_added_def by blast
    let ?z = "zero_world\<lparr>zouts := zouts x\<rparr>"
    have "settles {#} ?u {#} x" using eq(1,2) by (auto simp: settles_def)
    from settles_frame [OF this, of "comp_objects ?u"] have "settles (comp_objects ?u) ?u (comp_objects ?u) x"
      by (simp only: add_0)
    moreover have "comp_objects x = comp_objects ?u" unfolding eq(1) by (simp add: objects_defs split: option.split)
    ultimately have "settles (comp_objects ?u) ?u (comp_objects x) x" by (simp only:)
    moreover have "settles {#} zero_world (comp_objects ?u) ?u" using g unfolding good_def by (elim conjE)
    ultimately have "settles {#} zero_world (comp_objects x) x" by (rule settles_trans [rotated])
    then have "good E ?z x" using x(2) by (simp add: good_def settles_def)
    moreover have "todo 1 x" using eq(4) unfolding eq(1)
      by (simp add: todo_def core_world_def zero_world_def input_listeners_def)
    moreover have "dom (zouts x) = set (List.map_filter announced_addr (c_announced E))"
      using eq(1,3) by (simp add: core_world_def zero_world_fields)
    ultimately show ?thesis using run x(1) by simp
  next
    case 1
    then show ?thesis
      by (intro fail [of None None None None None None None None]) (simp add: core_defs)
  next
    case 2
    then show ?thesis
      by (intro fail [of "Some d" None None None None None None None]) (simp add: core_defs)
  next
    case 3
    then show ?thesis
      by (intro fail [of "Some d" "Some b" None None None None None None]) (simp add: core_defs)
  next
    case 4
    then show ?thesis
      by (intro fail [of "Some d" "Some b" "Some r" None None None None None]) (simp add: core_defs)
  next
    case 5
    then show ?thesis
      by (intro fail [of "Some d" "Some b" "Some r" "Some wc" None None None None]) (simp add: core_defs)
  next
    case 6
    then show ?thesis
      by (intro fail [of "Some d" "Some b" "Some r" "Some wc" "Some al" None None None]) (simp add: core_defs)
  next
    case 7
    then show ?thesis
      by (intro fail [of "Some d" "Some b" "Some r" "Some wc" "Some al" "Some sc" None None]) (simp add: core_defs)
  next
    case 8
    then show ?thesis
      by (intro fail [of "Some d" "Some b" "Some r" "Some wc" "Some al" "Some sc" "Some ol" None]) (simp add: core_defs)
  qed
qed

section \<open>Both\<close>

lemma compositor_create_outcome:
  assumes "announced_ok (c_announced E)" "config_firm (c_keybinds E)"
  shows "\<exists>w r. zen_compositor_create E (stack_world junk s) = Some (w, r) \<and>
    (r = 0 \<and> good E (zero_world\<lparr>zouts := zouts w\<rparr>) w \<and> todo 10 w \<and>
       dom (zouts w) = set (List.map_filter announced_addr (c_announced E)) \<or>
     r = -1 \<and> settles {#} zero_world {#} w)"
proof -
  from create_core_ok [OF assms(1)] obtain v ok where
    core: "create_core E (zero_world\<lparr>clear_color := ZEN_CLEAR_COLOR\<rparr>) = Some (v, ok)"
    and v: "good E (zero_world\<lparr>zouts := zouts v\<rparr>) v"
      "ok \<longrightarrow> todo 1 v \<and> dom (zouts v) = set (List.map_filter announced_addr (c_announced E))" by blast
  obtain u ok' where mods: "(if ok then create_modules E v else Some (v, False)) = Some (u, ok')"
    and u: "good E (zero_world\<lparr>zouts := zouts v\<rparr>) u" "ok' \<longrightarrow> ok \<and> todo 10 u"
    using create_modules_ok [OF assms(2) v(1)] v by (cases ok) auto
  have same: "zouts u = zouts v" using u(1) by (simp add: good_def)
  have run: "zen_compositor_create E (stack_world junk s) =
      (if ok' then Some (u, 0) else do { w \<leftarrow> zen_compositor_destroy E CPTR u; Some (w, -1) })"
    using mods by (simp add: zen_compositor_create_def memset_stack core)
  show ?thesis
  proof (cases ok')
    case True
    with run u v(2) same show ?thesis by simp
  next
    case False
    from u(1) have st: "startup E u" "settles {#} zero_world (comp_objects u) u" by (auto simp: good_def settles_def)
    from destroy_startup [OF st(1)] obtain w' where
      "zen_compositor_destroy E CPTR u = Some w'" "settles (comp_objects u) u {#} w'" by metis
    with run False settles_trans [OF st(2)] show ?thesis by auto
  qed
qed

end
