(* ===== verification/Zen_Main_Props.thy ===== *)
theory Zen_Main_Props
  imports Zen_Main_Create
begin

text \<open>
  Properties of the lifecycle: the compositor can be destroyed in every state creation goes
  through, creation returns whatever the libraries answer and gives everything back when it
  fails, and what the order of its steps means for the first outputs, for the stacking of the
  scene and for shutdown.
\<close>

section \<open>Creation and destruction\<close>

text \<open>
  C11. Creating the compositor, whatever the libraries answer at any of its nineteen steps and
  whatever outputs and devices the backend announces while it starts: the code never faults.
  On success it holds exactly the objects its fields point to; on failure it returns \<open>-1\<close> and
  has given back every object it had acquired. What the variable held before does not matter.
  The outside must give each announced output its own memory and a scene output, and the
  configuration file must not end where the parser reads on.
\<close>

theorem create_all_or_nothing:
  assumes "announced_ok (c_announced E)" "config_firm (c_keybinds E)"
  shows "\<exists>w r. zen_compositor_create E (stack_world junk s) = Some (w, r) \<and>
    (if r = 0 then wl_display w \<noteq> None \<and> backend w \<noteq> None \<and> scene w \<noteq> None \<and>
       settles {#} (stack_world junk s) (comp_objects w) w
     else r = -1 \<and> settles {#} (stack_world junk s) {#} w)"
proof -
  from compositor_create_outcome [OF assms, of junk s] obtain w r where
    c: "zen_compositor_create E (stack_world junk s) = Some (w, r)"
    and o: "r = 0 \<and> good E (zero_world\<lparr>zouts := zouts w\<rparr>) w \<and> todo 10 w \<or> r = -1 \<and> settles {#} zero_world {#} w"
    by blast
  from o have "if r = 0 then wl_display w \<noteq> None \<and> backend w \<noteq> None \<and> scene w \<noteq> None \<and>
       settles {#} (stack_world junk s) (comp_objects w) w
     else r = -1 \<and> settles {#} (stack_world junk s) {#} w"
    by (auto simp: good_def todo_def settles_def zero_world_fields)
  with c show ?thesis by blast
qed



text \<open>
  C35. The first outputs and devices are missed: \<open>wlr_backend_start\<close> announces them in step 10,
  but the wallpaper, the overlay and the listener for input devices come later. When creation
  succeeds every announced output is there, and none has a wallpaper, there is no overlay and
  no keyboard, whatever was announced.
\<close>

theorem first_outputs_stay_bare:
  assumes "announced_ok (c_announced E)" "config_firm (c_keybinds E)"
    and "zen_compositor_create E (stack_world junk s) = Some (w, 0)"
  shows "dom (zouts w) = set (List.map_filter announced_addr (c_announced E)) \<and> test_overlay w = None \<and>
    (\<forall>st. g_wallpaper_state w = Some st \<longrightarrow> wp_outputs st = []) \<and> kbds w = Map.empty"
  using compositor_create_outcome [OF assms(1,2), of junk s] assms(3) by (auto simp: good_def startup_def)

section \<open>Shutting down with a window open\<close>

lemma toplevel_destroy_listener_iff: "toplevel_destroy_listener l = Some a \<longleftrightarrow> l = (Of_Toplevel a, L_destroy)"
  by (cases l rule: toplevel_destroy_listener.cases) auto

lemma end_windows_freed:
  assumes "tops w = Map.empty" "as \<noteq> []"
  shows "end_windows E as w = None"
  using assms by (cases as) (auto simp: handle_toplevel_unmap_def handle_toplevel_destroy_def)

text \<open>
  Shutting down while a window is open reads freed memory: \<open>zen_compositor_destroy\<close> frees the
  toplevels first and leaves their listeners linked, so that \<open>wl_display_destroy_clients\<close> calls
  them. The code around it is in order: nothing is drawn, no panel is open.
\<close>

theorem shutdown_with_window_faults:
  assumes "idle_desktop w" "xdg_wf w" "tops w a = Some t" "wl_display w \<noteq> None"
  shows "zen_compositor_destroy E CPTR w = None"
proof -
  from destroy_before_xdg [OF assms(1), of E] obtain v where run: "destroy_modules E w = zen_xdg_destroy CPTR v"
    and v: "toplevels v = toplevels w" "tops v = tops w" "wl_display v = wl_display w"
      "lregs v = filter (\<lambda>l. l \<notin> Pair Of_Compositor ` set input_listeners) (lregs w)" by auto
  from assms(2) obtain l where l: "toplevels w = Some l" "distinct l" "set l = dom (tops w)" by (rule xdg_wf_list)
  have "(Of_Toplevel a, L_destroy) \<in> set (lregs v)"
    using xdg_wf_lregs(2) [OF assms(2), of a L_destroy] assms(3) v(4) by (auto simp: toplevel_listeners_def)
  moreover have "free_toplevels l v = Some (v\<lparr>toplevels := Some [], tops := Map.empty\<rparr>)"
    using free_toplevels_effect [of v l] l v(1,2) by (simp add: fun_eq_iff domIff)
  ultimately obtain u where u: "zen_xdg_destroy CPTR v = Some u" "tops u = Map.empty" "wl_display u = wl_display v"
    "(Of_Toplevel a, L_destroy) \<in> set (lregs u)"
    using l(1) v(1)
    by (cases "(Of_Compositor, L_new_xdg_toplevel) \<in> set (lregs v)")
      (auto simp: zen_xdg_destroy_def unlisten_def Let_def in_set_remove1)
  let ?as = "List.map_filter toplevel_destroy_listener (lregs u)"
  have "a \<in> set ?as" using u(4) by (force simp: List.map_filter_def toplevel_destroy_listener_iff)
  then have "end_windows E ?as u = None" using u(2) by (intro end_windows_freed) auto
  then show ?thesis using run u assms(4) v(3)
    by (simp add: zen_compositor_destroy_def destroy_core_def wl_display_destroy_clients_def)
qed

section \<open>Stacking\<close>

text \<open>
  The children of the scene's root are drawn in their order, the last on top. The only calls
  of the compositor that change the order of existing ones raise a node to the top.
\<close>

fun raised_node :: "call \<Rightarrow> ptr" where
  "raised_node (Node (Raise_to_top n)) = Some n"
| "raised_node _ = None"

definition raised :: "call list \<Rightarrow> addr list" where
  "raised cs = List.map_filter raised_node cs"


lemma raised_simps [simp]:
  "raised [] = []" "raised (c # cs) = (case raised_node c of None \<Rightarrow> [] | Some n \<Rightarrow> [n]) @ raised cs"
  "raised (as @ bs) = raised as @ raised bs"
  by (simp_all add: raised_def List.map_filter_def split: option.split)

lemma raised_none: "list_all (\<lambda>c. raised_node c = None) cs \<Longrightarrow> raised cs = []"
  by (induction cs) simp_all

lemma raised_release_opt [simp]: "raised (release_opt k p) = []"
  by (cases p) simp_all

lemma raised_draws [simp]: "raised (map Draw ds) = []"
  by (induction ds) simp_all

lemma raised_buffer_releases [simp]: "raised (buffer_releases b) = []"
  by (simp add: buffer_releases_def)










section \<open>Witnesses\<close>

text \<open>A backend with one output and one keyboard, announced while it starts.\<close>

definition demo_output :: out_env where
  "demo_output = \<lparr>o_mode = None, o_calloc = Some 7, o_scene_output = Some 9, o_wallpaper = demo_wo,
     o_overlay = Some 71, o_cairo = cairo_env_ok, o_text_size = (80, 20)\<rparr>"

definition demo_comp :: comp_env where
  "demo_comp = \<lparr>c_display = Some 1, c_backend = Some 2, c_renderer = Some 3, c_wlr_comp = Some 4,
     c_allocator = Some 5, c_scene = Some 6, c_output_layout = Some 10, c_scene_layout = Some 11,
     c_background = Some 12, c_announced = [New_output demo_output 8, New_input demo_in WLR_INPUT_DEVICE_KEYBOARD 44],
     c_start_ok = True, c_xdg = demo_xdg, c_input = demo_in, c_overlay_tree = Some 13, c_wallpaper = demo_wp,
     c_keybinds = (demo_kb [])\<lparr>getenv_HOME := None\<rparr>, c_layer = demo_layer_env, c_dbus = name_taken,
     c_lock = demo_env, c_shell = Some 14, c_socket = Some ''wayland-0'', c_serial_ok = True,
     c_mapped = (\<lambda>_. True)\<rparr>"

lemma demo_comp_ok: "announced_ok (c_announced demo_comp)" "config_firm (c_keybinds demo_comp)"
  by (simp_all add: demo_comp_def announced_ok_def config_firm_def demo_output_def map_filter_simps)

definition demo_start :: world where
  "demo_start = stack_world (ZenCompositor.truncate (demo_seat demo_windows)) (Some 77)"

lemma demo_created: "map_option snd (zen_compositor_create demo_comp demo_start) = Some 0"
  by code_simp

theorem create_all_or_nothing_witness:
  "\<exists>w r. zen_compositor_create demo_comp demo_start = Some (w, r) \<and>
    (if r = 0 then wl_display w \<noteq> None \<and> backend w \<noteq> None \<and> scene w \<noteq> None \<and>
       settles {#} demo_start (comp_objects w) w
     else r = -1 \<and> settles {#} demo_start {#} w)"
  unfolding demo_start_def by (rule create_all_or_nothing [OF demo_comp_ok])


theorem first_outputs_stay_bare_witness:
  "\<exists>w. zen_compositor_create demo_comp demo_start = Some (w, 0) \<and> dom (zouts w) = {7} \<and>
     test_overlay w = None \<and> kbds w = Map.empty"
proof -
  from demo_created obtain w where w: "zen_compositor_create demo_comp demo_start = Some (w, 0)" by auto
  from first_outputs_stay_bare [OF demo_comp_ok w [unfolded demo_start_def]] have
    "dom (zouts w) = set (List.map_filter announced_addr (c_announced demo_comp))"
    "test_overlay w = None" "kbds w = Map.empty" by simp_all
  with w show ?thesis by (simp add: demo_comp_def demo_output_def map_filter_simps)
qed

lemma demo_windows_idle: "idle_desktop demo_windows"
  using xdg_wf_lregs(1) [OF demo_windows_wf] by (simp add: idle_desktop_def demo_windows_def zero_world_def empty_lock_screen_def)

theorem shutdown_with_window_faults_witness:
  "zen_compositor_destroy demo_comp CPTR (demo_windows\<lparr>wl_display := Some 1\<rparr>) = None"
proof (rule shutdown_with_window_faults)
  show "idle_desktop (demo_windows\<lparr>wl_display := Some 1\<rparr>)" using demo_windows_idle by (simp add: idle_desktop_def)
  show "xdg_wf (demo_windows\<lparr>wl_display := Some 1\<rparr>)" by (rule xdg_wf_cong [OF _ _ _ _ _ _ demo_windows_wf]) simp_all
  show "tops (demo_windows\<lparr>wl_display := Some 1\<rparr>) 10 = Some (demo_window 10)" by (simp add: demo_windows_def)
qed simp




end
