(* ===== verification/Zen_Frame.thy ===== *)
theory Zen_Frame
  imports Zen_Main_Props
begin

text \<open>
  What the handlers of each module leave alone. A frame is a view of the world in which the
  fields of one module are blanked out; an operation keeps the frame when it changes nothing
  that is still visible. The rules of the locale follow the shape of the definitions, so that
  each handler's frame is proved by walking over its text once.
\<close>

section \<open>Keeping a frame\<close>

locale frame =
  fixes blank :: "world \<Rightarrow> 'v"
begin

definition keeps :: "(world \<Rightarrow> world option) \<Rightarrow> bool" where
  "keeps f \<longleftrightarrow> (\<forall>w w'. f w = Some w' \<longrightarrow> blank w' = blank w)"

text \<open>The same for operations that also return a value.\<close>

definition keeps_res :: "(world \<Rightarrow> (world \<times> 'r) option) \<Rightarrow> bool" where
  "keeps_res f \<longleftrightarrow> (\<forall>w w' r. f w = Some (w', r) \<longrightarrow> blank w' = blank w)"

lemma keepsD: "keeps f \<Longrightarrow> f w = Some w' \<Longrightarrow> blank w' = blank w"
  by (simp add: keeps_def)

lemma keeps_resD: "keeps_res f \<Longrightarrow> f w = Some (w', r) \<Longrightarrow> blank w' = blank w"
  by (simp add: keeps_res_def)

lemma keeps_None: "keeps (\<lambda>w. None)" "keeps_res (\<lambda>w. None)"
  by (simp_all add: keeps_def keeps_res_def)

lemma keeps_Some: "keeps Some"
  by (simp add: keeps_def)

lemma keeps_upd: "(\<And>w. blank (u w) = blank w) \<Longrightarrow> keeps (\<lambda>w. Some (u w))"
  "(\<And>w. blank (u w) = blank w) \<Longrightarrow> keeps_res (\<lambda>w. Some (u w, g w))"
  by (simp_all add: keeps_def keeps_res_def)

lemma keeps_bind:
  "keeps f \<Longrightarrow> keeps g \<Longrightarrow> keeps (\<lambda>w. Option.bind (f w) g)"
  "keeps f \<Longrightarrow> keeps_res h \<Longrightarrow> keeps_res (\<lambda>w. Option.bind (f w) h)"
  by (fastforce simp: keeps_def keeps_res_def bind_eq_Some_conv)+

lemma keeps_comp:
  "keeps f \<Longrightarrow> (\<And>w. blank (u w) = blank w) \<Longrightarrow> keeps (\<lambda>w. f (u w))"
  "keeps_res h \<Longrightarrow> (\<And>w. blank (u w) = blank w) \<Longrightarrow> keeps_res (\<lambda>w. h (u w))"
  by (auto simp: keeps_def keeps_res_def)

lemma keeps_arg: "(\<And>x. keeps_res (h x)) \<Longrightarrow> keeps_res (\<lambda>w. h (r w) w)"
  by (simp add: keeps_res_def)

lemma keeps_bind_res:
  "keeps_res k \<Longrightarrow> (\<And>r. keeps (\<lambda>w. g w r)) \<Longrightarrow> keeps (\<lambda>w. Option.bind (k w) (\<lambda>(w, r). g w r))"
  "keeps_res k \<Longrightarrow> (\<And>r. keeps_res (\<lambda>w. h w r)) \<Longrightarrow> keeps_res (\<lambda>w. Option.bind (k w) (\<lambda>(w, r). h w r))"
  by (fastforce simp: keeps_def keeps_res_def bind_eq_Some_conv)+

lemma keeps_read:
  "(\<And>x. keeps (g x)) \<Longrightarrow> keeps (\<lambda>w. Option.bind (r w) (\<lambda>x. g x w))"
  "(\<And>x. keeps_res (h x)) \<Longrightarrow> keeps_res (\<lambda>w. Option.bind (r w) (\<lambda>x. h x w))"
  by (auto simp: keeps_def keeps_res_def bind_eq_Some_conv)

lemma keeps_Let:
  "(\<And>w. blank (u w) = blank w) \<Longrightarrow> keeps g \<Longrightarrow> keeps (\<lambda>w. Let (u w) g)"
  "(\<And>w. blank (u w) = blank w) \<Longrightarrow> keeps_res h \<Longrightarrow> keeps_res (\<lambda>w. Let (u w) h)"
  by (auto simp: keeps_def keeps_res_def)

lemma keeps_Let_value:
  "(\<And>x. keeps (g x)) \<Longrightarrow> keeps (\<lambda>w. Let (v w) (\<lambda>x. g x w))"
  "(\<And>x. keeps_res (h x)) \<Longrightarrow> keeps_res (\<lambda>w. Let (v w) (\<lambda>x. h x w))"
  by (auto simp: keeps_def keeps_res_def)

lemma keeps_if:
  "keeps f \<Longrightarrow> keeps g \<Longrightarrow> keeps (\<lambda>w. if P w then f w else g w)"
  "keeps_res h \<Longrightarrow> keeps_res k \<Longrightarrow> keeps_res (\<lambda>w. if P w then h w else k w)"
  by (auto simp: keeps_def keeps_res_def)

lemma keeps_case_option:
  "keeps f \<Longrightarrow> (\<And>x. keeps (g x)) \<Longrightarrow> keeps (\<lambda>w. case r w of None \<Rightarrow> f w | Some x \<Rightarrow> g x w)"
  "keeps_res h \<Longrightarrow> (\<And>x. keeps_res (k x)) \<Longrightarrow> keeps_res (\<lambda>w. case r w of None \<Rightarrow> h w | Some x \<Rightarrow> k x w)"
  by (auto simp: keeps_def keeps_res_def split: option.splits)

lemma keeps_case_prod:
  "(\<And>x y. keeps (g x y)) \<Longrightarrow> keeps (\<lambda>w. case p w of (x, y) \<Rightarrow> g x y w)"
  "(\<And>x y. keeps_res (h x y)) \<Longrightarrow> keeps_res (\<lambda>w. case p w of (x, y) \<Rightarrow> h x y w)"
  by (auto simp: keeps_def keeps_res_def split: prod.splits)

lemmas keeps_rules = keeps_None keeps_Some keeps_bind keeps_bind_res keeps_upd keeps_Let keeps_if
  keeps_case_option keeps_case_prod keeps_read keeps_Let_value

end

text \<open>Frames in which the listeners of one kind of object are blanked out.\<close>

locale owner_frame = frame +
  fixes own :: "addr \<Rightarrow> owner"
  assumes link: "blank (w\<lparr>lregs := lregs w @ [(own a, f)]\<rparr>) = blank w"
    and unlink: "blank (w\<lparr>lregs := remove1 (own a, f) (lregs w)\<rparr>) = blank w"
begin

lemma keeps_listen_all: "keeps (listen_all (own a) fs)"
proof -
  have "listen_all (own a) fs w = Some w' \<Longrightarrow> blank w' = blank w" for w w'
    by (induction fs arbitrary: w)
      (auto simp: listen_def bind_eq_Some_conv link split: if_splits)
  then show ?thesis by (simp add: keeps_def)
qed

lemma keeps_unlisten_all: "keeps (unlisten_all (own a) fs)"
proof -
  have "unlisten_all (own a) fs w = Some w' \<Longrightarrow> blank w' = blank w" for w w'
    by (induction fs arbitrary: w)
      (auto simp: unlisten_def bind_eq_Some_conv unlink split: if_splits)
  then show ?thesis by (simp add: keeps_def)
qed

end

section \<open>The frames of the modules\<close>

definition not_of :: "(addr \<Rightarrow> owner) \<Rightarrow> listener \<Rightarrow> bool" where
  "not_of own l \<longleftrightarrow> (\<forall>a. fst l \<noteq> own a)"

lemma not_of_own [simp]: "\<not> not_of own (own a, f)"
  by (auto simp: not_of_def)

lemma filter_remove1: "\<not> P x \<Longrightarrow> filter P (remove1 x ls) = filter P ls"
  by (induction ls) auto

lemma activation_other [simp]:
  "activation (Draw d) s = s" "activation (Acquire k a) s = s" "activation (Release k a) s = s"
  "activation (Surface_flush a) s = s" "activation (Send_locked a) s = s" "activation (Timer_update a i) s = s"
  "activation (Proc p) s = s" "activation (Output out) s = s" "activation (Bus b) s = s"
  by (simp_all add: activation_def)

text \<open>Windows: the list, the heap, focus and grab.\<close>

definition no_windows :: "world \<Rightarrow> world" where
  "no_windows w = w\<lparr>toplevels := None, tops := Map.empty, focused_toplevel := None, grabbed_toplevel := None,
     grab_x := 0, grab_y := 0, grab_node_x := 0, grab_node_y := 0,
     lregs := filter (not_of Of_Toplevel) (lregs w), calls := []\<rparr>"

text \<open>
  The others show which windows are activated, so that keeping them is activating none.
\<close>

definition no_calls :: "world \<Rightarrow> world \<times> (addr \<Rightarrow> bool)" where
  "no_calls w = (w\<lparr>calls := []\<rparr>, activated (calls w))"

definition no_bufs :: "world \<Rightarrow> world \<times> (addr \<Rightarrow> bool)" where
  "no_bufs w = (w\<lparr>bufs := Map.empty, calls := []\<rparr>, activated (calls w))"

definition no_lock :: "world \<Rightarrow> world \<times> (addr \<Rightarrow> bool)" where
  "no_lock w = (w\<lparr>s_lock := empty_lock_screen, s_password := [], s_password_len := 0, locked := False,
     active_lock := None, bufs := Map.empty, calls := []\<rparr>, activated (calls w))"

definition no_keyboards :: "world \<Rightarrow> world \<times> (addr \<Rightarrow> bool)" where
  "no_keyboards w = (w\<lparr>keyboards := None, kbds := Map.empty,
     lregs := filter (not_of Of_Keyboard) (lregs w), calls := []\<rparr>, activated (calls w))"

definition no_layers :: "world \<Rightarrow> world \<times> (addr \<Rightarrow> bool)" where
  "no_layers w = (w\<lparr>layer_surfaces := None, lays := Map.empty,
     lregs := filter (not_of Of_Layer) (lregs w), calls := []\<rparr>, activated (calls w))"

definition no_outputs :: "world \<Rightarrow> world \<times> (addr \<Rightarrow> bool)" where
  "no_outputs w = (w\<lparr>zouts := Map.empty, g_wallpaper_state := None, test_overlay := None, bufs := Map.empty,
     lregs := filter (not_of Of_Output) (lregs w), calls := []\<rparr>, activated (calls w))"

interpretation win: owner_frame no_windows Of_Toplevel
  by unfold_locales (simp_all add: no_windows_def filter_remove1)

interpretation cal: frame no_calls .

interpretation cbuf: frame no_bufs .

interpretation lck: frame no_lock .

interpretation kbd: owner_frame no_keyboards Of_Keyboard
  by unfold_locales (simp_all add: no_keyboards_def filter_remove1)

interpretation lay: owner_frame no_layers Of_Layer
  by unfold_locales (simp_all add: no_layers_def filter_remove1)

interpretation outp: owner_frame no_outputs Of_Output
  by unfold_locales (simp_all add: no_outputs_def filter_remove1)

text \<open>What keeps a finer view keeps a coarser one.\<close>

lemma keeps_mono:
  assumes "\<And>w w'. fine w' = fine w \<Longrightarrow> coarse w' = coarse w"
  shows "frame.keeps fine f \<Longrightarrow> frame.keeps coarse f" "frame.keeps_res fine h \<Longrightarrow> frame.keeps_res coarse h"
  using assms unfolding frame.keeps_def frame.keeps_res_def by blast+

section \<open>Windows\<close>

lemma no_windows_simps [simp]:
  "no_windows (emits cs w) = no_windows w" "no_windows (w\<lparr>toplevels := l\<rparr>) = no_windows w"
  "no_windows (w\<lparr>tops := m\<rparr>) = no_windows w" "no_windows (w\<lparr>focused_toplevel := p\<rparr>) = no_windows w"
  "no_windows (cancel_grab a w) = no_windows w" "no_windows (release_grab w) = no_windows w"
  "no_windows (w\<lparr>grabbed_toplevel := p, grab_x := x, grab_y := y, grab_node_x := i, grab_node_y := j\<rparr>) = no_windows w"
  by (simp_all add: no_windows_def emits_def cancel_grab_def release_grab_def)

lemma focus_keeps: "win.keeps (zen_xdg_focus_toplevel E c p)"
  unfolding zen_xdg_focus_toplevel_def deactivate_prev_def seat_enter_def
  by (rule win.keeps_rules | simp split: option.split)+

lemmas win_rules = win.keeps_rules win.keeps_listen_all win.keeps_unlisten_all
  win.keeps_comp(1) [OF focus_keeps]

lemma free_toplevel_keeps: "win.keeps (free_toplevel a)"
  unfolding free_toplevel_def by (rule win_rules | simp split: option.split)+

lemma fill_output_keeps [simp]: "no_windows (fill_output E x h st out w) = no_windows w"
  by (simp add: fill_output_def split: option.split prod.split)

lemma toplevel_notify_keeps: "win.keeps (toplevel_notify E f a)"
  unfolding toplevel_notify_def handle_toplevel_map_def handle_toplevel_unmap_def handle_toplevel_commit_def
    handle_toplevel_destroy_def handle_toplevel_request_move_def handle_toplevel_request_resize_def
    handle_toplevel_request_maximize_def handle_toplevel_request_fullscreen_def
    handle_toplevel_set_title_def handle_toplevel_set_app_id_def
  by (rule win_rules free_toplevel_keeps | simp split: option.split)+

lemma new_toplevel_keeps: "win.keeps (handle_new_xdg_toplevel E x)"
  unfolding handle_new_xdg_toplevel_def
  by (rule win_rules | simp split: option.split)+

section \<open>Drawing buffers and the lock\<close>

text \<open>Calls that activate no window, one after the other.\<close>

lemma fold_activation_other:
  "fold activation (map Draw ds) s = s" "fold activation (release_opt k p) s = s"
  "fold activation (buffer_releases b) s = s"
proof -
  show draw: "fold activation (map Draw ds) s = s" by (induction ds) simp_all
  show rel: "fold activation (release_opt k p) s = s" for k p by (cases p) simp_all
  show "fold activation (buffer_releases b) s = s" by (simp add: buffer_releases_def rel)
qed

lemma emits_keep [simp]:
  "(\<And>s. fold activation cs s = s) \<Longrightarrow> no_calls (emits cs w) = no_calls w"
  "(\<And>s. fold activation cs s = s) \<Longrightarrow> no_bufs (emits cs w) = no_bufs w"
  "(\<And>s. fold activation cs s = s) \<Longrightarrow> no_lock (emits cs w) = no_lock w"
  "(\<And>s. fold activation cs s = s) \<Longrightarrow> no_keyboards (emits cs w) = no_keyboards w"
  "(\<And>s. fold activation cs s = s) \<Longrightarrow> no_layers (emits cs w) = no_layers w"
  "(\<And>s. fold activation cs s = s) \<Longrightarrow> no_outputs (emits cs w) = no_outputs w"
  by (simp_all add: no_calls_def no_bufs_def no_lock_def no_keyboards_def no_layers_def no_outputs_def
      emits_def activated_append)

lemma no_bufs_simps [simp]:
  "no_bufs (w\<lparr>bufs := m\<rparr>) = no_bufs w" "no_bufs (store_buf a cb w) = no_bufs w"
  by (simp_all add: no_bufs_def store_buf_def)

lemma cairo_submit_keeps: "cbuf.keeps_res (zen_cairo_buffer_submit p)"
  unfolding zen_cairo_buffer_submit_def
  by (rule cbuf.keeps_rules | simp split: option.split)+

lemma cairo_destroy_keeps: "cbuf.keeps (zen_cairo_buffer_destroy p)"
  unfolding zen_cairo_buffer_destroy_def
  by (rule cbuf.keeps_rules | simp add: fold_activation_other split: option.split)+

lemma cairo_cleanup_keeps: "cbuf.keeps_res (cairo_buffer_cleanup p)"
  unfolding cairo_buffer_cleanup_def by (rule cbuf.keeps_rules cairo_destroy_keeps | simp)+

lemma cairo_create_keeps: "cbuf.keeps_res (zen_cairo_buffer_create C p q wd ht)"
  unfolding zen_cairo_buffer_create_def
  by (rule cbuf.keeps_rules cbuf.keeps_comp(2) [OF cairo_cleanup_keeps] cairo_cleanup_keeps | simp)+

text \<open>A view of the others shows no buffers either.\<close>

lemma no_bufs_coarser:
  assumes "no_bufs w' = no_bufs w"
  shows "no_lock w' = no_lock w" "no_outputs w' = no_outputs w"
proof -
  have "no_lock v = (fst (no_lock (fst (no_bufs v))), snd (no_bufs v))"
    "no_outputs v = (fst (no_outputs (fst (no_bufs v))), snd (no_bufs v))" for v
    by (simp_all add: no_lock_def no_outputs_def no_bufs_def)
  with assms show "no_lock w' = no_lock w" "no_outputs w' = no_outputs w" by metis+
qed

lemmas lck_buffer_keeps = keeps_mono(2) [OF no_bufs_coarser(1) cairo_submit_keeps]
  keeps_mono(1) [OF no_bufs_coarser(1) cairo_destroy_keeps]
  keeps_mono(2) [OF no_bufs_coarser(1) cairo_create_keeps]

lemmas outp_buffer_keeps = keeps_mono(2) [OF no_bufs_coarser(2) cairo_submit_keeps]
  keeps_mono(2) [OF no_bufs_coarser(2) cairo_create_keeps]

lemma no_lock_simps [simp]:
  "no_lock (w\<lparr>s_lock := l\<rparr>) = no_lock w" "no_lock (w\<lparr>bufs := m\<rparr>) = no_lock w"
  "no_lock (w\<lparr>locked := b\<rparr>) = no_lock w" "no_lock (w\<lparr>active_lock := al\<rparr>) = no_lock w"
  "no_lock (w\<lparr>s_password := pw\<rparr>) = no_lock w" "no_lock (w\<lparr>s_password_len := len\<rparr>) = no_lock w"
  "no_lock (wipe_password w) = no_lock w" "no_lock (set_show_error b w) = no_lock w"
  by (simp_all add: no_lock_def wipe_password_def set_show_error_def)

lemma render_lock_ui_keeps: "lck.keeps (render_lock_ui E)"
  unfolding render_lock_ui_def
  by (rule lck.keeps_rules lck.keeps_comp(2) [OF lck_buffer_keeps(1)] | simp add: fold_activation_other)+

lemma free_lock_buffer_keeps: "lck.keeps free_lock_buffer"
  unfolding free_lock_buffer_def
  by (rule lck.keeps_rules lck_buffer_keeps | simp)+

lemma deactivate_keeps: "lck.keeps zen_lock_deactivate"
  unfolding zen_lock_deactivate_def
  by (rule lck.keeps_rules free_lock_buffer_keeps | simp split: option.split)+

lemma activate_keeps: "lck.keeps (zen_lock_activate E c)"
  unfolding zen_lock_activate_def
  by (rule lck.keeps_rules lck_buffer_keeps lck.keeps_comp(1) [OF render_lock_ui_keeps] | simp split: option.split)+

lemma lock_key_keeps: "lck.keeps_res (zen_lock_handle_key E kc ks p)"
  unfolding zen_lock_handle_key_def
  by (rule lck.keeps_rules deactivate_keeps lck.keeps_comp(1) [OF render_lock_ui_keeps] | simp)+

lemma lock_keys_keeps: "lck.keeps (lock_keys L i kc ss p)"
proof (induction ss arbitrary: i)
  case (Cons s ss)
  from lck.keeps_bind_res(1) [OF lock_key_keeps Cons] show ?case by (simp add: lck.keeps_def)
qed (simp add: lck.keeps_def)

section \<open>Keyboards, layers and outputs\<close>

lemma no_keyboards_simps [simp]:
  "no_keyboards (w\<lparr>keyboards := l\<rparr>) = no_keyboards w" "no_keyboards (w\<lparr>kbds := m\<rparr>) = no_keyboards w"
  by (simp_all add: no_keyboards_def)

lemma keyboard_destroy_keeps: "kbd.keeps (handle_keyboard_destroy kb)"
  unfolding handle_keyboard_destroy_def by (rule kbd.keeps_rules kbd.keeps_unlisten_all | simp)+

lemma update_capabilities_keeps: "kbd.keeps update_capabilities"
  unfolding update_capabilities_def by (rule kbd.keeps_rules | simp)+

lemma attach_keyboard_keeps: "kbd.keeps (attach_keyboard E a)"
  unfolding attach_keyboard_def by (rule kbd.keeps_rules kbd.keeps_listen_all | simp)+

lemma new_input_keeps: "kbd.keeps (handle_new_input E ty d)"
  unfolding handle_new_input_def
  by (cases ty)
    ((simp only: device_type.case)?,
     (rule kbd.keeps_rules attach_keyboard_keeps update_capabilities_keeps
        kbd.keeps_comp(1) [OF update_capabilities_keeps] | simp)+)+

lemma no_layers_simps [simp]:
  "no_layers (w\<lparr>layer_surfaces := l\<rparr>) = no_layers w" "no_layers (w\<lparr>lays := m\<rparr>) = no_layers w"
  by (simp_all add: no_layers_def)

lemma layer_notify_keeps: "lay.keeps (layer_notify f a)"
  unfolding layer_notify_def handle_layer_surface_map_def handle_layer_surface_unmap_def
    handle_layer_surface_destroy_def set_layer_enabled_def
  by (rule lay.keeps_rules lay.keeps_unlisten_all | simp)+

lemma new_layer_surface_keeps: "lay.keeps (handle_new_layer_surface E ls)"
  unfolding handle_new_layer_surface_def
  by (rule lay.keeps_rules lay.keeps_listen_all | simp)+

lemma no_outputs_simps [simp]:
  "no_outputs (w\<lparr>zouts := z\<rparr>) = no_outputs w" "no_outputs (w\<lparr>g_wallpaper_state := g\<rparr>) = no_outputs w"
  "no_outputs (w\<lparr>test_overlay := p\<rparr>) = no_outputs w" "no_outputs (w\<lparr>bufs := m\<rparr>) = no_outputs w"
  by (simp_all add: no_outputs_def)

lemma output_destroy_keeps: "outp.keeps (output_handle_destroy a)"
  unfolding output_handle_destroy_def by (rule outp.keeps_rules outp.keeps_unlisten_all | simp)+

lemma wallpaper_render_keeps: "outp.keeps_res (zen_wallpaper_render_output V a)"
  unfolding zen_wallpaper_render_output_def render_output_internal_def wallpaper_output_cleanup_def
  by (rule outp.keeps_rules | simp add: fold_activation_other)+

lemma overlay_keeps: "outp.keeps (create_test_overlay Q)"
  unfolding create_test_overlay_def
  by (rule outp.keeps_rules outp_buffer_keeps outp.keeps_arg [OF outp_buffer_keeps(2)] | simp add: fold_activation_other)+

lemma new_output_keeps: "outp.keeps (handle_new_output Q out)"
  unfolding handle_new_output_def
  by (rule outp.keeps_rules outp.keeps_listen_all wallpaper_render_keeps overlay_keeps | simp)+

end
