(* ===== verification/Zen_Desktop.thy ===== *)
theory Zen_Desktop
  imports Zen_Frame
begin

text \<open>
  The running desktop: every callback the compositor has linked, as one event system over one
  state. An event is what the outside does next, with the answers the libraries give while it
  is handled; it reaches the compositor only through a listener that is linked, or a timer,
  slot or source that exists. The invariant of the whole state is the conjunction of the
  modules' invariants; the frames of the handlers carry the parts a handler does not touch.
\<close>

section \<open>The invariant of the running desktop\<close>

text \<open>Outputs: exactly the listeners of live outputs are linked, and each has its scene output.\<close>

definition screens_wf :: "world \<Rightarrow> bool" where
  "screens_wf w \<longleftrightarrow> distinct (lregs w) \<and>
     (\<forall>a f. (Of_Output a, f) \<in> set (lregs w) \<longleftrightarrow> a \<in> dom (zouts w) \<and> f \<in> set output_listeners) \<and>
     (\<forall>a z. zouts w a = Some z \<longrightarrow> scene_output z \<noteq> None)"

text \<open>The overlay's buffer is live, and not the buffer of the lock screen.\<close>

definition overlay_wf :: "world \<Rightarrow> bool" where
  "overlay_wf w \<longleftrightarrow> (\<forall>a. test_overlay w = Some a \<longrightarrow> bufs w a \<noteq> None \<and> lock_buffer (s_lock w) \<noteq> Some a)"

text \<open>What creation has set up once and nothing takes away while the compositor runs.\<close>

definition core_ready :: "world \<Rightarrow> bool" where
  "core_ready w \<longleftrightarrow> wl_display w \<noteq> None \<and> backend w \<noteq> None \<and> allocator w \<noteq> None \<and> renderer w \<noteq> None \<and>
     scene w \<noteq> None \<and> output_layout w \<noteq> None \<and> scene_layout w \<noteq> None \<and> seat w \<noteq> None \<and> cursor w \<noteq> None \<and>
     keybindings w \<noteq> None \<and> (dbus_event_source w \<noteq> None \<longrightarrow> bus w \<noteq> None)"

definition desktop_wf :: "world \<Rightarrow> bool" where
  "desktop_wf w \<longleftrightarrow> xdg_wf w \<and> lock_wf w \<and> keyboards_wf w \<and> layers_wf w \<and> screens_wf w \<and>
     overlay_wf w \<and> core_ready w"

lemma desktop_wfD:
  assumes "desktop_wf w"
  shows "xdg_wf w" "lock_wf w" "keyboards_wf w" "layers_wf w" "screens_wf w" "overlay_wf w" "core_ready w"
  using assms unfolding desktop_wf_def by blast+

section \<open>Frames and the invariant\<close>

text \<open>Listeners of another kind are the same in two states of one view.\<close>

lemma lregs_other:
  assumes "filter (not_of own) ls' = filter (not_of own) ls" "\<And>a. ow \<noteq> own a"
  shows "(ow, f) \<in> set ls' \<longleftrightarrow> (ow, f) \<in> set ls"
proof -
  have "not_of own (ow, f)" using assms(2) by (simp add: not_of_def)
  then show ?thesis using arg_cong [OF assms(1), of "\<lambda>l. (ow, f) \<in> set l"] by simp
qed

text \<open>The fields each part of the invariant reads.\<close>

definition win_part where
  "win_part w = (toplevels w, tops w, focused_toplevel w, grabbed_toplevel w)"

definition lock_part where
  "lock_part w = (s_password w, s_password_len w, s_lock w, locked w)"

definition kb_part where "kb_part w = (keyboards w, kbds w)"

definition layer_part where "layer_part w = (layer_surfaces w, lays w)"

definition core_part where
  "core_part w = (wl_display w, backend w, allocator w, renderer w, scene w, output_layout w, scene_layout w,
     seat w, cursor w, keybindings w, dbus_event_source w, bus w)"

lemmas part_defs = win_part_def lock_part_def kb_part_def layer_part_def core_part_def

lemma xdg_wf_part:
  assumes "xdg_wf w" "win_part w' = win_part w" "activated (calls w') = activated (calls w)"
    "distinct (lregs w')" "\<And>a f. (Of_Toplevel a, f) \<in> set (lregs w') \<longleftrightarrow> (Of_Toplevel a, f) \<in> set (lregs w)"
  shows "xdg_wf w'"
  using assms unfolding xdg_wf_def by (simp add: win_part_def focused_handle_def)

lemma lock_wf_part: "lock_wf w \<Longrightarrow> lock_part w' = lock_part w \<Longrightarrow> bufs w' = bufs w \<Longrightarrow> lock_wf w'"
  by (simp add: lock_wf_def lock_part_def password_ok_def)

lemma keyboards_wf_part:
  assumes "keyboards_wf w" "kb_part w' = kb_part w"
    "distinct (lregs w')" "\<And>a f. (Of_Keyboard a, f) \<in> set (lregs w') \<longleftrightarrow> (Of_Keyboard a, f) \<in> set (lregs w)"
  shows "keyboards_wf w'"
  using assms unfolding keyboards_wf_def by (simp add: kb_part_def)

lemma layers_wf_part:
  assumes "layers_wf w" "layer_part w' = layer_part w"
    "distinct (lregs w')" "\<And>a f. (Of_Layer a, f) \<in> set (lregs w') \<longleftrightarrow> (Of_Layer a, f) \<in> set (lregs w)"
  shows "layers_wf w'"
  using assms unfolding layers_wf_def by (simp add: layer_part_def)

lemma screens_wf_part:
  assumes "screens_wf w" "zouts w' = zouts w"
    "distinct (lregs w')" "\<And>a f. (Of_Output a, f) \<in> set (lregs w') \<longleftrightarrow> (Of_Output a, f) \<in> set (lregs w)"
  shows "screens_wf w'"
  using assms unfolding screens_wf_def by simp

lemma overlay_wf_part:
  "overlay_wf w \<Longrightarrow> test_overlay w' = test_overlay w \<Longrightarrow> bufs w' = bufs w \<Longrightarrow> s_lock w' = s_lock w \<Longrightarrow> overlay_wf w'"
  by (simp add: overlay_wf_def)

lemma core_ready_part: "core_ready w \<Longrightarrow> core_part w' = core_part w \<Longrightarrow> core_ready w'"
  by (simp add: core_ready_def core_part_def)

lemmas wf_parts = xdg_wf_part lock_wf_part keyboards_wf_part layers_wf_part screens_wf_part
  overlay_wf_part core_ready_part

text \<open>A handler of one module keeps the other parts.\<close>

lemma windows_frame:
  assumes "no_windows w' = no_windows w" "xdg_wf w'" "desktop_wf w"
  shows "desktop_wf w'"
proof -
  have p: "lock_part v = lock_part (no_windows v)" "kb_part v = kb_part (no_windows v)"
    "layer_part v = layer_part (no_windows v)" "core_part v = core_part (no_windows v)"
    "zouts v = zouts (no_windows v)" "test_overlay v = test_overlay (no_windows v)"
    "bufs v = bufs (no_windows v)" "s_lock v = s_lock (no_windows v)"
    "filter (not_of Of_Toplevel) (lregs v) = lregs (no_windows v)" for v
    by (simp_all add: part_defs no_windows_def)
  note q = p [of w', unfolded assms(1), folded p [of w]]
  note l = lregs_other [OF q(9)]
  from assms(3) show ?thesis unfolding desktop_wf_def
    using assms(2) q l xdg_wf_lregs(1) [OF assms(2)]
    by (auto elim: wf_parts)
qed

lemma lock_frame:
  assumes "no_lock w' = no_lock w" "lock_wf w'" "overlay_wf w'" "desktop_wf w"
  shows "desktop_wf w'"
proof -
  have p: "win_part v = win_part (fst (no_lock v))" "kb_part v = kb_part (fst (no_lock v))"
    "layer_part v = layer_part (fst (no_lock v))" "core_part v = core_part (fst (no_lock v))"
    "zouts v = zouts (fst (no_lock v))" "lregs v = lregs (fst (no_lock v))"
    "activated (calls v) = snd (no_lock v)" for v
    by (simp_all add: part_defs no_lock_def)
  note q = p [of w', unfolded assms(1), folded p [of w]]
  from assms(4) show ?thesis unfolding desktop_wf_def
    using assms(2,3) q xdg_wf_lregs(1) [OF desktop_wfD(1) [OF assms(4)]]
    by (auto elim: wf_parts)
qed

lemma keyboards_frame:
  assumes "no_keyboards w' = no_keyboards w" "keyboards_wf w'" "desktop_wf w"
  shows "desktop_wf w'"
proof -
  have p: "win_part v = win_part (fst (no_keyboards v))" "lock_part v = lock_part (fst (no_keyboards v))"
    "layer_part v = layer_part (fst (no_keyboards v))" "core_part v = core_part (fst (no_keyboards v))"
    "zouts v = zouts (fst (no_keyboards v))" "test_overlay v = test_overlay (fst (no_keyboards v))"
    "bufs v = bufs (fst (no_keyboards v))" "s_lock v = s_lock (fst (no_keyboards v))"
    "filter (not_of Of_Keyboard) (lregs v) = lregs (fst (no_keyboards v))"
    "activated (calls v) = snd (no_keyboards v)" for v
    by (simp_all add: part_defs no_keyboards_def)
  note q = p [of w', unfolded assms(1), folded p [of w]]
  note l = lregs_other [OF q(9)]
  have "distinct (lregs w')" using assms(2) by (simp add: keyboards_wf_def)
  with assms(3) show ?thesis unfolding desktop_wf_def
    using assms(2) q l by (auto elim: wf_parts)
qed

lemma layers_frame:
  assumes "no_layers w' = no_layers w" "layers_wf w'" "desktop_wf w"
  shows "desktop_wf w'"
proof -
  have p: "win_part v = win_part (fst (no_layers v))" "lock_part v = lock_part (fst (no_layers v))"
    "kb_part v = kb_part (fst (no_layers v))" "core_part v = core_part (fst (no_layers v))"
    "zouts v = zouts (fst (no_layers v))" "test_overlay v = test_overlay (fst (no_layers v))"
    "bufs v = bufs (fst (no_layers v))" "s_lock v = s_lock (fst (no_layers v))"
    "filter (not_of Of_Layer) (lregs v) = lregs (fst (no_layers v))"
    "activated (calls v) = snd (no_layers v)" for v
    by (simp_all add: part_defs no_layers_def)
  note q = p [of w', unfolded assms(1), folded p [of w]]
  note l = lregs_other [OF q(9)]
  have "distinct (lregs w')" using assms(2) by (simp add: layers_wf_def)
  with assms(3) show ?thesis unfolding desktop_wf_def
    using assms(2) q l by (auto elim: wf_parts)
qed

lemma outputs_frame:
  assumes "no_outputs w' = no_outputs w" "screens_wf w'" "overlay_wf w'" "lock_wf w'" "desktop_wf w"
  shows "desktop_wf w'"
proof -
  have p: "win_part v = win_part (fst (no_outputs v))" "layer_part v = layer_part (fst (no_outputs v))"
    "kb_part v = kb_part (fst (no_outputs v))" "core_part v = core_part (fst (no_outputs v))"
    "filter (not_of Of_Output) (lregs v) = lregs (fst (no_outputs v))"
    "activated (calls v) = snd (no_outputs v)" for v
    by (simp_all add: part_defs no_outputs_def)
  note q = p [of w', unfolded assms(1), folded p [of w]]
  note l = lregs_other [OF q(5)]
  have "distinct (lregs w')" using assms(2) by (simp add: screens_wf_def)
  with assms(5) show ?thesis unfolding desktop_wf_def
    using assms(2-4) q l by (auto elim: wf_parts)
qed

lemma emits_frame:
  assumes "desktop_wf w" "\<And>s. fold activation cs s = s"
  shows "desktop_wf (emits cs w)"
proof -
  have "test_overlay (emits cs w) = test_overlay w" by (simp add: emits_def)
  then have "overlay_wf (emits cs w)" using desktop_wfD(6) [OF assms(1)] by (simp add: overlay_wf_def)
  with assms desktop_wfD(2) [OF assms(1)] show ?thesis by (intro lock_frame [OF _ _ _ assms(1)]) simp_all
qed

section \<open>Events\<close>

datatype desktop_event =
    Window_signal xdg_env lfield addr
  | Window_opens xdg_env addr
  | Key_event in_env addr u32 u32 bool
  | Modifiers_event addr
  | Keyboard_gone addr
  | Motion in_env u32 rat rat
  | Motion_absolute in_env u32 rat rat
  | Button in_env u32 u32 bool
  | Cursor_request in_env ptr ptr int int
  | Device_added in_env device_type addr
  | Idle_expires lock_env
  | Logind_locks lock_env
  | Client_locks addr
  | Layer_signal lfield addr
  | Layer_opens layer_env addr
  | Bus_readable "(string \<times> bus_env) option"
  | Output_frame addr
  | Output_request addr
  | Output_gone addr
  | Output_added out_env addr

text \<open>A signal reaches the handler of a linked listener, and nothing otherwise.\<close>

definition signal :: "listener \<Rightarrow> (world \<Rightarrow> world option) \<Rightarrow> world \<Rightarrow> world option" where
  "signal l handler w = (if l \<in> set (lregs w) then handler w else Some w)"

definition discard :: "(world \<times> int) option \<Rightarrow> world option" where
  "discard r = map_option fst r"

fun deliver :: "desktop_event \<Rightarrow> world \<Rightarrow> world option" where
  "deliver (Window_signal E f a) = signal (Of_Toplevel a, f) (toplevel_notify E f a)"
| "deliver (Window_opens E x) = signal (Of_Compositor, L_new_xdg_toplevel) (handle_new_xdg_toplevel E x)"
| "deliver (Key_event E kb t kc p) = signal (Of_Keyboard kb, L_key) (handle_keyboard_key E kb t kc p)"
| "deliver (Modifiers_event kb) = signal (Of_Keyboard kb, L_modifiers) (handle_keyboard_modifiers kb)"
| "deliver (Keyboard_gone kb) = signal (Of_Keyboard kb, L_destroy) (handle_keyboard_destroy kb)"
| "deliver (Motion E t dx dy) = signal (Of_Compositor, L_cursor_motion) (handle_cursor_motion E t dx dy)"
| "deliver (Motion_absolute E t x y) =
     signal (Of_Compositor, L_cursor_motion_absolute) (handle_cursor_motion_absolute E t x y)"
| "deliver (Button E t b p) = signal (Of_Compositor, L_cursor_button) (handle_cursor_button E t b p)"
| "deliver (Cursor_request E cl s hx hy) =
     signal (Of_Compositor, L_request_cursor) (handle_request_cursor E cl s hx hy)"
| "deliver (Device_added E ty d) = signal (Of_Compositor, L_new_input) (handle_new_input E ty d)"
| "deliver (Idle_expires E) = (\<lambda>w. if s_idle_timer w = None then Some w else discard (idle_timeout_cb E w))"
| "deliver (Logind_locks E) = (\<lambda>w. if s_lock_signal_slot w = None then Some w else discard (lock_signal_cb E w))"
| "deliver (Client_locks l) = signal (Of_Module, L_new_lock) (\<lambda>w. Some (handle_new_lock l w))"
| "deliver (Layer_signal f a) = signal (Of_Layer a, f) (layer_notify f a)"
| "deliver (Layer_opens E ls) = signal (Of_Compositor, L_new_layer_surface) (handle_new_layer_surface E ls)"
| "deliver (Bus_readable m) = (\<lambda>w. if dbus_event_source w = None then Some w else discard (dbus_dispatch_cb m w))"
| "deliver (Output_frame a) = signal (Of_Output a, L_frame) (output_handle_frame a)"
| "deliver (Output_request a) = signal (Of_Output a, L_request_state) (output_handle_request_state a)"
| "deliver (Output_gone a) = signal (Of_Output a, L_destroy) (output_handle_destroy a)"
| "deliver (Output_added Q out) = signal (Of_Compositor, L_new_output) (handle_new_output Q out)"

text \<open>
  What the outside promises when an event arrives: an allocation is fresh; a new window's
  handle is not that of a window that is open; the data of a scene node under the cursor is a
  live toplevel, which is what \<open>xdg.c\<close> stores there; a move stays in the range of \<open>int\<close>; a
  message is read with the types asked for; a scene output is created; an image has a size.
\<close>

definition fresh_in :: "ptr \<Rightarrow> (addr \<rightharpoonup> 'o) \<Rightarrow> bool" where
  "fresh_in p h = (case p of None \<Rightarrow> True | Some a \<Rightarrow> h a = None)"

definition axis_fits :: "rat \<Rightarrow> rat \<Rightarrow> int \<Rightarrow> bool" where
  "axis_fits pos grab node = (case c_int_of_double (fl (pos - grab)) of
      None \<Rightarrow> False | Some d \<Rightarrow> c_add node d \<noteq> None)"

definition move_fits :: "in_env \<Rightarrow> world \<Rightarrow> bool" where
  "move_fits E w \<longleftrightarrow> grabbed_toplevel w = None \<or>
     axis_fits (fst (i_pos E)) (grab_x w) (grab_node_x w) \<and> axis_fits (snd (i_pos E)) (grab_y w) (grab_node_y w)"

fun event_ok :: "desktop_event \<Rightarrow> world \<Rightarrow> bool" where
  "event_ok (Window_opens E x) w \<longleftrightarrow> fresh_in (x_calloc E) (tops w) \<and>
     (\<forall>t \<in> ran (tops w). xdg_toplevel t \<noteq> Some x)"
| "event_ok (Key_event E kb t kc p) w \<longleftrightarrow> fresh_in (lock_calloc (kb_lock (i_kb E))) (bufs w)"
| "event_ok (Motion E t dx dy) w \<longleftrightarrow> move_fits E w"
| "event_ok (Motion_absolute E t x y) w \<longleftrightarrow> move_fits E w"
| "event_ok (Button E t b p) w \<longleftrightarrow> (\<forall>d \<in> set (i_node_path E). case d of None \<Rightarrow> True | Some a \<Rightarrow> tops w a \<noteq> None)"
| "event_ok (Device_added E ty d) w \<longleftrightarrow> fresh_in (i_calloc E) (kbds w)"
| "event_ok (Idle_expires E) w \<longleftrightarrow> fresh_in (lock_calloc E) (bufs w)"
| "event_ok (Logind_locks E) w \<longleftrightarrow> fresh_in (lock_calloc E) (bufs w)"
| "event_ok (Layer_opens E ls) w \<longleftrightarrow> fresh_in (ly_calloc E) (lays w)"
| "event_ok (Bus_readable m) w \<longleftrightarrow> (case m of None \<Rightarrow> True | Some (member, E) \<Rightarrow> reads_typed E)"
| "event_ok (Output_added Q out) w \<longleftrightarrow> fresh_in (o_calloc Q) (zouts w) \<and> fresh_in (o_overlay Q) (bufs w) \<and>
     o_scene_output Q \<noteq> None \<and>
     (case g_wallpaper_state w of None \<Rightarrow> True | Some st \<Rightarrow> image_ok (o_wallpaper Q) (src_image st))"
| "event_ok _ w \<longleftrightarrow> True"

primrec run_events :: "desktop_event list \<Rightarrow> world \<Rightarrow> world option" where
  "run_events [] w = Some w"
| "run_events (e # es) w = do { w \<leftarrow> deliver e w; run_events es w }"

text \<open>Every event of a run arrives in a state in which the outside keeps its promises.\<close>

primrec events_ok :: "desktop_event list \<Rightarrow> world \<Rightarrow> bool" where
  "events_ok [] w \<longleftrightarrow> True"
| "events_ok (e # es) w \<longleftrightarrow> event_ok e w \<and> (case deliver e w of None \<Rightarrow> True | Some w' \<Rightarrow> events_ok es w')"

section \<open>Every event keeps the invariant\<close>

definition handled :: "(world \<Rightarrow> world option) \<Rightarrow> world \<Rightarrow> bool" where
  "handled h w \<longleftrightarrow> (\<exists>w'. h w = Some w' \<and> desktop_wf w')"

lemma handled_signal: "desktop_wf w \<Longrightarrow> (l \<in> set (lregs w) \<Longrightarrow> handled h w) \<Longrightarrow> handled (signal l h) w"
  by (simp add: handled_def signal_def)

lemma fresh_inD: "fresh_in p h \<Longrightarrow> p = Some a \<Longrightarrow> h a = None"
  by (simp add: fresh_in_def)

lemma desktop_core:
  assumes "desktop_wf w"
  shows "wl_display w \<noteq> None" "backend w \<noteq> None" "allocator w \<noteq> None" "renderer w \<noteq> None" "scene w \<noteq> None"
    "output_layout w \<noteq> None" "scene_layout w \<noteq> None" "seat w \<noteq> None" "cursor w \<noteq> None" "keybindings w \<noteq> None"
    "dbus_event_source w \<noteq> None \<longrightarrow> bus w \<noteq> None"
  using desktop_wfD(7) [OF assms] unfolding core_ready_def by blast+

text \<open>Windows.\<close>

lemma window_signal_handled:
  assumes "desktop_wf w" "(Of_Toplevel a, f) \<in> set (lregs w)"
  shows "handled (toplevel_notify E f a) w"
proof -
  from notify_wf [OF desktop_wfD(1) [OF assms(1)] assms(2), of E] obtain w' where
    w': "toplevel_notify E f a w = Some w'" "xdg_wf w'" by blast
  from windows_frame [OF win.keepsD [OF toplevel_notify_keeps w'(1)] w'(2) assms(1)] w'(1)
  show ?thesis by (simp add: handled_def)
qed

lemma window_opens_handled:
  assumes "desktop_wf w" "event_ok (Window_opens E x) w"
  shows "handled (handle_new_xdg_toplevel E x) w"
proof -
  from assms(2) have f: "\<And>a. x_calloc E = Some a \<Longrightarrow> tops w a = None"
    and d: "\<And>b t. tops w b = Some t \<Longrightarrow> xdg_toplevel t \<noteq> Some x"
    by (auto dest: fresh_inD simp: ran_def)
  have "\<exists>w'. handle_new_xdg_toplevel E x w = Some w' \<and> xdg_wf w'"
    by (rule new_toplevel_wf [OF desktop_wfD(1) [OF assms(1)] _ _ desktop_core(5) [OF assms(1)]])
       (use f d in blast)+
  then obtain w' where w': "handle_new_xdg_toplevel E x w = Some w'" "xdg_wf w'" by blast
  from windows_frame [OF win.keepsD [OF new_toplevel_keeps w'(1)] w'(2) assms(1)] w'(1)
  show ?thesis by (simp add: handled_def)
qed

text \<open>The lock leaves the buffers of the others alone.\<close>

definition others_live :: "world \<Rightarrow> world \<Rightarrow> bool" where
  "others_live w w' \<longleftrightarrow> (\<forall>x. bufs w x \<noteq> None \<and> lock_buffer (s_lock w) \<noteq> Some x \<longrightarrow>
     bufs w' x \<noteq> None \<and> lock_buffer (s_lock w') \<noteq> Some x)"

lemma others_live_refl [simp]: "others_live w w"
  by (simp add: others_live_def)

lemma others_live_trans: "others_live u v \<Longrightarrow> others_live v w \<Longrightarrow> others_live u w"
  by (simp add: others_live_def)

lemma others_live_same:
  "bufs w' = bufs w \<Longrightarrow> lock_buffer (s_lock w') = lock_buffer (s_lock w) \<Longrightarrow> others_live w w'"
  by (simp add: others_live_def)

interpretation lbuf: frame "\<lambda>w. (bufs w, s_lock w)" .

lemma submit_others: "lbuf.keeps_res (zen_cairo_buffer_submit p)"
  unfolding zen_cairo_buffer_submit_def by (rule lbuf.keeps_rules | simp)+

lemma render_others_keeps: "lbuf.keeps (render_lock_ui E)"
  unfolding render_lock_ui_def by (rule lbuf.keeps_rules lbuf.keeps_comp(2) [OF submit_others] | simp)+

lemma render_others: "render_lock_ui E w = Some w' \<Longrightarrow> bufs w' = bufs w \<and> s_lock w' = s_lock w"
  using lbuf.keepsD [OF render_others_keeps] by blast

lemma deactivate_others: "zen_lock_deactivate w = Some w' \<Longrightarrow> others_live w w'"
  by (auto simp: zen_lock_deactivate_def free_lock_buffer_def zen_cairo_buffer_destroy_def bind_eq_Some_conv
      others_live_def empty_lock_screen_def Let_def split: option.splits if_splits)

lemma lock_key_others: "zen_lock_handle_key E kc ks p w = Some (w', r) \<Longrightarrow> others_live w w'"
  by (auto simp: zen_lock_handle_key_def bind_eq_Some_conv others_live_def
      dest!: deactivate_others render_others split: if_splits) blast+

lemma lock_keys_others: "lock_keys L i kc ss p w = Some w' \<Longrightarrow> others_live w w'"
proof (induction ss arbitrary: i w)
  case (Cons s ss)
  then show ?case by (auto simp: bind_eq_Some_conv intro: others_live_trans dest!: lock_key_others)
qed simp

text \<open>A lawful change of the lock that keeps to its own fields.\<close>

lemma lock_change:
  assumes "desktop_wf w" "no_lock w' = no_lock w" "lock_wf w'" "others_live w w'"
  shows "desktop_wf w'"
proof -
  have "test_overlay v = test_overlay (fst (no_lock v))" for v by (simp add: no_lock_def)
  with assms(2) have "test_overlay w' = test_overlay w" by metis
  then have "overlay_wf w'" using desktop_wfD(6) [OF assms(1)] assms(4)
    by (simp add: overlay_wf_def others_live_def)
  from lock_frame [OF assms(2,3) this assms(1)] show ?thesis .
qed

lemma activate_handled:
  assumes "desktop_wf w" "fresh_in (lock_calloc E) (bufs w)"
  shows "handled (zen_lock_activate E CPTR) w"
proof (cases "locked w")
  case True
  then show ?thesis using assms(1) by (simp add: handled_def zen_lock_activate_def)
next
  case False
  have "\<exists>w'. zen_lock_activate E CPTR w = Some w' \<and> activation_outcome E w w'"
    by (rule activate_outcome [OF desktop_wfD(2) [OF assms(1)] False])
       (use desktop_core(5) [OF assms(1)] assms(2) in \<open>auto dest: fresh_inD\<close>)
  then obtain w' where w': "zen_lock_activate E CPTR w = Some w'" "activation_outcome E w w'" by blast
  then have wf: "lock_wf w'" by (auto simp: activation_outcome_def lock_evolves_def)
  moreover have "others_live w w'"
    using w'(2) wf assms(2) by (auto simp: activation_outcome_def others_live_def lock_wf_def
        split: if_splits dest: fresh_inD)
  ultimately show ?thesis
    using lock_change [OF assms(1) lck.keepsD [OF activate_keeps w'(1)]] w'(1) by (simp add: handled_def)
qed

text \<open>Keys: the lock, a keybinding or the client takes them; all three keep to the lock's fields.\<close>

lemma execute_action_keeps: "lck.keeps (execute_action K act cmd)"
  by (cases act) (auto simp: lck.keeps_def execute_action_def fork_exec_def bind_eq_Some_conv
      dest: lck.keepsD [OF activate_keeps] split: option.splits)

lemma try_bindings_keeps: "lck.keeps_res (try_bindings K mods ss)"
proof (induction ss)
  case (Cons s ss)
  have "lck.keeps_res (zen_keybinds_handle_key K CPTR mods s)"
    unfolding zen_keybinds_handle_key_def
    by (rule lck.keeps_rules execute_action_keeps | simp)+
  then have "lck.keeps_res (\<lambda>w. do { (w, hit) \<leftarrow> zen_keybinds_handle_key K CPTR mods s w;
      if hit then Some (w, True) else try_bindings K mods ss w })"
    by (intro lck.keeps_bind_res) (rule lck.keeps_rules Cons | simp)+
  then show ?case by (simp add: lck.keeps_res_def)
qed (simp add: lck.keeps_res_def)

lemma keyboard_key_keeps: "lck.keeps (handle_keyboard_key E kb t kc p)"
  unfolding handle_keyboard_key_def
  by (rule lck.keeps_rules lock_keys_keeps try_bindings_keeps | simp)+

lemma execute_action_handled:
  assumes "desktop_wf w" "fresh_in (lock_calloc (kb_lock K)) (bufs w)"
  shows "handled (execute_action K act cmd) w"
proof -
  have em: "desktop_wf (emits [c] w)" if "\<And>s. activation c s = s" for c
    using assms(1) that by (intro emits_frame) simp_all
  show ?thesis
  proof (cases "act = ZEN_ACTION_LOCK_SCREEN")
    case True
    with activate_handled [OF assms] show ?thesis by (simp add: handled_def execute_action_def)
  next
    case False
    then show ?thesis using assms(1) em xdg_wf_focus [OF desktop_wfD(1) [OF assms(1)]]
      by (cases act) (auto simp: handled_def execute_action_def fork_exec_def split: option.split)
  qed
qed

lemma key_handled:
  assumes "desktop_wf w" "kbds w kb \<noteq> None" "event_ok (Key_event E kb t kc p) w"
  shows "handled (handle_keyboard_key E kb t kc p) w"
proof (cases "locked w")
  case True
  from lock_keys_total [OF desktop_wfD(2) [OF assms(1)]] obtain w' where
    w': "lock_keys (i_lock E) 0 (kc + 8) (i_syms E (kc + 8)) p w = Some w'" "lock_wf w'" by blast
  from lock_change [OF assms(1) lck.keepsD [OF lock_keys_keeps w'(1)] w'(2) lock_keys_others [OF w'(1)]] w'(1)
  show ?thesis using assms(2) True by (auto simp: handled_def handle_keyboard_key_def)
next
  case False
  obtain bs where bs: "keybindings w = Some bs" using desktop_core(10) [OF assms(1)] by blast
  have ex: "handled (execute_action (i_kb E) act cmd) w" for act cmd
    by (rule execute_action_handled [OF assms(1)]) (use assms(3) in simp)
  have fwd: "desktop_wf (emits [Keyboard (Keyboard_key t kc p)] w)"
    by (rule emits_frame [OF assms(1)]) simp
  show ?thesis
  proof (cases "p \<and> first_binding (i_mods E) (i_syms E (kc + 8)) bs \<noteq> None")
    case True
    then obtain b where b: "first_binding (i_mods E) (i_syms E (kc + 8)) bs = Some b" by blast
    from ex obtain w' where "execute_action (i_kb E) (action b) (custom_cmd b) w = Some w'" "desktop_wf w'"
      unfolding handled_def by blast
    with True b False assms(2) show ?thesis
      by (auto simp: handled_def handle_keyboard_key_def try_bindings_first [OF bs])
  next
    case nobind: False
    with assms(2) False fwd desktop_core(8) [OF assms(1)] show ?thesis
      by (auto simp: handled_def handle_keyboard_key_def try_bindings_first [OF bs])
  qed
qed

text \<open>Keyboards and other devices.\<close>

lemma modifiers_handled:
  assumes "desktop_wf w" "kbds w kb \<noteq> None"
  shows "handled (handle_keyboard_modifiers kb) w"
  using assms desktop_core(8) [OF assms(1)] emits_frame [OF assms(1)]
  by (auto simp: handled_def handle_keyboard_modifiers_def)

lemma keyboard_gone_handled:
  assumes "desktop_wf w" "kbds w kb \<noteq> None"
  shows "handled (handle_keyboard_destroy kb) w"
proof -
  have t: "kb.tracked w" using desktop_wfD(3) [OF assms(1)] by (simp add: keyboards_wf_tracked)
  then obtain l where l: "keyboards w = Some l" unfolding kb.tracked_def by blast
  have "kb \<in> set l" using kb.tracked_list [OF t l] assms(2) by auto
  from keyboard_destroy_effect [OF t l this] obtain w' where
    w': "handle_keyboard_destroy kb w = Some w'" "kb.tracked w'" by blast
  then have "keyboards_wf w'" by (simp add: keyboards_wf_tracked)
  from keyboards_frame [OF kbd.keepsD [OF keyboard_destroy_keeps w'(1)] this assms(1)] w'(1)
  show ?thesis by (simp add: handled_def)
qed

lemma capabilities_handled:
  assumes "desktop_wf w"
  shows "handled update_capabilities w"
proof -
  obtain l where "keyboards w = Some l" using desktop_wfD(3) [OF assms] by (auto simp: keyboards_wf_def)
  with desktop_core(8) [OF assms] emits_frame [OF assms] show ?thesis
    by (auto simp: handled_def update_capabilities_def)
qed

lemma attach_handled:
  assumes "desktop_wf w" "kbds w a = None"
  shows "handled (attach_keyboard E a) w"
proof -
  have t: "kb.tracked w" using desktop_wfD(3) [OF assms(1)] by (simp add: keyboards_wf_tracked)
  then obtain l where l: "keyboards w = Some l" unfolding kb.tracked_def by blast
  obtain s where s: "seat w = Some s" using desktop_core(8) [OF assms(1)] by blast
  let ?cs = "(if i_keymap_ok E then [Device (Set_keymap (i_wlr_keyboard E))] else []) @
    [Device (Set_repeat_info (i_wlr_keyboard E) ZEN_KB_REPEAT_RATE ZEN_KB_REPEAT_DELAY)]"
  define v where "v = emits ?cs (w\<lparr>kbds := (kbds w)(a \<mapsto> \<lparr>wlr_keyboard = i_wlr_keyboard E\<rparr>)\<rparr>)"
  have "listen_all (Of_Keyboard a) keyboard_listeners v =
      Some (v\<lparr>lregs := lregs w @ map (Pair (Of_Keyboard a)) keyboard_listeners\<rparr>)"
    by (rule kb.tracked_listen [OF t assms(2)]) (simp add: v_def emits_def)
  then obtain w' where run: "attach_keyboard E a w = Some w'"
    and w': "keyboards w' = Some (a # l)" "kbds w' = (kbds w)(a \<mapsto> \<lparr>wlr_keyboard = i_wlr_keyboard E\<rparr>)"
      "lregs w' = lregs w @ map (Pair (Of_Keyboard a)) keyboard_listeners"
    using l s by (auto simp: attach_keyboard_def Let_def v_def emits_def wl_list_insert_def)
  have "kb.tracked w'"
    by (rule kb.tracked_add [OF t l assms(2) w'(2,1)])
       (use kb.tracked_list [OF t l] assms(2) w'(3) in auto)
  then have "keyboards_wf w'" by (simp add: keyboards_wf_tracked)
  from keyboards_frame [OF kbd.keepsD [OF attach_keyboard_keeps run] this assms(1)] run
  show ?thesis by (simp add: handled_def)
qed

lemma handled_bind:
  "handled f w \<Longrightarrow> (\<And>w'. desktop_wf w' \<Longrightarrow> handled g w') \<Longrightarrow> handled (\<lambda>w. Option.bind (f w) g) w"
  by (auto simp: handled_def)

lemma device_handled:
  assumes "desktop_wf w" "event_ok (Device_added E ty d) w"
  shows "handled (handle_new_input E ty d) w"
proof -
  have attach: "handled (\<lambda>w. do { w \<leftarrow> attach_keyboard E a w; update_capabilities w }) w" if "i_calloc E = Some a" for a
    using that assms by (intro handled_bind attach_handled capabilities_handled) (auto dest: fresh_inD)
  have point: "handled (\<lambda>w. update_capabilities (emits [Cursor (Cursor_attach_input_device d)] w)) w"
    using capabilities_handled [OF emits_frame [OF assms(1)]] by (simp add: handled_def)
  show ?thesis using attach point capabilities_handled [OF assms(1)] desktop_core(9) [OF assms(1)] assms(1)
    by (cases ty) (auto simp: handled_def handle_new_input_def split: option.split)
qed

text \<open>The pointer.\<close>

lemma axis_fitsD:
  "axis_fits p g h \<Longrightarrow> \<exists>d e. c_int_of_double (fl (p - g)) = Some d \<and> c_add h d = Some e"
  by (auto simp: axis_fits_def split: option.splits)

lemma process_motion_handled:
  assumes "desktop_wf w" "move_fits E w"
  shows "handled (zen_input_process_cursor_motion E CPTR t) w"
proof (cases "grabbed_toplevel w")
  case None
  with desktop_core [OF assms(1)] emits_frame [OF assms(1)] show ?thesis
    by (auto simp: handled_def zen_input_process_cursor_motion_def split: option.split)
next
  case (Some g)
  from xdg_wf_grab [OF desktop_wfD(1) [OF assms(1)] Some] obtain tp where tp: "tops w g = Some tp" by blast
  from assms(2) Some obtain dx dy nx ny where
    "c_int_of_double (fl (fst (i_pos E) - grab_x w)) = Some dx" "c_add (grab_node_x w) dx = Some nx"
    "c_int_of_double (fl (snd (i_pos E) - grab_y w)) = Some dy" "c_add (grab_node_y w) dy = Some ny"
    by (auto simp: move_fits_def dest!: axis_fitsD)
  moreover have "output_layout (emits cs w) = output_layout w" for cs by (simp add: emits_def)
  ultimately show ?thesis using Some tp desktop_core [OF assms(1)] emits_frame [OF assms(1)] assms(1)
    by (auto simp: handled_def zen_input_process_cursor_motion_def move_grabbed_def Let_def split: option.split)
qed

lemma move_fits_emits [simp]: "move_fits E (emits cs w) = move_fits E w"
  by (simp add: move_fits_def emits_def)

lemma motion_handled:
  assumes "desktop_wf w" "move_fits E w"
  shows "handled (handle_cursor_motion E t dx dy) w" "handled (handle_cursor_motion_absolute E t x y) w"
  using process_motion_handled [OF emits_frame [OF assms(1)]] assms(2) desktop_core(9) [OF assms(1)]
  by (auto simp: handled_def handle_cursor_motion_def handle_cursor_motion_absolute_def)

lemma focus_handled:
  assumes "desktop_wf w" "tops w a \<noteq> None"
  shows "handled (zen_xdg_focus_toplevel E CPTR (Some a)) w"
proof -
  obtain l where l: "toplevels w = Some l" "set l = dom (tops w)"
    by (rule xdg_wf_list [OF desktop_wfD(1) [OF assms(1)]])
  from focus_keeps_wf [OF desktop_wfD(1) [OF assms(1)] l(1), of "Some a" E] assms(2) l(2) obtain w' where
    w': "zen_xdg_focus_toplevel E CPTR (Some a) w = Some w'" "xdg_wf w'" by blast
  from windows_frame [OF win.keepsD [OF focus_keeps w'(1)] w'(2) assms(1)] w'(1)
  show ?thesis by (simp add: handled_def)
qed

lemma node_path_live:
  assumes "\<forall>d \<in> set path. case d of None \<Rightarrow> True | Some a \<Rightarrow> tops w a \<noteq> None"
    and "toplevel_at_scene_node path = Some a"
  shows "tops w a \<noteq> None"
proof -
  obtain rest where "dropWhile (\<lambda>d. d = None) path = Some a # rest"
    using assms(2) by (auto simp: toplevel_at_scene_node_def split: list.splits)
  then have "Some a \<in> set path" by (metis list.set_intros(1) set_dropWhileD)
  from bspec [OF assms(1) this] show ?thesis by simp
qed

lemma release_grab_wf: "desktop_wf w \<Longrightarrow> desktop_wf (release_grab w)"
  by (rule windows_frame [where w = w])
     (auto simp: release_grab_def no_windows_def dest: desktop_wfD(1) intro: xdg_wf_cong [where w = w])

lemma button_handled:
  assumes "desktop_wf w" "event_ok (Button E t b p) w"
  shows "handled (handle_cursor_button E t b p) w"
proof -
  let ?v = "if \<not> p \<and> grabbed_toplevel w \<noteq> None then release_grab w else w"
  have v: "desktop_wf ?v" using assms(1) release_grab_wf by simp
  let ?press = "\<lambda>w. if p then do { _ \<leftarrow> scene w; _ \<leftarrow> cursor w;
      case toplevel_at_scene_node (i_node_path E) of None \<Rightarrow> Some w
      | Some a \<Rightarrow> zen_xdg_focus_toplevel (i_xdg E) CPTR (Some a) w } else Some w"
  have "handled (zen_xdg_focus_toplevel (i_xdg E) CPTR (Some a)) w"
    if "toplevel_at_scene_node (i_node_path E) = Some a" for a
    using node_path_live [OF _ that] assms(2) by (intro focus_handled [OF assms(1)]) simp
  then have press: "handled ?press ?v"
    using v desktop_core(5,9) [OF assms(1)] by (cases p) (auto simp: handled_def split: option.split)
  have "handled (\<lambda>w. do { w \<leftarrow> ?press w; _ \<leftarrow> seat w; Some (emits [Pointer (Pointer_button t b p)] w) }) ?v"
  proof (rule handled_bind [OF press])
    fix w' assume "desktop_wf w'"
    with desktop_core(8) [OF this] emits_frame [OF this] show
      "handled (\<lambda>w. do { _ \<leftarrow> seat w; Some (emits [Pointer (Pointer_button t b p)] w) }) w'"
      by (auto simp: handled_def)
  qed
  then show ?thesis by (simp add: handled_def handle_cursor_button_def Let_def)
qed

lemma cursor_request_handled:
  assumes "desktop_wf w"
  shows "handled (handle_request_cursor E cl s hx hy) w"
  using assms desktop_core(8,9) [OF assms] emits_frame [OF assms]
  by (auto simp: handled_def handle_request_cursor_def)

text \<open>Layer surfaces and the bus.\<close>

lemma layer_signal_handled:
  assumes "desktop_wf w" "(Of_Layer a, f) \<in> set (lregs w)"
  shows "handled (layer_notify f a) w"
proof -
  from layer_signals_safe [OF desktop_wfD(4) [OF assms(1)] assms(2)] obtain w' where
    w': "layer_notify f a w = Some w'" "layers_wf w'" by blast
  from layers_frame [OF lay.keepsD [OF layer_notify_keeps w'(1)] w'(2) assms(1)] w'(1)
  show ?thesis by (simp add: handled_def)
qed

lemma layer_opens_handled:
  assumes "desktop_wf w" "event_ok (Layer_opens E ls) w"
  shows "handled (handle_new_layer_surface E ls) w"
proof -
  obtain sc ol where "scene w = Some sc" "output_layout w = Some ol"
    using desktop_core(5,6) [OF assms(1)] by blast
  from new_layer_surface_adopted_or_destroyed [OF desktop_wfD(4) [OF assms(1)] this, of E ls] assms(2)
  obtain w' where w': "handle_new_layer_surface E ls w = Some w'" "layers_wf w'" by (auto dest: fresh_inD)
  from layers_frame [OF lay.keepsD [OF new_layer_surface_keeps w'(1)] w'(2) assms(1)] w'(1)
  show ?thesis by (simp add: handled_def)
qed

lemma polite_activates_none: "polite result cs \<Longrightarrow> fold activation cs s = s"
proof -
  have one: "one_answer result ds \<Longrightarrow> fold activation ds s = s" for ds
    by (induction result ds rule: one_answer.induct) auto
  show "polite result cs \<Longrightarrow> fold activation cs s = s"
    using one [of cs] one [of "tl cs"] by (cases "(result, cs)" rule: polite.cases) auto
qed

lemma bus_effect:
  assumes "desktop_wf w" "event_ok (Bus_readable m) w" "dbus_event_source w \<noteq> None"
  obtains d cs result where "dbus_dispatch_cb m w = Some (emits cs (w\<lparr>dark_mode := d\<rparr>), 0)" "polite result cs"
proof (cases "\<exists>member E mt. m = Some (member, E) \<and> find (\<lambda>m. vm_member m = member) compositor_vtable = Some mt")
  case True
  then obtain member E mt where m: "m = Some (member, E)"
    "find (\<lambda>m. vm_member m = member) compositor_vtable = Some mt" by blast
  then have mt: "mt \<in> set compositor_vtable" "reads_typed E" using assms(2) by (auto simp: find_Some_iff)
  obtain l where "toplevels w = Some l" "set l = dom (tops w)"
    by (rule xdg_wf_list [OF desktop_wfD(1) [OF assms(1)]])
  then have "toplevels_live w" by (simp add: toplevels_live_def)
  from bus_method.answers [OF vtable_methods [OF mt(1)] mt(2) this] obtain w' r cs where
    w': "vm_handler mt E w = Some (w', r)" "polite (vm_result mt) cs"
    "w' = w\<lparr>dark_mode := dark_mode w', calls := calls w @ cs\<rparr>" unfolding answered_def by blast
  then have "w' = emits cs (w\<lparr>dark_mode := dark_mode w'\<rparr>)" by (simp add: emits_def)
  moreover have "bus w \<noteq> None" using assms(3) desktop_core(11) [OF assms(1)] by blast
  then have "dbus_dispatch_cb m w = Some (w', 0)" using m w'(1) by (auto simp: dbus_dispatch_cb_def)
  ultimately show ?thesis using that w'(2) by metis
next
  case False
  then have "dbus_dispatch_cb m w = Some (w, 0)" by (auto simp: dbus_dispatch_cb_def split: option.split)
  then have "dbus_dispatch_cb m w = Some (emits [] (w\<lparr>dark_mode := dark_mode w\<rparr>), 0)" by simp
  then show ?thesis by (rule that) simp
qed

lemma bus_handled:
  assumes "desktop_wf w" "event_ok (Bus_readable m) w" "dbus_event_source w \<noteq> None"
  shows "handled (\<lambda>w. discard (dbus_dispatch_cb m w)) w"
proof -
  obtain d cs result where run: "dbus_dispatch_cb m w = Some (emits cs (w\<lparr>dark_mode := d\<rparr>), 0)"
    and p: "polite result cs" by (rule bus_effect [OF assms])
  have "desktop_wf (w\<lparr>dark_mode := d\<rparr>)"
    using assms(1) xdg_wf_lregs(1) [OF desktop_wfD(1) [OF assms(1)]] unfolding desktop_wf_def
    by (auto elim: wf_parts simp: part_defs)
  from emits_frame [OF this polite_activates_none [OF p]] run show ?thesis by (simp add: handled_def discard_def)
qed

text \<open>Outputs.\<close>

lemma output_live:
  assumes "desktop_wf w" "(Of_Output a, f) \<in> set (lregs w)"
  obtains z so where "zouts w a = Some z" "scene_output z = Some so"
  using desktop_wfD(5) [OF assms(1)] assms(2) unfolding screens_wf_def by blast

lemma output_frame_handled:
  assumes "desktop_wf w" "(Of_Output a, f) \<in> set (lregs w)"
  shows "handled (output_handle_frame a) w" "handled (output_handle_request_state a) w"
proof -
  obtain z so where "zouts w a = Some z" "scene_output z = Some so" by (rule output_live [OF assms])
  with emits_frame [OF assms(1)] show "handled (output_handle_frame a) w" "handled (output_handle_request_state a) w"
    by (simp_all add: handled_def output_handle_frame_def output_handle_request_state_def)
qed

lemma output_listeners_distinct: "distinct output_listeners"
  by (simp add: output_listeners_def)

lemma output_destroy_screens:
  assumes "screens_wf w" "zouts w a \<noteq> None"
  obtains w' L where "output_handle_destroy a w = Some w'" "w' = w\<lparr>lregs := L, zouts := (zouts w)(a := None)\<rparr>"
    "screens_wf w'"
proof -
  note sw = assms(1) [unfolded screens_wf_def]
  let ?L = "fold (\<lambda>f. remove1 (Of_Output a, f)) output_listeners (lregs w)"
  let ?w' = "w\<lparr>lregs := ?L, zouts := (zouts w)(a := None)\<rparr>"
  have "unlisten_all (Of_Output a) output_listeners w = Some (w\<lparr>lregs := ?L\<rparr>)"
    by (rule unlisten_all_Some [OF output_listeners_distinct]) (use sw assms(2) in auto)
  then have run: "output_handle_destroy a w = Some ?w'"
    using assms(2) by (auto simp: output_handle_destroy_def)
  have L: "set ?L = set (lregs w) - Pair (Of_Output a) ` set output_listeners" "distinct ?L"
    using sw by (simp_all add: set_fold_remove1 distinct_fold_remove1)
  have "screens_wf ?w'" using sw L by (auto simp: screens_wf_def split: if_splits)
  with that run show thesis by blast
qed

lemma output_gone_handled:
  assumes "desktop_wf w" "(Of_Output a, f) \<in> set (lregs w)"
  shows "handled (output_handle_destroy a) w"
proof -
  obtain z so where "zouts w a = Some z" by (rule output_live [OF assms])
  then obtain w' L where run: "output_handle_destroy a w = Some w'" and
    w': "w' = w\<lparr>lregs := L, zouts := (zouts w)(a := None)\<rparr>" "screens_wf w'"
    by (metis output_destroy_screens [OF desktop_wfD(5) [OF assms(1)]] option.distinct(1))
  have "overlay_wf w'" "lock_wf w'"
    using desktop_wfD(2,6) [OF assms(1)] by (auto elim: wf_parts simp: part_defs w'(1))
  with outputs_frame [OF outp.keepsD [OF output_destroy_keeps run] w'(2)] assms(1) run
  show ?thesis by (simp add: handled_def)
qed

text \<open>What a new output may change, besides its own struct and listeners.\<close>

definition shows_output :: "world \<Rightarrow> world \<Rightarrow> bool" where
  "shows_output w w' \<longleftrightarrow> zouts w' = zouts w \<and> lregs w' = lregs w \<and> lock_part w' = lock_part w \<and> overlay_wf w' \<and>
     (\<forall>x b. bufs w x = Some b \<longrightarrow> bufs w' x = Some b)"

lemma overlay_created:
  assumes "overlay_wf w" "test_overlay w = None" "shell_overlay_tree w = Some p" "fresh_in (o_overlay Q) (bufs w)"
    and live: "\<And>a. lock_buffer (s_lock w) = Some a \<Longrightarrow> bufs w a \<noteq> None"
  shows "\<exists>w'. create_test_overlay Q w = Some w' \<and> shows_output w w'"
proof (cases "o_overlay Q = None \<or> \<not> (ro_width (o_wallpaper Q) > 0 \<and> ro_height (o_wallpaper Q) > 0)")
  case True
  then show ?thesis using assms(1,2)
    by (auto simp: create_test_overlay_def shows_output_def lock_part_def overlay_wf_def Let_def split: option.split)
next
  case False
  then obtain a where a: "o_overlay Q = Some a" and pos: "ro_width (o_wallpaper Q) > 0" "ro_height (o_wallpaper Q) > 0"
    by auto
  have na: "bufs w a = None" using assms(4) a by (rule fresh_inD)
  then have nl: "lock_buffer (s_lock w) \<noteq> Some a" using live by blast
  let ?v = "w\<lparr>test_overlay := Some a, bufs := (bufs w)(a \<mapsto> empty_cairo_buffer)\<rparr>"
  obtain v r b cs where c: "zen_cairo_buffer_create (o_cairo Q) (Some a) (Some p) (ro_width (o_wallpaper Q)) 48 ?v = Some (v, r)"
    and v: "v = ?v\<lparr>bufs := (bufs ?v)(a \<mapsto> b), calls := calls ?v @ cs\<rparr>"
    and alt: "r = 0 \<and> buffer_complete b \<or> r = -1"
    by (rule create_cases [of ?v a empty_cairo_buffer "ro_width (o_wallpaper Q)" 48 "o_cairo Q" p]) (use pos in auto)
  show ?thesis
  proof (cases "r = 0")
    case True
    with alt obtain nd where nd: "scene_buffer b = Some nd" unfolding buffer_complete_def by auto
    let ?u = "emits (map Draw (overlay_drawing (ro_width (o_wallpaper Q)) 48 (o_text_size Q))) v"
    have "bufs ?u a = Some b" by (simp add: v)
    then obtain ds q where s: "zen_cairo_buffer_submit (Some a) ?u = Some (emits ds ?u, q)" by (rule submit_emits)
    have run: "create_test_overlay Q w = Some (emits (ds @ [Node (Set_position nd 0 (ro_height (o_wallpaper Q) - 48))]) ?u)"
      using a pos assms(3) c True s nd \<open>bufs ?u a = Some b\<close> alt
      by (auto simp: create_test_overlay_def Let_def zen_cairo_buffer_get_pango_def buffer_complete_def)
    show ?thesis unfolding run
      using nl na by (auto simp: shows_output_def v lock_part_def overlay_wf_def emits_def)
  next
    case nr: False
    then have run: "create_test_overlay Q w = Some (v\<lparr>bufs := (bufs v)(a := None), test_overlay := None\<rparr>)"
      using a pos assms(3) c by (simp add: create_test_overlay_def Let_def)
    show ?thesis unfolding run
      using na by (auto simp: shows_output_def v lock_part_def overlay_wf_def)
  qed
qed

lemma wallpaper_shown:
  assumes "overlay_wf w" "zouts w a = Some z"
    and "\<And>st. g_wallpaper_state w = Some st \<Longrightarrow> image_ok V (src_image st)"
  shows "\<exists>w' r. zen_wallpaper_render_output V a w = Some (w', r) \<and> shows_output w w' \<and>
    test_overlay w' = test_overlay w \<and> shell_overlay_tree w' = shell_overlay_tree w \<and> bufs w' = bufs w"
proof -
  from render_outcome_holds [OF assms(2), of V] assms(3) obtain w' r where
    run: "zen_wallpaper_render_output V a w = Some (w', r)" and "rendered V w w' r"
    by (auto simp: render_outcome_def)
  then obtain g cs where "w' = w\<lparr>g_wallpaper_state := g, calls := cs\<rparr>" unfolding rendered_def by blast
  with run assms(1) show ?thesis by (simp add: shows_output_def lock_part_def overlay_wf_def)
qed

lemma shows_output_trans: "shows_output u v \<Longrightarrow> shows_output v w \<Longrightarrow> shows_output u w"
  by (simp add: shows_output_def)

lemma shows_output_refl: "overlay_wf w \<Longrightarrow> shows_output w w"
  by (simp add: shows_output_def)

lemma output_decorated:
  assumes "overlay_wf w" "zouts w a = Some z" "lock_wf w" "fresh_in (o_overlay Q) (bufs w)"
    and img: "\<And>st. g_wallpaper_state w = Some st \<Longrightarrow> image_ok (o_wallpaper Q) (src_image st)"
  shows "\<exists>w'. do { w \<leftarrow> (if wallpaper_tree w \<noteq> None
         then do { (w, _) \<leftarrow> zen_wallpaper_render_output (o_wallpaper Q) a w; Some w } else Some w);
       if test_overlay w = None \<and> shell_overlay_tree w \<noteq> None then create_test_overlay Q w else Some w } = Some w' \<and>
    shows_output w w'"
proof -
  have "\<exists>v. (if wallpaper_tree w \<noteq> None
      then do { (w, _) \<leftarrow> zen_wallpaper_render_output (o_wallpaper Q) a w; Some w } else Some w) = Some v \<and>
    shows_output w v \<and> bufs v = bufs w"
    using wallpaper_shown [OF assms(1,2) img] assms(1) by (auto simp: shows_output_refl)
  then obtain v where v: "(if wallpaper_tree w \<noteq> None
      then do { (w, _) \<leftarrow> zen_wallpaper_render_output (o_wallpaper Q) a w; Some w } else Some w) = Some v"
    "shows_output w v" "bufs v = bufs w" by blast
  from v(2) have o: "overlay_wf v" "s_lock v = s_lock w" by (simp_all add: shows_output_def lock_part_def)
  have l: "lock_buffer (s_lock v) = Some x \<Longrightarrow> bufs v x \<noteq> None" for x
    using assms(3) o(2) v(3) by (auto simp: lock_wf_def)
  have "\<exists>w'. (if test_overlay v = None \<and> shell_overlay_tree v \<noteq> None then create_test_overlay Q v else Some v) = Some w' \<and>
    shows_output v w'"
  proof (cases "test_overlay v = None \<and> shell_overlay_tree v \<noteq> None")
    case True
    with overlay_created [OF o(1) _ _ _ l, of _ Q] assms(4) v(3) show ?thesis by auto
  next
    case False
    then show ?thesis using o(1) by (auto simp: shows_output_refl)
  qed
  with v show ?thesis by (auto intro: shows_output_trans)
qed

lemma output_added_handled:
  assumes "desktop_wf w" "event_ok (Output_added Q out) w"
  shows "handled (handle_new_output Q out) w"
proof (cases "o_calloc Q")
  case None
  with assms(1) desktop_core(3,4) [OF assms(1)] emits_frame [OF assms(1)] show ?thesis
    by (auto simp: handled_def handle_new_output_def Let_def)
next
  case (Some a)
  note sw = desktop_wfD(5) [OF assms(1), unfolded screens_wf_def]
  from assms(2) obtain so where so: "o_scene_output Q = Some so" by auto
  from assms(2) Some have na: "zouts w a = None" by (auto dest: fresh_inD)
  let ?L = "lregs w @ map (Pair (Of_Output a)) output_listeners"
  let ?z = "\<lparr>wlr_output = out, scene_output = Some so\<rparr>"
  define v0 where "v0 = (emits [Output (Init_render out), Output (Commit_mode out (o_mode Q) 1)] w)
    \<lparr>zouts := (zouts w)(a \<mapsto> \<lparr>wlr_output = out, scene_output = None\<rparr>)\<rparr>"
  define v where "v = emits [Output (Layout_add_auto out), Output (Scene_layout_add out (Some so))]
    (v0\<lparr>lregs := ?L, zouts := (zouts w)(a \<mapsto> ?z)\<rparr>)"
  have "listen_all (Of_Output a) output_listeners v0 = Some (v0\<lparr>lregs := lregs v0 @ map (Pair (Of_Output a)) output_listeners\<rparr>)"
    by (rule listen_all_Some [OF output_listeners_distinct]) (use sw na in \<open>auto simp: v0_def emits_def\<close>)
  then have run: "handle_new_output Q out w = do { w \<leftarrow> (if wallpaper_tree v \<noteq> None
         then do { (w, _) \<leftarrow> zen_wallpaper_render_output (o_wallpaper Q) a v; Some w } else Some v);
       if test_overlay w = None \<and> shell_overlay_tree w \<noteq> None then create_test_overlay Q w else Some w }"
    using desktop_core(3-7) [OF assms(1)] Some so
    by (auto simp: handle_new_output_def Let_def v_def v0_def emits_def)
  have wv: "overlay_wf v" "lock_wf v" "zouts v a = Some ?z" "bufs v = bufs w" "g_wallpaper_state v = g_wallpaper_state w"
    using desktop_wfD(2,6) [OF assms(1)] by (auto elim: wf_parts simp: part_defs v_def v0_def emits_def)
  have "\<exists>w'. handle_new_output Q out w = Some w' \<and> shows_output v w'"
    unfolding run by (rule output_decorated [OF wv(1,3,2)]) (use assms(2) wv in \<open>auto split: option.splits\<close>)
  then obtain w' where w': "handle_new_output Q out w = Some w'" "shows_output v w'" by blast
  have "zouts v = (zouts w)(a \<mapsto> ?z)" "lregs v = ?L" by (simp_all add: v_def emits_def)
  with sw na have "screens_wf v"
    using output_listeners_distinct by (auto simp: screens_wf_def distinct_map inj_on_def)
  with w'(2) have "screens_wf w'" by (simp add: shows_output_def screens_wf_def)
  moreover from w'(2) have "overlay_wf w'" by (simp add: shows_output_def)
  moreover from w'(2) wv(2) have "lock_wf w'"
    by (auto simp: shows_output_def lock_wf_def lock_part_def password_ok_def)
  ultimately show ?thesis
    using outputs_frame [OF outp.keepsD [OF new_output_keeps w'(1)]] assms(1) w'(1) by (simp add: handled_def)
qed

section \<open>The running desktop\<close>

lemma linked_keyboard: "desktop_wf w \<Longrightarrow> (Of_Keyboard kb, f) \<in> set (lregs w) \<Longrightarrow> kbds w kb \<noteq> None"
  unfolding desktop_wf_def keyboards_wf_def by blast

lemma lock_callback_handled:
  assumes "desktop_wf w" "fresh_in (lock_calloc E) (bufs w)"
  shows "handled (\<lambda>w. discard (idle_timeout_cb E w)) w" "handled (\<lambda>w. discard (lock_signal_cb E w)) w"
  using activate_handled [OF assms]
  by (auto simp: handled_def discard_def idle_timeout_cb_def lock_signal_cb_def)

lemmas handled_rules = handled_signal window_signal_handled window_opens_handled key_handled modifiers_handled
  keyboard_gone_handled motion_handled button_handled cursor_request_handled device_handled
  layer_signal_handled layer_opens_handled output_frame_handled output_gone_handled output_added_handled

lemma deliver_handled:
  assumes "desktop_wf w" "event_ok e w"
  shows "handled (deliver e) w"
proof (cases e)
  case (Idle_expires E)
  with assms lock_callback_handled(1) [OF assms(1), of E] show ?thesis by (auto simp: handled_def)
next
  case (Logind_locks E)
  with assms lock_callback_handled(2) [OF assms(1), of E] show ?thesis by (auto simp: handled_def)
next
  case (Bus_readable m)
  with assms bus_handled [OF assms(1), of m] show ?thesis by (auto simp: handled_def)
next
  case (Client_locks l)
  have "handled (\<lambda>w. Some (handle_new_lock l w)) w"
    using emits_frame [OF assms(1), of "[Send_locked l]"] by (simp add: handled_def handle_new_lock_def)
  with handled_signal [OF assms(1)] Client_locks show ?thesis by simp
qed (use assms linked_keyboard [OF assms(1)] in \<open>auto intro!: handled_rules simp del: event_ok.simps\<close>,
     use assms in \<open>auto intro: motion_handled\<close>)

lemma run_events_wf:
  "desktop_wf w \<Longrightarrow> events_ok es w \<Longrightarrow> \<exists>w'. run_events es w = Some w' \<and> desktop_wf w'"
proof (induction es arbitrary: w)
  case (Cons e es)
  from deliver_handled [OF Cons.prems(1), of e] Cons.prems(2) obtain v where
    "deliver e w = Some v" "desktop_wf v" by (auto simp: handled_def)
  with Cons show ?case by simp
qed simp

end
