(* ===== verification/Zen_Desktop_Boot.thy ===== *)
theory Zen_Desktop_Boot
  imports Zen_Desktop
begin

text \<open>
  From creation to the event loop: the state a successful creation hands to the event loop
  satisfies the invariant of the running desktop, with every listener of the compositor linked.
\<close>

section \<open>What each step of creation establishes\<close>

text \<open>After step \<open>k\<close> of creation; the first line holds from the core on.\<close>

definition boots :: "nat \<Rightarrow> world \<Rightarrow> bool" where
  "boots k w \<longleftrightarrow> focused_toplevel w = None \<and> grabbed_toplevel w = None \<and> \<not> locked w \<and> lock_wf w \<and>
     activated (calls w) = (\<lambda>_. False) \<and> allocator w \<noteq> None \<and> renderer w \<noteq> None \<and> output_layout w \<noteq> None \<and>
     scene_layout w \<noteq> None \<and> (dbus_event_source w \<noteq> None \<longrightarrow> bus w \<noteq> None) \<and>
     (\<forall>a z. zouts w a = Some z \<longrightarrow> scene_output z \<noteq> None) \<and>
     (\<forall>a f. (Of_Keyboard a, f) \<notin> set (lregs w) \<and> (Of_Layer a, f) \<notin> set (lregs w)) \<and>
     (Of_Compositor, L_new_output) \<in> set (lregs w) \<and>
     (k > 1 \<longrightarrow> toplevels w = Some [] \<and> (Of_Compositor, L_new_xdg_toplevel) \<in> set (lregs w)) \<and>
     (k > 2 \<longrightarrow> keyboards w = Some [] \<and> seat w \<noteq> None \<and> cursor w \<noteq> None \<and>
        (\<forall>f \<in> set input_listeners. (Of_Compositor, f) \<in> set (lregs w))) \<and>
     (k > 5 \<longrightarrow> keybindings w \<noteq> None) \<and>
     (k > 6 \<longrightarrow> layer_surfaces w = Some [] \<and> (Of_Compositor, L_new_layer_surface) \<in> set (lregs w)) \<and>
     (k > 8 \<longrightarrow> (Of_Module, L_new_lock) \<in> set (lregs w))"

definition stage_boots :: "nat \<Rightarrow> (world \<Rightarrow> (world \<times> bool) option) \<Rightarrow> bool" where
  "stage_boots k s \<longleftrightarrow> (\<forall>w w'. boots k w \<longrightarrow> s w = Some (w', True) \<longrightarrow> boots (Suc k) w')"

lemma lock_wf_cong:
  "s_password w' = s_password w \<Longrightarrow> s_password_len w' = s_password_len w \<Longrightarrow> s_lock w' = s_lock w \<Longrightarrow>
   locked w' = locked w \<Longrightarrow> bufs w' = bufs w \<Longrightarrow> lock_wf w' = lock_wf w"
  by (simp add: lock_wf_def password_ok_def)

lemma listen_Some: "listen l w = Some w' \<longleftrightarrow> l \<notin> set (lregs w) \<and> w' = w\<lparr>lregs := lregs w @ [l]\<rparr>"
  by (auto simp: listen_def)

lemma boots_xdg: "stage_boots 1 (stage_xdg E)"
  by (auto simp: stage_boots_def stage_xdg_def zen_xdg_init_def bind_eq_Some_conv Let_def listen_Some boots_def
      wl_list_init_def lock_wf_def password_ok_def split: if_splits)

lemma boots_input: "stage_boots 2 (stage_input E)"
  by (auto simp: stage_boots_def stage_input_def zen_input_init_def input_init_failed_def bind_eq_Some_conv Let_def
      listen_Some boots_def wl_list_init_def lock_wf_def password_ok_def emits_def activated_append input_listeners_def
      split: if_splits option.splits)

lemma boots_overlay: "stage_boots 3 (stage_overlay E)"
  by (auto simp: stage_boots_def stage_overlay_def bind_eq_Some_conv Let_def boots_def
      lock_wf_def password_ok_def emits_def activated_append split: option.splits)

lemma boots_wallpaper: "stage_boots 4 (stage_wallpaper E)"
  by (auto simp: stage_boots_def stage_wallpaper_def zen_wallpaper_init_def load_wallpaper_def bind_eq_Some_conv
      Let_def boots_def lock_wf_def password_ok_def emits_def activated_append
      split: option.splits if_splits prod.splits)

lemma boots_keybinds:
  assumes "config_firm (c_keybinds E)"
  shows "stage_boots 5 (stage_keybinds E)"
  unfolding stage_boots_def
proof (intro allI impI)
  fix w w' assume "boots 5 w" "stage_keybinds E w = Some (w', True)"
  moreover obtain k r where "zen_keybinds_init (c_keybinds E) CPTR w = Some (w\<lparr>keybindings := Some k\<rparr>, r)"
    using keybinds_init_shape [OF assms] by blast
  ultimately have "boots 5 w" "w' = w\<lparr>keybindings := Some k\<rparr>" by (simp_all add: stage_keybinds_def)
  then show "boots (Suc 5) w'" by (auto simp: boots_def lock_wf_def password_ok_def)
qed

lemma boots_layer: "stage_boots 6 (stage_layer E)"
  by (auto simp: stage_boots_def stage_layer_def zen_layer_init_def bind_eq_Some_conv Let_def listen_Some boots_def
      wl_list_init_def lock_wf_def password_ok_def split: if_splits)

lemma boots_dbus: "stage_boots 7 (stage_dbus E)"
  by (auto simp: stage_boots_def stage_dbus_def zen_dbus_init_def zen_dbus_destroy_def bind_eq_Some_conv
      Let_def boots_def lock_wf_def password_ok_def emits_def activated_append fold_activation_other
      split: option.splits if_splits prod.splits)

lemma boots_lock: "stage_boots 8 (stage_lock E)"
  by (auto simp: stage_boots_def stage_lock_def zen_lock_init_def bind_eq_Some_conv listen_Some
      Let_def boots_def emits_def activated_append wipe_password_def lock_wf_def password_ok_def holds_text_empty
      empty_lock_screen_def
      split: option.splits if_splits prod.splits)

lemma boots_shell: "stage_boots 9 (stage_shell E)"
  by (auto simp: stage_boots_def stage_shell_def zen_shell_init_def Let_def boots_def lock_wf_def password_ok_def
      split: if_splits)

section \<open>The steps composed\<close>

lemma run_stages_boots:
  "(\<And>i. i < length ss \<Longrightarrow> stage_boots (k + i) (ss ! i)) \<Longrightarrow> boots k w \<Longrightarrow>
   run_stages ss w = Some (w', True) \<Longrightarrow> boots (k + length ss) w'"
proof (induction ss arbitrary: k w)
  case (Cons s ss)
  from Cons.prems(3) obtain v where v: "s w = Some (v, True)" "run_stages ss v = Some (w', True)"
    by (auto simp: bind_eq_Some_conv split: if_splits)
  have "boots (Suc k) v" using Cons.prems(1) [of 0] Cons.prems(2) v(1) by (simp add: stage_boots_def)
  moreover have "stage_boots (Suc k + i) (ss ! i)" if "i < length ss" for i
    using Cons.prems(1) [of "Suc i"] that by simp
  ultimately show ?case using Cons.IH [of "Suc k" v] v(2) by simp
qed simp

lemma create_modules_boots:
  assumes "config_firm (c_keybinds E)" "boots 1 w" "create_modules E w = Some (w', True)"
  shows "boots 10 w'"
proof -
  let ?ss = "[stage_xdg E, stage_input E, stage_overlay E, stage_wallpaper E, stage_keybinds E, stage_layer E,
    stage_dbus E, stage_lock E, stage_shell E]"
  note st = boots_xdg boots_input boots_overlay boots_wallpaper boots_keybinds [OF assms(1)] boots_layer
    boots_dbus boots_lock boots_shell
  have "stage_boots (1 + i) (?ss ! i)" if "i < length ?ss" for i
  proof -
    from that have "i = 0 \<or> i = 1 \<or> i = 2 \<or> i = 3 \<or> i = 4 \<or> i = 5 \<or> i = 6 \<or> i = 7 \<or> i = 8" by auto
    then show ?thesis using st by (elim disjE) (simp_all add: eval_nat_numeral)
  qed
  from run_stages_boots [of ?ss 1, OF this assms(2)] assms(3) show ?thesis
    by (simp add: create_modules_def eval_nat_numeral)
qed

lemma listen_all_only: "listen_all ow fs w = Some w' \<Longrightarrow> w' = w\<lparr>lregs := lregs w'\<rparr>"
proof (induction fs arbitrary: w)
  case (Cons f fs)
  then obtain v where "v = w\<lparr>lregs := lregs w @ [(ow, f)]\<rparr>" "listen_all ow fs v = Some w'"
    by (auto simp: bind_eq_Some_conv listen_Some)
  with Cons.IH [of v] show ?case by simp
qed simp

lemma new_output_scene:
  assumes "bare w" "handle_new_output Q out w = Some w'"
    and "\<And>a z. zouts w a = Some z \<Longrightarrow> scene_output z \<noteq> None"
  shows "bufs w' = bufs w \<and> (\<forall>a z. zouts w' a = Some z \<longrightarrow> scene_output z \<noteq> None)"
proof (cases "o_calloc Q")
  case None
  with assms show ?thesis by (auto simp: handle_new_output_def bare_def emits_def)
next
  case (Some a)
  let ?v = "(emits [Output (Init_render out), Output (Commit_mode out (o_mode Q) 1)] w)
    \<lparr>zouts := (zouts w)(a \<mapsto> \<lparr>wlr_output = out, scene_output = None\<rparr>)\<rparr>"
  obtain u where u: "listen_all (Of_Output a) output_listeners ?v = Some u"
    using assms(1,2) Some by (auto simp: handle_new_output_def bare_def Let_def bind_eq_Some_conv emits_def)
  have only: "u = ?v\<lparr>lregs := lregs u\<rparr>" by (rule listen_all_only [OF u])
  have "wallpaper_tree u = None" "shell_overlay_tree u = None" "zouts u = zouts ?v" "bufs u = bufs w"
    by (subst only, use assms(1) in \<open>simp add: bare_def emits_def\<close>)+
  then show ?thesis using assms(2,3) Some u
    by (auto simp: handle_new_output_def Let_def bind_eq_Some_conv emits_def split: if_splits)
qed

lemma new_output_boots:
  assumes "boots 1 w" "bare w" "handle_new_output Q out w = Some w'"
  shows "boots 1 w' \<and> bare w'"
proof -
  have f: "no_outputs w' = no_outputs w" by (rule outp.keepsD [OF new_output_keeps assms(3)])
  have p: "lock_part v = lock_part (fst (no_outputs v))" "focused_toplevel v = focused_toplevel (fst (no_outputs v))"
    "grabbed_toplevel v = grabbed_toplevel (fst (no_outputs v))" "core_part v = core_part (fst (no_outputs v))"
    "wallpaper_tree v = wallpaper_tree (fst (no_outputs v))" "shell_overlay_tree v = shell_overlay_tree (fst (no_outputs v))"
    "filter (not_of Of_Output) (lregs v) = lregs (fst (no_outputs v))" "activated (calls v) = snd (no_outputs v)" for v
    by (simp_all add: part_defs no_outputs_def)
  note q = p [of w', unfolded f, folded p [of w]]
  note l = lregs_other [OF q(7)]
  have z: "bufs w' = bufs w \<and> (\<forall>a z. zouts w' a = Some z \<longrightarrow> scene_output z \<noteq> None)"
    by (rule new_output_scene [OF assms(2,3)]) (use assms(1) in \<open>simp add: boots_def\<close>)
  show ?thesis using assms(1,2) q l z
    by (auto simp: boots_def bare_def part_defs lock_wf_def password_ok_def)
qed

lemma backend_start_boots:
  "boots 1 w \<Longrightarrow> bare w \<Longrightarrow> backend_start ns w = Some w' \<Longrightarrow> boots 1 w'"
proof (induction ns arbitrary: w)
  case (Cons e ns)
  show ?case
  proof (cases e)
    case (New_output Q a)
    with Cons.prems obtain v where v: "handle_new_output Q a w = Some v" "backend_start ns v = Some w'"
      by (auto simp: bare_def bind_eq_Some_conv)
    with new_output_boots [OF Cons.prems(1,2) v(1)] Cons.IH show ?thesis by blast
  next
    case (New_input I ty d)
    with Cons show ?thesis by (auto simp: bare_def)
  qed
qed simp

lemma create_core_boots:
  assumes "create_core E (zero_world\<lparr>clear_color := ZEN_CLEAR_COLOR\<rparr>) = Some (w, True)"
  shows "boots 1 w"
proof -
  from assms obtain v where v: "backend_start (c_announced E) v = Some w" and "boots 1 v" "bare v"
    by (auto simp: create_core_def bind_eq_Some_conv listen_Some Let_def emits_def boots_def bare_def zero_world_def
        lock_wf_def password_ok_def holds_text_empty activated_def
        split: option.splits intro!: that)
  then show ?thesis by (blast intro: backend_start_boots)
qed

lemma created_boots:
  assumes "config_firm (c_keybinds E)" "zen_compositor_create E (stack_world junk s) = Some (w, 0)"
  shows "boots 10 w"
proof -
  from assms(2) obtain v where "create_core E (zero_world\<lparr>clear_color := ZEN_CLEAR_COLOR\<rparr>) = Some (v, True)"
    "create_modules E v = Some (w, True)"
    by (auto simp: zen_compositor_create_def memset_stack bind_eq_Some_conv Let_def split: if_splits)
  with create_modules_boots [OF assms(1)] create_core_boots show ?thesis by blast
qed

text \<open>Creation ends in the invariant of the running desktop.\<close>

lemma boots_desktop:
  assumes "boots 10 w" "startup E w" "todo 10 w"
  shows "desktop_wf w"
proof -
  have "xdg_wf w"
    by (rule xdg_wfI [where l = "[]"]) (use assms(1,2) in \<open>auto simp: boots_def startup_def focused_handle_def\<close>)
  moreover have "keyboards_wf w" "layers_wf w" "screens_wf w" "overlay_wf w" "core_ready w" "lock_wf w"
    using assms by (auto simp: boots_def startup_def todo_def keyboards_wf_def layers_wf_def screens_wf_def
        overlay_wf_def core_ready_def)
  ultimately show ?thesis by (simp add: desktop_wf_def)
qed

lemma created_desktop:
  assumes "announced_ok (c_announced E)" "config_firm (c_keybinds E)"
    and "zen_compositor_create E (stack_world junk s) = Some (w, 0)"
  shows "desktop_wf w"
proof -
  from compositor_create_outcome [OF assms(1,2), of junk s] assms(3) have "startup E w" "todo 10 w"
    by (auto simp: good_def)
  with created_boots [OF assms(2,3)] show ?thesis by (rule boots_desktop)
qed

text \<open>\<open>zen_compositor_run\<close> makes a few calls and enters the event loop.\<close>

lemma run_boot:
  assumes "wl_display w \<noteq> None"
  shows "\<exists>cs. (\<forall>loop. zen_compositor_run E loop w = loop (emits cs w)) \<and> (\<forall>s. fold activation cs s = s)"
proof -
  let ?cs = "(case c_socket E of None \<Rightarrow> [] | Some s \<Rightarrow> [Setenv ''WAYLAND_DISPLAY'' s]) @
    (if c_serial_ok E then [Serial ((case c_socket E of None \<Rightarrow> [] | Some s \<Rightarrow> [''ZEN_WAYLAND_SOCKET='' @ s]) @
       [''ZEN_BOOT_OK''])] else [])"
  show ?thesis
    by (rule exI [of _ ?cs])
       (use assms in \<open>auto simp: zen_compositor_run_def emit_boot_signal_def activation_def Let_def split: option.split\<close>)
qed

end
