(* ===== verification/Zen_Desktop_Shutdown.thy ===== *)
theory Zen_Desktop_Shutdown
  imports Zen_Desktop
begin

text \<open>
  Shutting a running desktop down: the modules are destroyed in turn, then the display's
  clients, the outputs and the core. Exactly when a window is still open the order of these
  steps is fatal: \<open>zen_xdg_destroy\<close> frees the windows while their listeners stay linked, and
  \<open>wl_display_destroy_clients\<close> calls them.
\<close>

section \<open>While the modules go away\<close>

text \<open>What the later destructors still need, with the windows \<open>W\<close> open.\<close>

definition closing :: "addr set \<Rightarrow> world \<Rightarrow> bool" where
  "closing W w \<longleftrightarrow> (\<exists>l. toplevels w = Some l \<and> distinct l \<and> set l = dom (tops w)) \<and> dom (tops w) = W \<and>
     (\<forall>a f. (Of_Toplevel a, f) \<in> set (lregs w) \<longleftrightarrow> a \<in> W \<and> f \<in> set toplevel_listeners) \<and>
     keyboards_wf w \<and> layers_wf w \<and> screens_wf w \<and> wl_display w \<noteq> None \<and> backend w \<noteq> None"

lemma desktop_closing: "desktop_wf w \<Longrightarrow> closing (dom (tops w)) w"
  unfolding desktop_wf_def xdg_wf_def closing_def core_ready_def by blast

definition late_part where
  "late_part w = (toplevels w, tops w, lregs w, keyboards w, kbds w, layer_surfaces w, lays w, zouts w,
     wl_display w, backend w)"

interpretation late: frame late_part .

lemma closing_late: "late_part w' = late_part w \<Longrightarrow> closing W w \<Longrightarrow> closing W w'"
  by (auto simp: closing_def late_part_def keyboards_wf_def layers_wf_def screens_wf_def)

text \<open>Destroying the overlay and the lock touches none of it.\<close>

lemma cairo_destroy_late: "late.keeps (zen_cairo_buffer_destroy p)"
  unfolding zen_cairo_buffer_destroy_def
  by (rule late.keeps_rules | simp add: late_part_def emits_def)+

lemma overlay_closes:
  assumes "overlay_wf w" "lock_wf w"
  shows "\<exists>w'. destroy_overlay w = Some w' \<and> late_part w' = late_part w \<and> lock_wf w'"
proof (cases "test_overlay w")
  case None
  with assms show ?thesis by (simp add: destroy_overlay_def)
next
  case (Some a)
  with assms(1) obtain b where b: "bufs w a = Some b" "lock_buffer (s_lock w) \<noteq> Some a"
    by (auto simp: overlay_wf_def)
  have "destroy_overlay w = Some (w\<lparr>bufs := (bufs w)(a := None), calls := calls w @ buffer_releases b, test_overlay := None\<rparr>)"
    using Some b(1) by (simp add: destroy_overlay_def destroy_Some)
  with assms(2) b(2) show ?thesis by (auto simp: late_part_def lock_wf_def password_ok_def)
qed

lemma lock_closes:
  assumes "lock_wf w"
  shows "\<exists>w'. zen_lock_destroy sd CPTR w = Some w' \<and> late_part w' = late_part w"
proof -
  have free: "late.keeps free_lock_buffer" unfolding free_lock_buffer_def
    by (rule late.keeps_rules cairo_destroy_late | simp add: late_part_def)+
  have "late.keeps (zen_lock_destroy sd CPTR)" unfolding zen_lock_destroy_def
    by (rule late.keeps_rules free | simp add: late_part_def wipe_password_def emits_def)+
  with lock_destroy_clean [OF assms, of sd] show ?thesis unfolding late.keeps_def by blast
qed

text \<open>The layer surfaces and the keyboards take their listeners with them.\<close>

lemma free_layer_surfaces_keeps: "lay.keeps (free_layer_surfaces l)"
proof (induction l)
  case (Cons a l)
  have "lay.keeps (layer_notify L_destroy a)" by (rule layer_notify_keeps)
  then have "lay.keeps (handle_layer_surface_destroy a)"
    by (simp add: layer_notify_def [abs_def])
  with Cons show ?case by (fastforce simp: lay.keeps_def split: option.splits)
qed (simp add: lay.keeps_def)

lemma layers_close:
  assumes "closing W w"
  shows "\<exists>w'. zen_layer_destroy CPTR w = Some w' \<and> closing W w'"
proof -
  have t: "ly.tracked w" using assms by (simp add: closing_def layers_wf_tracked)
  then obtain l where l: "layer_surfaces w = Some l" unfolding ly.tracked_def by blast
  have "\<exists>v. free_layer_surfaces l w = Some v \<and> ly.tracked v \<and> layer_surfaces v = Some [] \<and>
      lays v = Map.empty \<and> calls v = calls w"
    by (rule ly.tracked_drop_all [where drop_list = free_layer_surfaces and
          drop_one = handle_layer_surface_destroy and P = "\<lambda>w w'. calls w' = calls w"])
       (use t l layer_drop in auto)
  then obtain v where v: "free_layer_surfaces l w = Some v" "ly.tracked v" "lays v = Map.empty" by blast
  have "no_layers v = no_layers w" by (rule lay.keepsD [OF free_layer_surfaces_keeps v(1)])
  moreover have p: "toplevels u = toplevels (fst (no_layers u))" "tops u = tops (fst (no_layers u))"
    "kb_part u = kb_part (fst (no_layers u))" "zouts u = zouts (fst (no_layers u))"
    "wl_display u = wl_display (fst (no_layers u))" "backend u = backend (fst (no_layers u))"
    "filter (not_of Of_Layer) (lregs u) = lregs (fst (no_layers u))" for u
    by (simp_all add: part_defs no_layers_def)
  ultimately have q: "toplevels v = toplevels w" "tops v = tops w" "kb_part v = kb_part w" "zouts v = zouts w"
    "wl_display v = wl_display w" "backend v = backend w"
    "filter (not_of Of_Layer) (lregs v) = filter (not_of Of_Layer) (lregs w)" by metis+
  have "closing W v" using assms q lregs_other [OF q(7)] v ly.tracked_lregs(1) [OF v(2)]
    by (auto simp: closing_def kb_part_def keyboards_wf_def screens_wf_def layers_wf_tracked)
  then have "closing W (v\<lparr>layer_shell := None\<rparr>)" by (rule closing_late [rotated]) (simp add: late_part_def)
  with v(1) l show ?thesis by (simp add: zen_layer_destroy_def)
qed

lemma free_keyboards_keeps: "kbd.keeps (free_keyboards l)"
proof (induction l)
  case (Cons a l)
  with keyboard_destroy_keeps [of a] show ?case by (fastforce simp: kbd.keeps_def split: option.splits)
qed (simp add: kbd.keeps_def)

lemma keyboards_close:
  assumes "closing W w" "keyboards w = Some l"
  shows "\<exists>v. free_keyboards l w = Some v \<and> closing W v"
proof -
  have t: "kb.tracked w" using assms by (simp add: closing_def keyboards_wf_tracked)
  from free_keyboards_effect [OF t assms(2)] obtain v where
    v: "free_keyboards l w = Some v" "kb.tracked v" "kbds v = Map.empty" by blast
  have "no_keyboards v = no_keyboards w" by (rule kbd.keepsD [OF free_keyboards_keeps v(1)])
  moreover have p: "toplevels u = toplevels (fst (no_keyboards u))" "tops u = tops (fst (no_keyboards u))"
    "layer_part u = layer_part (fst (no_keyboards u))" "zouts u = zouts (fst (no_keyboards u))"
    "wl_display u = wl_display (fst (no_keyboards u))" "backend u = backend (fst (no_keyboards u))"
    "filter (not_of Of_Keyboard) (lregs u) = lregs (fst (no_keyboards u))" for u
    by (simp_all add: part_defs no_keyboards_def)
  ultimately have q: "toplevels v = toplevels w" "tops v = tops w" "layer_part v = layer_part w" "zouts v = zouts w"
    "wl_display v = wl_display w" "backend v = backend w"
    "filter (not_of Of_Keyboard) (lregs v) = filter (not_of Of_Keyboard) (lregs w)" by metis+
  have "closing W v" using assms(1) q lregs_other [OF q(7)] v kb.tracked_lregs(1) [OF v(2)]
    by (auto simp: closing_def layer_part_def layers_wf_def screens_wf_def keyboards_wf_tracked)
  with v(1) show ?thesis by blast
qed

text \<open>A listener of the compositor itself may go.\<close>

lemma closing_unlisten:
  assumes "closing W w" "distinct ls" "\<And>ow f. ow \<noteq> Of_Compositor \<Longrightarrow> (ow, f) \<in> set ls \<longleftrightarrow> (ow, f) \<in> set (lregs w)"
  shows "closing W (w\<lparr>lregs := ls\<rparr>)"
  using assms by (auto simp: closing_def keyboards_wf_def layers_wf_def screens_wf_def)

lemma input_closes:
  assumes "closing W w"
  shows "\<exists>w'. zen_input_destroy CPTR w = Some w' \<and> closing W w'"
proof -
  obtain l where l: "keyboards w = Some l" using assms by (auto simp: closing_def keyboards_wf_def)
  from keyboards_close [OF assms l] obtain v where v: "free_keyboards l w = Some v" "closing W v" by blast
  then have "distinct (lregs v)" by (simp add: closing_def screens_wf_def)
  from unlisten_linked_effect [OF this, of Of_Compositor input_listeners] obtain ls where
    ls: "unlisten_linked Of_Compositor input_listeners v = Some (v\<lparr>lregs := ls\<rparr>)" "distinct ls"
      "set ls = set (lregs v) - Pair Of_Compositor ` set input_listeners" by blast
  have c: "closing W (v\<lparr>lregs := ls\<rparr>)" by (rule closing_unlisten [OF v(2) ls(2)]) (use ls(3) in auto)
  obtain w' where "zen_input_destroy CPTR w = Some w'" "late_part w' = late_part (v\<lparr>lregs := ls\<rparr>)"
    using l v(1) ls(1)
    by (auto simp: zen_input_destroy_def Let_def late_part_def emits_def split: option.split)
  with closing_late [OF _ c] show ?thesis by blast
qed

section \<open>The order that is fatal\<close>

text \<open>The modules always go away; the windows are freed, and their listeners are not.\<close>

definition closed :: "addr set \<Rightarrow> world \<Rightarrow> bool" where
  "closed W w \<longleftrightarrow> tops w = Map.empty \<and> screens_wf w \<and> wl_display w \<noteq> None \<and> backend w \<noteq> None \<and>
     (\<forall>a f. (Of_Toplevel a, f) \<in> set (lregs w) \<longleftrightarrow> a \<in> W \<and> f \<in> set toplevel_listeners)"

lemma xdg_closes:
  assumes "closing W w"
  shows "\<exists>w'. zen_xdg_destroy CPTR w = Some w' \<and> closed W w'"
proof -
  from assms obtain l where l: "toplevels w = Some l" "distinct l" "set l = dom (tops w)"
    unfolding closing_def by blast
  let ?v = "w\<lparr>toplevels := Some [], tops := Map.empty\<rparr>"
  have "(\<lambda>b. if b \<in> set l then None else tops w b) = Map.empty" using l(3) by (auto simp: fun_eq_iff)
  then have "free_toplevels l w = Some ?v" using free_toplevels_effect [OF l(1,2)] l(3) by simp
  then show ?thesis using l(1) assms
    by (auto simp: zen_xdg_destroy_def closed_def closing_def screens_wf_def unlisten_def in_set_remove1 set_remove1_eq Let_def)
qed

lemma modules_close:
  assumes "desktop_wf w"
  shows "\<exists>w'. destroy_modules E w = Some w' \<and> closed (dom (tops w)) w'"
proof -
  let ?W = "dom (tops w)"
  from overlay_closes [OF desktop_wfD(6,2) [OF assms]] obtain w1 where
    w1: "destroy_overlay w = Some w1" "late_part w1 = late_part w" "lock_wf w1" by blast
  define w2 where "w2 = (case shell w1 of None \<Rightarrow> w1 | Some _ \<Rightarrow> (zen_shell_destroy w1)\<lparr>shell := None\<rparr>)"
  have w2: "late_part w2 = late_part w1" "lock_wf w2"
    using w1(3) by (auto simp: w2_def zen_shell_destroy_def late_part_def lock_wf_def password_ok_def split: option.split)
  from lock_closes [OF w2(2)] obtain w3 where
    w3: "zen_lock_destroy (have_systemd (c_lock E)) CPTR w2 = Some w3" "late_part w3 = late_part w2" by blast
  define w4 where "w4 = zen_dbus_destroy CPTR w3"
  have w4: "late_part w4 = late_part w3" by (simp add: w4_def zen_dbus_destroy_def late_part_def emits_def)
  have "closing ?W w4"
    by (rule closing_late [OF _ desktop_closing [OF assms]]) (use w1 w2 w3 w4 in simp)
  from layers_close [OF this] obtain w5 where w5: "zen_layer_destroy CPTR w4 = Some w5" "closing ?W w5" by blast
  define w6 where "w6 = zen_wallpaper_destroy (zen_keybinds_destroy CPTR w5)"
  have "late_part w6 = late_part w5"
    by (simp add: w6_def zen_wallpaper_destroy_def zen_keybinds_destroy_def late_part_def emits_def split: option.split)
  then have "closing ?W w6" using w5(2) by (rule closing_late)
  from input_closes [OF this] obtain w7 where w7: "zen_input_destroy CPTR w6 = Some w7" "closing ?W w7" by blast
  from xdg_closes [OF w7(2)] obtain w8 where w8: "zen_xdg_destroy CPTR w7 = Some w8" "closed ?W w8" by blast
  have "destroy_modules E w = Some w8" unfolding destroy_modules_def
    using w1(1) w3(1) w5(1) w7(1) w8(1) by (simp add: w2_def [symmetric] w4_def [symmetric] w6_def [symmetric] Let_def)
  with w8(2) show ?thesis by blast
qed

lemma end_outputs_total:
  "screens_wf w \<Longrightarrow> distinct as \<Longrightarrow> set as \<subseteq> dom (zouts w) \<Longrightarrow> \<exists>w'. end_outputs as w = Some w'"
proof (induction as arbitrary: w)
  case (Cons a as)
  then have "zouts w a \<noteq> None" by auto
  then obtain v L where v: "output_handle_destroy a w = Some v" "v = w\<lparr>lregs := L, zouts := (zouts w)(a := None)\<rparr>"
    "screens_wf v" by (rule output_destroy_screens [OF Cons.prems(1)])
  moreover have "set as \<subseteq> dom (zouts v)" using Cons.prems(2,3) by (auto simp: v(2))
  ultimately show ?case using Cons by simp
qed simp

text \<open>With no window open, the core goes away as well.\<close>

lemma core_closes:
  assumes "closed {} w"
  shows "\<exists>w'. destroy_core E w = Some w'"
proof -
  from assms have none: "List.map_filter toplevel_destroy_listener (lregs w) = []" and sc: "screens_wf w"
    by (auto simp: closed_def intro: no_toplevel_listeners)
  then have d: "distinct (lregs w)" by (simp add: screens_wf_def)
  let ?as = "List.map_filter output_destroy_listener (lregs w)"
  have "\<exists>w'. end_outputs ?as v = Some w'" if "lregs v = lregs w" "zouts v = zouts w" for v
    by (rule end_outputs_total)
       (use that sc output_listeners_of [OF d] in \<open>auto simp: screens_wf_def\<close>)
  then have "\<exists>w'. Option.bind (end_outputs ?as v) (\<lambda>y. Some (g y)) = Some w'"
    if "lregs v = lregs w" "zouts v = zouts w" for v and g :: "world \<Rightarrow> world"
    using that by (metis bind.bind_lunit)
  then show ?thesis using none
    by (auto simp: destroy_core_def wl_display_destroy_clients_def Let_def emits_def split: option.split)
qed

lemma core_faults:
  assumes "closed W w" "W \<noteq> {}"
  shows "destroy_core E w = None"
proof -
  from assms(2) obtain a where "a \<in> W" by blast
  then have "(Of_Toplevel a, L_destroy) \<in> set (lregs w)"
    using assms(1) by (simp add: closed_def toplevel_listeners_def)
  then have "List.map_filter toplevel_destroy_listener (lregs w) \<noteq> []"
    by (force simp: List.map_filter_def filter_empty_conv)
  with end_windows_freed [of w _ E] assms(1) show ?thesis
    by (auto simp: closed_def destroy_core_def wl_display_destroy_clients_def)
qed

lemma shutdown_faults:
  assumes "desktop_wf w"
  shows "zen_compositor_destroy E CPTR w = None \<longleftrightarrow> dom (tops w) \<noteq> {}"
proof -
  from modules_close [OF assms, of E] obtain v where
    v: "destroy_modules E w = Some v" "closed (dom (tops w)) v" by blast
  then have "zen_compositor_destroy E CPTR w = destroy_core E v" by (simp add: zen_compositor_destroy_def)
  with core_closes [of v E] core_faults [OF v(2), of E] v(2) show ?thesis by fastforce
qed

end
