(* ===== verification/Zen_Desktop_Props.thy ===== *)
theory Zen_Desktop_Props
  imports Zen_Desktop_Boot Zen_Desktop_Shutdown
begin

text \<open>
  The theorems about the whole compositor: no interleaving of events faults, the lock holds
  against all of them, and \<open>main\<close> as a whole returns unless it is told to stop with a window
  still open.
\<close>

section \<open>No event faults\<close>


text \<open>
  C15. A successful creation hands the event loop a desktop in that invariant, with every
  listener of the compositor linked, whatever the libraries answered and whatever outputs and
  devices the backend announced on the way.
\<close>

theorem created_desktop_ready:
  assumes "announced_ok (c_announced E)" "config_firm (c_keybinds E)"
    and "zen_compositor_create E (stack_world junk s) = Some (w, 0)"
  shows "desktop_wf w \<and> (Of_Module, L_new_lock) \<in> set (lregs w) \<and>
    (\<forall>f \<in> {L_new_output, L_new_xdg_toplevel, L_new_layer_surface} \<union> set input_listeners.
       (Of_Compositor, f) \<in> set (lregs w))"
  using created_desktop [OF assms] created_boots [OF assms(2,3)] by (auto simp: boots_def)

section \<open>The lock against the whole desktop\<close>

text \<open>The keystrokes that were sent to clients, and the lock screen as the abstract editor.\<close>

fun keystroke :: "call \<Rightarrow> bool" where
  "keystroke (Keyboard (Keyboard_key t kc p)) \<longleftrightarrow> True"
| "keystroke _ \<longleftrightarrow> False"

definition secrecy :: "world \<Rightarrow> lock_abs \<times> call list" where
  "secrecy w = (lock_abs_of w, filter keystroke (calls w))"

interpretation sec: frame secrecy .

lemma secrecy_emits [simp]: "\<forall>c \<in> set cs. \<not> keystroke c \<Longrightarrow> secrecy (emits cs w) = secrecy w"
  by (simp add: secrecy_def lock_abs_of_def emits_def)

lemma secrecy_upd [simp]:
  "secrecy (w\<lparr>lregs := ls\<rparr>) = secrecy w" "secrecy (w\<lparr>toplevels := l\<rparr>) = secrecy w"
  "secrecy (w\<lparr>tops := m\<rparr>) = secrecy w" "secrecy (w\<lparr>focused_toplevel := p\<rparr>) = secrecy w"
  "secrecy (cancel_grab a w) = secrecy w" "secrecy (release_grab w) = secrecy w"
  "secrecy (w\<lparr>grabbed_toplevel := p, grab_x := x, grab_y := y, grab_node_x := i, grab_node_y := j\<rparr>) = secrecy w"
  "secrecy (w\<lparr>keyboards := l\<rparr>) = secrecy w" "secrecy (w\<lparr>kbds := k\<rparr>) = secrecy w"
  "secrecy (w\<lparr>layer_surfaces := l\<rparr>) = secrecy w" "secrecy (w\<lparr>lays := y'\<rparr>) = secrecy w"
  "secrecy (w\<lparr>zouts := z\<rparr>) = secrecy w" "secrecy (w\<lparr>g_wallpaper_state := g\<rparr>) = secrecy w"
  "secrecy (w\<lparr>test_overlay := p\<rparr>) = secrecy w" "secrecy (w\<lparr>bufs := bm\<rparr>) = secrecy w"
  "secrecy (store_buf a cb w) = secrecy w" "secrecy (w\<lparr>dark_mode := d\<rparr>) = secrecy w"
  "secrecy (fill_output E xx h st out w) = secrecy w"
  by (simp_all add: secrecy_def lock_abs_of_def cancel_grab_def release_grab_def store_buf_def fill_output_def emits_def
      split: option.split prod.split)

lemma secrecy_listen: "sec.keeps (listen_all ow fs)" "sec.keeps (unlisten_all ow fs)"
proof -
  have "listen_all ow fs w = Some w' \<Longrightarrow> secrecy w' = secrecy w" for w w'
    by (induction fs arbitrary: w) (auto simp: listen_def bind_eq_Some_conv split: if_splits)
  moreover have "unlisten_all ow fs w = Some w' \<Longrightarrow> secrecy w' = secrecy w" for w w'
    by (induction fs arbitrary: w) (auto simp: unlisten_def bind_eq_Some_conv split: if_splits)
  ultimately show "sec.keeps (listen_all ow fs)" "sec.keeps (unlisten_all ow fs)"
    by (simp_all add: sec.keeps_def)
qed

lemmas sec_rules = sec.keeps_rules secrecy_listen

text \<open>No handler but that of keys and of the lock sends a keystroke or changes the lock.\<close>

lemma sec_focus: "sec.keeps (zen_xdg_focus_toplevel E c p)"
  unfolding zen_xdg_focus_toplevel_def deactivate_prev_def seat_enter_def
  by (rule sec_rules | simp split: option.split)+

lemma sec_window: "sec.keeps (toplevel_notify E f a)" "sec.keeps (handle_new_xdg_toplevel E x)"
  unfolding toplevel_notify_def handle_toplevel_map_def handle_toplevel_unmap_def handle_toplevel_commit_def
    handle_toplevel_destroy_def handle_toplevel_request_move_def handle_toplevel_request_resize_def
    handle_toplevel_request_maximize_def handle_toplevel_request_fullscreen_def free_toplevel_def
    handle_toplevel_set_title_def handle_toplevel_set_app_id_def handle_new_xdg_toplevel_def
  by (rule sec_rules sec.keeps_comp(1) [OF sec_focus] | simp split: option.split)+

lemma sec_motion: "sec.keeps (handle_cursor_motion E t dx dy)" "sec.keeps (handle_cursor_motion_absolute E t x y)"
  unfolding handle_cursor_motion_def handle_cursor_motion_absolute_def zen_input_process_cursor_motion_def
    move_grabbed_def
  by (auto simp: sec.keeps_def bind_eq_Some_conv Let_def split: if_splits option.splits)

lemma sec_button: "sec.keeps (handle_cursor_button E t b p)" "sec.keeps (handle_request_cursor E cl s hx hy)"
  unfolding handle_cursor_button_def handle_request_cursor_def
  by (rule sec_rules sec_focus | simp)+

lemma sec_keyboard:
  "sec.keeps (handle_keyboard_modifiers kb)" "sec.keeps (handle_keyboard_destroy kb)"
  unfolding handle_keyboard_modifiers_def handle_keyboard_destroy_def by (rule sec_rules | simp)+

lemma sec_capabilities: "sec.keeps update_capabilities"
  unfolding update_capabilities_def by (rule sec_rules | simp)+

lemma sec_attach: "sec.keeps (attach_keyboard E a)"
  unfolding attach_keyboard_def by (rule sec_rules | simp)+

lemma sec_device: "sec.keeps (handle_new_input E ty d)"
  using sec_attach sec_capabilities
  by (cases ty) (fastforce simp: handle_new_input_def sec.keeps_def bind_eq_Some_conv split: option.splits)+

lemma sec_layer: "sec.keeps (layer_notify f a)" "sec.keeps (handle_new_layer_surface E ls)"
  unfolding layer_notify_def handle_layer_surface_map_def handle_layer_surface_unmap_def
    handle_layer_surface_destroy_def set_layer_enabled_def handle_new_layer_surface_def
  by (rule sec_rules | simp)+

lemma sec_cairo:
  "sec.keeps_res (zen_cairo_buffer_submit p)" "sec.keeps (zen_cairo_buffer_destroy p)"
proof -
  have rel: "\<not> keystroke c" if "c \<in> set (buffer_releases b)" for b c
    using that by (auto simp: buffer_releases_def release_opt_def split: option.splits)
  show "sec.keeps_res (zen_cairo_buffer_submit p)"
    unfolding zen_cairo_buffer_submit_def by (rule sec_rules | simp)+
  show "sec.keeps (zen_cairo_buffer_destroy p)"
    unfolding zen_cairo_buffer_destroy_def by (rule sec_rules | simp add: rel)+
qed

lemma sec_create: "sec.keeps_res (zen_cairo_buffer_create C p q wd ht)"
proof -
  have cl: "sec.keeps_res (cairo_buffer_cleanup b)" for b
    unfolding cairo_buffer_cleanup_def by (rule sec_rules sec_cairo | simp)+
  show ?thesis unfolding zen_cairo_buffer_create_def
    by (rule sec_rules sec.keeps_comp(2) [OF cl] cl | simp)+
qed

lemma sec_output:
  "sec.keeps (output_handle_frame a)" "sec.keeps (output_handle_request_state a)" "sec.keeps (output_handle_destroy a)"
  unfolding output_handle_frame_def output_handle_request_state_def output_handle_destroy_def
  by (rule sec_rules | simp)+

lemma sec_new_output: "sec.keeps (handle_new_output Q out)"
proof -
  have rel: "\<not> keystroke c" if "c \<in> set (release_opt k p)" for k p c
    using that by (auto simp: release_opt_def split: option.splits)
  have "sec.keeps_res (zen_wallpaper_render_output V a)" for V a
    unfolding zen_wallpaper_render_output_def render_output_internal_def wallpaper_output_cleanup_def
    by (rule sec_rules | simp add: ball_Un rel)+
  moreover have "sec.keeps (create_test_overlay Q)"
    unfolding create_test_overlay_def
    by (rule sec_rules sec_cairo sec.keeps_arg [OF sec_create] | simp)+
  ultimately show ?thesis unfolding handle_new_output_def
    by - (rule sec_rules | assumption | simp)+
qed

text \<open>What the keys of one event do to a locked screen.\<close>

definition authenticated :: "in_env \<Rightarrow> u32 \<Rightarrow> world \<Rightarrow> bool" where
  "authenticated E kc w \<longleftrightarrow> (\<exists>ss1 ks ss2 v. i_syms E (kc + 8) = ss1 @ ks # ss2 \<and> (ks = 0xff0d \<or> ks = 0xff8d) \<and>
     lock_keys (i_lock E) 0 (kc + 8) ss1 True w = Some v \<and> locked v \<and>
     pam_authenticate_password (lock_pam (i_lock E (length ss1))) (c_str (s_password v)))"

lemma lock_keys_unlock:
  "lock_wf w \<Longrightarrow> locked w \<Longrightarrow> lock_keys L i kc ss p w = Some w' \<Longrightarrow> \<not> locked w' \<Longrightarrow>
   p \<and> (\<exists>ss1 ks ss2 v. ss = ss1 @ ks # ss2 \<and> (ks = 0xff0d \<or> ks = 0xff8d) \<and>
     lock_keys L i kc ss1 p w = Some v \<and> locked v \<and>
     pam_authenticate_password (lock_pam (L (i + length ss1))) (c_str (s_password v)))"
proof (induction ss arbitrary: i w)
  case (Cons s ss)
  from Cons.prems(3) obtain v r where v: "zen_lock_handle_key (L i) kc s p w = Some (v, r)"
    "lock_keys L (Suc i) kc ss p v = Some w'" by (auto simp: bind_eq_Some_conv)
  have step: "lock_step w (Key kc s p, L i) v" using v(1) by (rule step_key)
  show ?case
  proof (cases "locked v")
    case True
    have "lock_wf v" using key_evolves [OF Cons.prems(1) v(1)] by (simp add: lock_evolves_def)
    from Cons.IH [OF this True v(2) Cons.prems(4)] obtain ss1 ks ss2 u where
      "p" "ss = ss1 @ ks # ss2" "ks = 0xff0d \<or> ks = 0xff8d" "lock_keys L (Suc i) kc ss1 p v = Some u" "locked u"
      "pam_authenticate_password (lock_pam (L (Suc i + length ss1))) (c_str (s_password u))" by blast
    with v(1) show ?thesis by (intro conjI exI [of _ "s # ss1"] exI [of _ ks] exI [of _ ss2] exI [of _ u]) simp_all
  next
    case False
    from unlock_step [OF step Cons.prems(1,2) False] Cons.prems(2) show ?thesis
      by (intro conjI exI [of _ "[]"] exI [of _ s] exI [of _ ss] exI [of _ w]) auto
  qed
qed simp

lemma secrecy_quiet: "quiet w w' \<Longrightarrow> filter keystroke (calls w') = filter keystroke (calls w)"
proof -
  assume "quiet w w'"
  then obtain cs where cs: "calls w' = calls w @ cs" "\<forall>c \<in> set cs. \<not> client_input c" by (auto simp: quiet_def)
  moreover have "\<not> keystroke c" if "\<not> client_input c" for c using that by (cases c rule: keystroke.cases) auto
  ultimately show ?thesis by simp
qed

lemma locked_key:
  assumes "desktop_wf w" "locked w" "handle_keyboard_key E kb t kc p w = Some w'"
  shows "filter keystroke (calls w') = filter keystroke (calls w) \<and> (\<not> locked w' \<longrightarrow> p \<and> authenticated E kc w)"
proof -
  from assms(2,3) have run: "lock_keys (i_lock E) 0 (kc + 8) (i_syms E (kc + 8)) p w = Some w'"
    by (auto simp: handle_keyboard_key_def bind_eq_Some_conv Let_def)
  have "p \<and> authenticated E kc w" if "\<not> locked w'"
    using lock_keys_unlock [OF desktop_wfD(2) [OF assms(1)] assms(2) run that]
    unfolding authenticated_def by (cases p) simp_all
  with secrecy_quiet [OF lock_keys_quiet [OF run]] show ?thesis by blast
qed

lemma sec_signal: "sec.keeps h \<Longrightarrow> sec.keeps (signal l h)"
  by (simp add: sec.keeps_def signal_def)

lemma sec_other:
  assumes "desktop_wf w" "locked w" "event_ok e w" "deliver e w = Some w'" "\<And>E kb t kc p. e \<noteq> Key_event E kb t kc p"
  shows "secrecy w' = secrecy w"
proof (cases e)
  case (Bus_readable m)
  show ?thesis
  proof (cases "dbus_event_source w = None")
    case False
    obtain d cs result where "dbus_dispatch_cb m w = Some (emits cs (w\<lparr>dark_mode := d\<rparr>), 0)" "polite result cs"
      by (rule bus_effect [OF assms(1) assms(3) [unfolded Bus_readable] False])
    moreover have "\<forall>c \<in> set cs. \<not> keystroke c" if "polite result cs" for cs
    proof -
      have one: "one_answer result ds \<Longrightarrow> \<forall>c \<in> set ds. \<not> keystroke c" for ds
        by (induction result ds rule: one_answer.induct) auto
      show ?thesis using that one [of cs] one [of "tl cs"] by (cases "(result, cs)" rule: polite.cases) auto
    qed
    ultimately show ?thesis using assms(4) Bus_readable False by (auto simp: discard_def)
  qed (use assms(4) Bus_readable in simp)
next
  case (Idle_expires E)
  with assms(2,4) show ?thesis
    by (auto simp: discard_def idle_timeout_cb_def zen_lock_activate_def split: if_splits)
next
  case (Logind_locks E)
  with assms(2,4) show ?thesis
    by (auto simp: discard_def lock_signal_cb_def zen_lock_activate_def split: if_splits)
next
  case (Client_locks l)
  with assms(4) show ?thesis by (auto simp: signal_def handle_new_lock_def split: if_splits)
qed (use assms(4,5) in \<open>auto dest!: sec.keepsD [OF sec_signal, rotated] intro: sec_window sec_motion sec_button
       sec_keyboard sec_device sec_layer sec_output sec_new_output\<close>)

lemma deliver_locked:
  assumes "desktop_wf w" "locked w" "event_ok e w" "deliver e w = Some v"
  shows "filter keystroke (calls v) = filter keystroke (calls w) \<and>
    (locked v \<or> (\<exists>E kb t kc. e = Key_event E kb t kc True \<and> authenticated E kc w))"
proof (cases "\<exists>E kb t kc p. e = Key_event E kb t kc p")
  case True
  then obtain E kb t kc p where e: "e = Key_event E kb t kc p" by blast
  with assms(2,4) locked_key [OF assms(1,2), of E kb t kc p v] show ?thesis
    by (auto simp: signal_def split: if_splits)
next
  case False
  with sec_other [OF assms(1-4)] assms(2) show ?thesis by (simp add: secrecy_def locked_iff_abs)
qed

text \<open>
  A run in which some key event unlocks the screen: the screen is locked when it arrives, its
  keys authenticate, and up to and including it no keystroke has been sent.
\<close>

definition unlocked_in :: "desktop_event list \<Rightarrow> world \<Rightarrow> bool" where
  "unlocked_in es w \<longleftrightarrow> (\<exists>es1 E kb t kc es2 v u. es = es1 @ Key_event E kb t kc True # es2 \<and>
     run_events es1 w = Some v \<and> locked v \<and> authenticated E kc v \<and>
     deliver (Key_event E kb t kc True) v = Some u \<and> \<not> locked u \<and>
     filter keystroke (calls u) = filter keystroke (calls w))"

lemma unlocked_here:
  assumes "locked w" "authenticated E kc w" "deliver (Key_event E kb t kc True) w = Some u" "\<not> locked u"
    "filter keystroke (calls u) = filter keystroke (calls w)"
  shows "unlocked_in (Key_event E kb t kc True # es) w"
  unfolding unlocked_in_def using assms
  by (intro exI [of _ "[]"] exI [of _ E] exI [of _ kb] exI [of _ t] exI [of _ kc] exI [of _ es] exI [of _ w] exI [of _ u])
     simp

lemma unlocked_later:
  assumes "unlocked_in es v" "deliver e w = Some v" "filter keystroke (calls v) = filter keystroke (calls w)"
  shows "unlocked_in (e # es) w"
proof -
  from assms(1) obtain es1 E kb t kc es2 x u where "es = es1 @ Key_event E kb t kc True # es2"
    "run_events es1 v = Some x" "locked x" "authenticated E kc x" "deliver (Key_event E kb t kc True) x = Some u"
    "\<not> locked u" "filter keystroke (calls u) = filter keystroke (calls v)" unfolding unlocked_in_def by blast
  with assms(2,3) show ?thesis unfolding unlocked_in_def
    by (intro exI [of _ "e # es1"] exI [of _ E] exI [of _ kb] exI [of _ t] exI [of _ kc] exI [of _ es2] exI [of _ x]
        exI [of _ u]) simp
qed

text \<open>
  C2. The lock holds against the whole desktop. While the screen is locked, no event of any
  kind sends a keystroke to a client, and none unlocks the screen, except a key event in which
  Return or the keypad's Enter is pressed while the text typed so far authenticates with PAM:
  every run from a locked state ends locked with no keystroke sent, or has such an event as
  the first one that unlocks.
\<close>

theorem locked_desktop_is_sealed:
  assumes "desktop_wf w" "locked w" "events_ok es w"
  shows "\<exists>w'. run_events es w = Some w' \<and>
    (locked w' \<and> filter keystroke (calls w') = filter keystroke (calls w) \<or> unlocked_in es w)"
  using assms
proof (induction es arbitrary: w)
  case (Cons e es)
  from deliver_handled [OF Cons.prems(1), of e] Cons.prems(3) obtain v where
    v: "deliver e w = Some v" "desktop_wf v" "events_ok es v" by (auto simp: handled_def)
  from run_events_wf [OF v(2,3)] obtain w' where w': "run_events es v = Some w'" by blast
  have d: "filter keystroke (calls v) = filter keystroke (calls w)"
    "locked v \<or> (\<exists>E kb t kc. e = Key_event E kb t kc True \<and> authenticated E kc w)"
    using deliver_locked [OF Cons.prems(1,2) _ v(1)] Cons.prems(3) by auto
  show ?case
  proof (cases "locked v")
    case True
    from Cons.IH [OF v(2) True v(3)] w' v(1) d(1) unlocked_later [OF _ v(1)] show ?thesis by auto
  next
    case False
    with d obtain E kb t kc where "e = Key_event E kb t kc True" "authenticated E kc w" by blast
    with unlocked_here [OF Cons.prems(2), of E kc kb t v es] False v(1) w' d(1) show ?thesis by simp
  qed
qed simp

section \<open>The program\<close>


text \<open>
  C16. Shutting down. Destroying a running desktop faults exactly when a window is open: every
  other state the event loop can leave, with keyboards, layer surfaces, outputs, wallpaper,
  overlay and a locked screen, is destroyed without a fault.
\<close>

theorem shutdown_faults_iff_window_open:
  assumes "desktop_wf w"
  shows "zen_compositor_destroy E CPTR w = None \<longleftrightarrow> dom (tops w) \<noteq> {}"
  using assms by (rule shutdown_faults)

section \<open>A running desktop\<close>

text \<open>Two windows, a keyboard, an output and a locked screen.\<close>

definition demo_running :: world where
  "demo_running = (demo_seat demo_windows)\<lparr>wl_display := Some 1, backend := Some 4, allocator := Some 5,
     renderer := Some 6, scene_layout := Some 7, shell_overlay_tree := Some 8, layer_surfaces := Some [],
     zouts := [50 \<mapsto> \<lparr>wlr_output = 51, scene_output = Some 52\<rparr>], s_idle_timer := Some 81,
     locked := True, bufs := [70 \<mapsto> demo_buffer],
     s_lock := empty_lock_screen\<lparr>lock_buffer := Some 70, ls_width := 800, ls_height := 600\<rparr>,
     lregs := lregs (demo_seat demo_windows) @ map (Pair (Of_Output 50)) output_listeners @
       map (Pair Of_Compositor) (L_new_xdg_toplevel # input_listeners)\<rparr>"

lemma demo_running_lregs: "distinct (lregs demo_running)"
  by (simp add: demo_running_def demo_seat_def demo_windows_def toplevel_listeners_def keyboard_listeners_def
      output_listeners_def input_listeners_def)

lemma demo_running_wf: "desktop_wf demo_running"
proof -
  have "xdg_wf demo_running"
    by (rule xdg_wf_part [OF demo_windows_wf _ _ demo_running_lregs])
       (auto simp: win_part_def demo_running_def demo_seat_def)
  moreover have "lock_wf demo_running"
    using zero_password [of True]
    by (simp add: lock_wf_def password_ok_def demo_running_def demo_seat_def demo_windows_def empty_lock_screen_def)
  moreover have "keyboards_wf demo_running" "layers_wf demo_running" "screens_wf demo_running"
    using demo_running_lregs
    by (auto simp: keyboards_wf_def layers_wf_def screens_wf_def demo_running_def demo_seat_def demo_windows_def zero_world_def)
  moreover have "overlay_wf demo_running" "core_ready demo_running"
    by (simp_all add: overlay_wf_def core_ready_def demo_running_def demo_seat_def demo_windows_def zero_world_def)
  ultimately show ?thesis by (simp add: desktop_wf_def)
qed

text \<open>A key is pressed, the idle timer fires, modifiers change, a frame is due, a window is mapped and the bus is readable.\<close>

definition demo_events :: "desktop_event list" where
  "demo_events = [Key_event (demo_in\<lparr>i_kb := (i_kb demo_in)\<lparr>kb_lock := demo_env\<lparr>lock_calloc := None\<rparr>\<rparr>\<rparr>) 40 7 30 True,
     Idle_expires (demo_env\<lparr>lock_calloc := None\<rparr>), Modifiers_event 40, Output_frame 50, Window_signal demo_xdg L_map 11,
     Bus_readable None]"

lemma demo_events_ok: "events_ok demo_events w"
  by (simp add: demo_events_def fresh_in_def split: option.split)


theorem created_desktop_ready_witness:
  "\<exists>w. zen_compositor_create demo_comp demo_start = Some (w, 0) \<and> desktop_wf w"
proof -
  from demo_created obtain w where "zen_compositor_create demo_comp demo_start = Some (w, 0)" by auto
  with created_desktop_ready [OF demo_comp_ok this [unfolded demo_start_def]] show ?thesis by blast
qed

theorem locked_desktop_is_sealed_witness:
  "locked demo_running \<and> (\<exists>w'. run_events demo_events demo_running = Some w' \<and>
    (locked w' \<and> filter keystroke (calls w') = filter keystroke (calls demo_running) \<or>
     unlocked_in demo_events demo_running))"
proof -
  have "locked demo_running" by (simp add: demo_running_def)
  with locked_desktop_is_sealed [OF demo_running_wf this demo_events_ok] show ?thesis by blast
qed


theorem shutdown_faults_iff_window_open_witness:
  "zen_compositor_destroy demo_comp CPTR demo_running = None"
proof -
  have "tops demo_running 10 \<noteq> None" by (simp add: demo_running_def demo_seat_def demo_windows_def)
  with shutdown_faults_iff_window_open [OF demo_running_wf, of demo_comp] show ?thesis by blast
qed

end
