(* ===== verification/Zen_Desktop_Lock.thy ===== *)
theory Zen_Desktop_Lock
  imports Zen_Desktop_Props
begin

text \<open>
  The lock screen inside the whole desktop: against every interleaving of events it is the
  abstract line editor of \<open>lock_spec_key\<close>, fed with the symbols that the linked keyboards
  deliver and nothing else, until the first Return on a text that PAM accepts.
\<close>

section \<open>What is typed\<close>

text \<open>The symbols of one key press, each with what PAM answers at that moment.\<close>

type_synonym lock_input = "(string \<Rightarrow> bool) \<times> u32"

definition lock_auth :: "lock_env \<Rightarrow> string \<Rightarrow> bool" where
  "lock_auth L = pam_authenticate_password (lock_pam L)"

primrec lock_inputs :: "(nat \<Rightarrow> lock_env) \<Rightarrow> nat \<Rightarrow> u32 list \<Rightarrow> lock_input list" where
  "lock_inputs L i [] = []"
| "lock_inputs L i (s # ss) = (lock_auth (L i), s) # lock_inputs L (Suc i) ss"

text \<open>Only a press on a keyboard whose listener is linked types anything.\<close>

fun event_inputs :: "desktop_event \<Rightarrow> world \<Rightarrow> lock_input list" where
  "event_inputs (Key_event E kb t kc p) w =
     (if p \<and> (Of_Keyboard kb, L_key) \<in> set (lregs w) then lock_inputs (i_lock E) 0 (i_syms E (kc + 8)) else [])"
| "event_inputs _ w = []"

primrec typed :: "desktop_event list \<Rightarrow> world \<Rightarrow> lock_input list" where
  "typed [] w = []"
| "typed (e # es) w = event_inputs e w @ (case deliver e w of None \<Rightarrow> [] | Some w \<Rightarrow> typed es w)"

text \<open>The abstract editor reading them.\<close>

definition edit :: "lock_input list \<Rightarrow> lock_abs \<Rightarrow> lock_abs" where
  "edit = fold (\<lambda>(auth, ks). lock_spec_key auth ks)"

text \<open>The screen is locked before, between and after the events.\<close>

primrec stays_locked :: "desktop_event list \<Rightarrow> world \<Rightarrow> bool" where
  "stays_locked [] w \<longleftrightarrow> locked w"
| "stays_locked (e # es) w \<longleftrightarrow> locked w \<and> (case deliver e w of None \<Rightarrow> False | Some w \<Rightarrow> stays_locked es w)"

lemma edit_simps [simp]:
  "edit [] s = s" "edit ((auth, ks) # is) s = edit is (lock_spec_key auth ks s)" "edit (is @ js) s = edit js (edit is s)"
  by (simp_all add: edit_def)

lemma edit_Unlocked [simp]: "edit is Unlocked = Unlocked"
  by (induction "is") auto

section \<open>Keys\<close>

text \<open>One key on the abstract lock, and the keys of one event.\<close>

lemma lock_key_abs:
  assumes "lock_wf w"
  shows "\<exists>w' r. zen_lock_handle_key E kc ks p w = Some (w', r) \<and> lock_wf w' \<and>
    lock_abs_of w' = (if p then lock_spec_key (lock_auth E) ks (lock_abs_of w) else lock_abs_of w)"
proof (cases "locked w \<and> p")
  case True
  with key_refinement [OF assms, of E kc ks] show ?thesis
    by (auto simp: key_refines_def lock_evolves_def lock_auth_def)
next
  case False
  with assms show ?thesis by (auto simp: zen_lock_handle_key_def lock_abs_of_def)
qed

lemma lock_keys_abs:
  assumes "lock_wf w"
  shows "\<exists>w'. lock_keys L i kc ss p w = Some w' \<and> lock_wf w' \<and>
    lock_abs_of w' = edit (if p then lock_inputs L i ss else []) (lock_abs_of w)"
  using assms
proof (induction ss arbitrary: i w)
  case (Cons s ss)
  from lock_key_abs [OF Cons.prems, of "L i" kc s p] obtain v r where
    v: "zen_lock_handle_key (L i) kc s p w = Some (v, r)" "lock_wf v"
      "lock_abs_of v = (if p then lock_spec_key (lock_auth (L i)) s (lock_abs_of w) else lock_abs_of w)" by blast
  with Cons.IH [OF v(2), of "Suc i"] show ?case by auto
qed simp

lemma key_event_abs:
  assumes "desktop_wf w" "locked w" "deliver (Key_event E kb t kc p) w = Some v"
  shows "lock_abs_of v = edit (event_inputs (Key_event E kb t kc p) w) (lock_abs_of w)"
proof (cases "(Of_Keyboard kb, L_key) \<in> set (lregs w)")
  case True
  with assms(2,3) have "lock_keys (i_lock E) 0 (kc + 8) (i_syms E (kc + 8)) p w = Some v"
    by (auto simp: signal_def handle_keyboard_key_def bind_eq_Some_conv Let_def)
  with lock_keys_abs [OF desktop_wfD(2) [OF assms(1)], of "i_lock E" 0 "kc + 8" "i_syms E (kc + 8)" p] True
  show ?thesis by auto
qed (use assms(3) in \<open>simp add: signal_def\<close>)

text \<open>Every other event leaves the editor alone.\<close>

lemma deliver_abs:
  assumes "desktop_wf w" "locked w" "event_ok e w" "deliver e w = Some v"
  shows "lock_abs_of v = edit (event_inputs e w) (lock_abs_of w)"
proof (cases "\<exists>E kb t kc p. e = Key_event E kb t kc p")
  case True
  with key_event_abs [OF assms(1,2)] assms(4) show ?thesis by blast
next
  case False
  then have "event_inputs e w = []" by (cases e) auto
  with sec_other [OF assms(1-4)] False show ?thesis by (simp add: secrecy_def)
qed

section \<open>The desktop's lock is the editor\<close>

lemma desktop_run:
  assumes "desktop_wf w" "locked w" "events_ok es w"
  shows "\<exists>w'. run_events es w = Some w' \<and>
    (stays_locked es w \<longleftrightarrow> edit (typed es w) (lock_abs_of w) \<noteq> Unlocked) \<and>
    (stays_locked es w \<longrightarrow> lock_abs_of w' = edit (typed es w) (lock_abs_of w))"
  using assms
proof (induction es arbitrary: w)
  case Nil
  then show ?case by (simp add: locked_iff_abs)
next
  case (Cons e es)
  from deliver_handled [OF Cons.prems(1), of e] Cons.prems(3) obtain v where
    v: "deliver e w = Some v" "desktop_wf v" "events_ok es v" by (auto simp: handled_def)
  from run_events_wf [OF v(2,3)] obtain w' where w': "run_events es v = Some w'" by blast
  have abs: "lock_abs_of v = edit (event_inputs e w) (lock_abs_of w)"
    using deliver_abs [OF Cons.prems(1,2) _ v(1)] Cons.prems(3) by simp
  show ?case
  proof (cases "locked v")
    case True
    from Cons.IH [OF v(2) True v(3)] v(1) Cons.prems(2) show ?thesis by (simp flip: abs)
  next
    case False
    then have "edit (event_inputs e w) (lock_abs_of w) = Unlocked" using abs by (simp add: locked_iff_abs)
    moreover have "\<not> stays_locked es v" using False by (cases es) simp_all
    ultimately show ?thesis using v(1) w' by simp
  qed
qed

text \<open>
  C3. The lock screen of the running desktop refines the abstract line editor. From any locked
  state, whatever windows, pointer, devices, timers, bus, layers and outputs do in between,
  the run keeps the screen locked exactly as long as the editor, reading the symbols typed on
  the linked keyboards, has not unlocked; and then the password field and the error flag are
  those of the editor.
\<close>

theorem desktop_lock_is_editor:
  assumes "desktop_wf w" "locked w" "events_ok es w"
  shows "\<exists>w'. run_events es w = Some w' \<and>
    (stays_locked es w \<longleftrightarrow> edit (typed es w) (lock_abs_of w) \<noteq> Unlocked) \<and>
    (stays_locked es w \<longrightarrow> lock_abs_of w' = edit (typed es w) (lock_abs_of w))"
  using assms by (rule desktop_run)

section \<open>Typing a password\<close>

definition printable :: "char \<Rightarrow> bool" where
  "printable c \<longleftrightarrow> 0x20 \<le> (of_char c :: nat) \<and> (of_char c :: nat) \<le> 0x7e"

definition sym_of :: "char \<Rightarrow> u32" where
  "sym_of c = word_of_nat (of_char c)"

lemma unat_sym_of: "unat (sym_of c) = of_char c"
proof -
  have "(of_char c :: nat) < 256" by simp
  then have "(of_char c :: nat) < 2 ^ 32" by (rule less_trans) simp
  then show ?thesis by (simp add: sym_of_def unat_of_nat)
qed

lemma sym_of_printable:
  assumes "printable c"
  shows "0x20 \<le> sym_of c" "sym_of c \<le> 0x7e" "sym_of c \<notin> {0xff08, 0xff0d, 0xff8d, 0xff1b}"
proof -
  show b: "0x20 \<le> sym_of c" "sym_of c \<le> 0x7e"
    using assms unat_sym_of [of c] by (simp_all add: printable_def word_le_nat_alt)
  then show "sym_of c \<notin> {0xff08, 0xff0d, 0xff8d, 0xff1b}" by (auto simp: word_le_nat_alt)
qed



section \<open>Typing on a running desktop\<close>

text \<open>A key that is pressed while the screen is locked leaves every listener linked.\<close>

lemma key_event_typed:
  assumes "desktop_wf w" "locked w" "(Of_Keyboard kb, L_key) \<in> set (lregs w)" "event_ok (Key_event E kb t kc p) w"
  obtains v where "deliver (Key_event E kb t kc p) w = Some v" "desktop_wf v" "lregs v = lregs w"
proof -
  from deliver_handled [OF assms(1,4)] obtain v where v: "deliver (Key_event E kb t kc p) w = Some v" "desktop_wf v"
    by (auto simp: handled_def)
  then have "lock_keys (i_lock E) 0 (kc + 8) (i_syms E (kc + 8)) p w = Some v"
    using assms(2,3) by (auto simp: signal_def handle_keyboard_key_def bind_eq_Some_conv Let_def)
  then have "no_lock v = no_lock w" using lck.keepsD [OF lock_keys_keeps] by blast
  moreover have "lregs u = lregs (fst (no_lock u))" for u by (simp add: no_lock_def)
  ultimately have "lregs v = lregs w" by metis
  with v show ?thesis by (rule that)
qed

definition demo_key :: "u32 \<Rightarrow> desktop_event" where
  "demo_key ks = Key_event (demo_in\<lparr>i_syms := \<lambda>_. [ks],
     i_kb := (i_kb demo_in)\<lparr>kb_lock := demo_env\<lparr>lock_calloc := None\<rparr>\<rparr>\<rparr>) 40 7 30 True"

lemma demo_key_inputs:
  "(Of_Keyboard 40, L_key) \<in> set (lregs w) \<Longrightarrow> event_inputs (demo_key ks) w = [(lock_auth demo_env, ks)]"
  by (simp add: demo_key_def demo_in_def)

lemma demo_key_ok: "event_ok (demo_key ks) w"
  by (simp add: demo_key_def fresh_in_def)

lemma demo_keys_ok: "events_ok (map demo_key kss) w"
  by (induction kss arbitrary: w) (auto simp: demo_key_ok split: option.split)

lemma demo_typed_text:
  assumes "desktop_wf w" "lock_abs_of w = Locked s e" "(Of_Keyboard 40, L_key) \<in> set (lregs w)"
    "list_all printable cs" "length s + length cs \<le> 255"
  shows "typed (map demo_key (map sym_of cs @ [ks])) w = map (Pair (lock_auth demo_env)) (map sym_of cs @ [ks])"
  using assms
proof (induction cs arbitrary: w s e)
  case Nil
  then show ?case by (simp add: demo_key_inputs split: option.split)
next
  case (Cons c cs)
  have "locked w" using Cons.prems(2) by (simp add: locked_iff_abs)
  from key_event_typed [OF Cons.prems(1) this Cons.prems(3) demo_key_ok [unfolded demo_key_def]] obtain v where
    v: "deliver (demo_key (sym_of c)) w = Some v" "desktop_wf v" "lregs v = lregs w" unfolding demo_key_def by blast
  have "lock_abs_of v = lock_spec_key (lock_auth demo_env) (sym_of c) (Locked s e)"
    using deliver_abs [OF Cons.prems(1) \<open>locked w\<close> demo_key_ok v(1)] Cons.prems(2,3) by (simp add: demo_key_inputs)
  also have "\<dots> = Locked (s @ [c]) False"
    using Cons.prems(4,5) sym_of_printable [of c] by (simp add: unat_sym_of)
  finally show ?case
    using Cons.IH [OF v(2), of "s @ [c]" False] v(1,3) Cons.prems(3-5) by (simp add: demo_key_inputs)
qed

text \<open>The idle timer fires, then the password and Return are typed.\<close>

definition demo_login :: "desktop_event list" where
  "demo_login = Idle_expires (demo_env\<lparr>lock_calloc := None\<rparr>) # map demo_key (map sym_of ''zen'' @ [0xff0d])"

lemma demo_running_empty: "lock_abs_of demo_running = Locked [] False"
  by (simp add: lock_abs_of_def demo_running_def demo_seat_def demo_windows_def zero_world_def
      empty_lock_screen_def c_str_def)

lemma demo_login_typed:
  "typed demo_login demo_running = map (Pair (lock_auth demo_env)) (map sym_of ''zen'' @ [0xff0d])"
proof -
  have "(Of_Keyboard 40, L_key) \<in> set (lregs demo_running)"
    by (simp add: demo_running_def demo_seat_def keyboard_listeners_def)
  from demo_typed_text [OF demo_running_wf demo_running_empty this, of "''zen''" "0xff0d"]
  have "typed (map demo_key (map sym_of ''zen'' @ [0xff0d])) demo_running =
    map (Pair (lock_auth demo_env)) (map sym_of ''zen'' @ [0xff0d])" by (simp add: printable_def)
  moreover have "locked demo_running" by (simp add: demo_running_def)
  ultimately show ?thesis
    by (simp add: demo_login_def discard_def idle_timeout_cb_def zen_lock_activate_def del: list.map)
qed

lemma demo_login_ok: "events_ok demo_login demo_running"
  unfolding demo_login_def by (auto simp: fresh_in_def demo_keys_ok simp del: map_append list.map split: option.split)

theorem desktop_lock_is_editor_witness:
  "\<exists>w'. run_events demo_login demo_running = Some w' \<and>
    (stays_locked demo_login demo_running \<longleftrightarrow>
       edit (map (Pair (lock_auth demo_env)) (map sym_of ''zen'' @ [0xff0d])) (Locked [] False) \<noteq> Unlocked)"
proof -
  have "locked demo_running" by (simp add: demo_running_def)
  from desktop_lock_is_editor [OF demo_running_wf this demo_login_ok] show ?thesis
    unfolding demo_login_typed demo_running_empty by blast
qed


end
