(* ===== verification/Zen_Noninterference.thy ===== *)
theory Zen_Noninterference
  imports Zen_Desktop_Lock
begin

text \<open>
  What is typed on a locked screen is nobody's business: purging every key event from a run
  of the desktop changes nothing outside the lock, neither what clients, the bus and the
  devices are sent nor any state but the password field and the error message.
\<close>

section \<open>Handlers that do not look\<close>

text \<open>
  An operation is blind to what \<open>blank\<close> hides when it does the same, up to what is hidden,
  whether or not it was hidden before.
\<close>

locale view =
  fixes blank :: "world \<Rightarrow> world"
  assumes idem: "blank (blank w) = blank w"
begin

definition blind :: "(world \<Rightarrow> world option) \<Rightarrow> bool" where
  "blind f \<longleftrightarrow> (\<forall>w. map_option blank (f (blank w)) = map_option blank (f w))"

definition blind_res :: "(world \<Rightarrow> (world \<times> 'r) option) \<Rightarrow> bool" where
  "blind_res f \<longleftrightarrow> (\<forall>w. map_option (map_prod blank id) (f (blank w)) = map_option (map_prod blank id) (f w))"

lemma blindD: "blind f \<Longrightarrow> blank w = blank w' \<Longrightarrow> map_option blank (f w) = map_option blank (f w')"
  unfolding blind_def by metis

lemma blind_resD:
  "blind_res f \<Longrightarrow> blank w = blank w' \<Longrightarrow> map_option (map_prod blank id) (f w) = map_option (map_prod blank id) (f w')"
  unfolding blind_res_def by metis

lemma blind_None: "blind (\<lambda>w. None)" "blind_res (\<lambda>w. None)"
  by (simp_all add: blind_def blind_res_def)

lemma blind_Some: "blind Some"
  by (simp add: blind_def idem)

text \<open>An update of the world, in one piece or by cases on what can be seen.\<close>

definition steady :: "(world \<Rightarrow> world) \<Rightarrow> bool" where
  "steady u \<longleftrightarrow> (\<forall>w. blank (u (blank w)) = blank (u w))"

lemma steady_case_option:
  "(\<And>w. r (blank w) = r w) \<Longrightarrow> steady f \<Longrightarrow> (\<And>x. steady (g x)) \<Longrightarrow>
   steady (\<lambda>w. case r w of None \<Rightarrow> f w | Some x \<Rightarrow> g x w)"
  by (auto simp: steady_def split: option.split)

lemma steady_case_prod:
  "(\<And>w. p (blank w) = p w) \<Longrightarrow> (\<And>x y. steady (g x y)) \<Longrightarrow> steady (\<lambda>w. case p w of (x, y) \<Rightarrow> g x y w)"
  by (auto simp: steady_def split: prod.split)

lemma steady_if:
  "(\<And>w. P (blank w) = P w) \<Longrightarrow> steady f \<Longrightarrow> steady g \<Longrightarrow> steady (\<lambda>w. if P w then f w else g w)"
  by (auto simp: steady_def)

lemma steadyI: "(\<And>w. blank (u (blank w)) = blank (u w)) \<Longrightarrow> steady u"
  by (simp add: steady_def)

lemma steadyD: "steady u \<Longrightarrow> blank (u (blank w)) = blank (u w)"
  by (simp add: steady_def)

lemma blind_upd:
  "steady u \<Longrightarrow> blind (\<lambda>w. Some (u w))"
  "steady u \<Longrightarrow> (\<And>w. r (blank w) = r w) \<Longrightarrow> blind_res (\<lambda>w. Some (u w, r w))"
  by (simp_all add: blind_def blind_res_def steady_def)

lemma bind_agree:
  assumes "map_option blank a = map_option blank b"
    and "\<And>v v'. blank v = blank v' \<Longrightarrow> map_option p (g v) = map_option p (g v')"
  shows "map_option p (Option.bind a g) = map_option p (Option.bind b g)"
proof (cases a)
  case (Some v)
  with assms(1) obtain v' where "b = Some v'" "blank v = blank v'" by (cases b) auto
  with Some assms(2) [of v v'] show ?thesis by simp
qed (use assms(1) in \<open>cases b; simp\<close>)

lemma bind_res_agree:
  assumes "map_option (map_prod blank id) a = map_option (map_prod blank id) b"
    and "\<And>v v' r. blank v = blank v' \<Longrightarrow> map_option p (g v r) = map_option p (g v' r)"
  shows "map_option p (Option.bind a (\<lambda>(w, r). g w r)) = map_option p (Option.bind b (\<lambda>(w, r). g w r))"
proof (cases a)
  case (Some x)
  obtain v r where x: "x = (v, r)" by (cases x)
  with Some assms(1) obtain v' where "b = Some (v', r)" "blank v = blank v'" by (cases b) auto
  with Some x assms(2) [of v v' r] show ?thesis by simp
qed (use assms(1) in \<open>cases b; simp\<close>)

lemma blind_bind:
  "blind f \<Longrightarrow> blind g \<Longrightarrow> blind (\<lambda>w. Option.bind (f w) g)"
  "blind f \<Longrightarrow> blind_res h \<Longrightarrow> blind_res (\<lambda>w. Option.bind (f w) h)"
proof -
  assume f: "blind f"
  show "blind (\<lambda>w. Option.bind (f w) g)" if "blind g"
    unfolding blind_def by (intro allI bind_agree blindD [OF f idem] blindD [OF that])
  show "blind_res (\<lambda>w. Option.bind (f w) h)" if "blind_res h"
    unfolding blind_res_def by (intro allI bind_agree blindD [OF f idem] blind_resD [OF that])
qed

lemma blind_bind_res:
  "blind_res k \<Longrightarrow> (\<And>r. blind (\<lambda>w. g w r)) \<Longrightarrow> blind (\<lambda>w. Option.bind (k w) (\<lambda>(w, r). g w r))"
  "blind_res k \<Longrightarrow> (\<And>r. blind_res (\<lambda>w. h w r)) \<Longrightarrow> blind_res (\<lambda>w. Option.bind (k w) (\<lambda>(w, r). h w r))"
proof -
  assume k: "blind_res k"
  show "blind (\<lambda>w. Option.bind (k w) (\<lambda>(w, r). g w r))" if "\<And>r. blind (\<lambda>w. g w r)"
    unfolding blind_def by (intro allI bind_res_agree blind_resD [OF k idem] blindD [OF that])
  show "blind_res (\<lambda>w. Option.bind (k w) (\<lambda>(w, r). h w r))" if "\<And>r. blind_res (\<lambda>w. h w r)"
    unfolding blind_res_def by (intro allI bind_res_agree blind_resD [OF k idem] blind_resD [OF that])
qed

lemma blind_comp:
  "blind f \<Longrightarrow> steady u \<Longrightarrow> blind (\<lambda>w. f (u w))"
  "blind_res h \<Longrightarrow> steady u \<Longrightarrow> blind_res (\<lambda>w. h (u w))"
proof -
  assume u: "steady u"
  show "blind (\<lambda>w. f (u w))" if "blind f"
    unfolding blind_def by (intro allI blindD [OF that] steadyD [OF u])
  show "blind_res (\<lambda>w. h (u w))" if "blind_res h"
    unfolding blind_res_def by (intro allI blind_resD [OF that] steadyD [OF u])
qed

lemma blind_arg: "(\<And>x. blind_res (h x)) \<Longrightarrow> (\<And>w. r (blank w) = r w) \<Longrightarrow> blind_res (\<lambda>w. h (r w) w)"
  by (simp add: blind_res_def)

lemma blind_read:
  "(\<And>w. r (blank w) = r w) \<Longrightarrow> (\<And>x. blind (g x)) \<Longrightarrow> blind (\<lambda>w. Option.bind (r w) (\<lambda>x. g x w))"
  "(\<And>w. r (blank w) = r w) \<Longrightarrow> (\<And>x. blind_res (h x)) \<Longrightarrow> blind_res (\<lambda>w. Option.bind (r w) (\<lambda>x. h x w))"
  by (auto simp: blind_def blind_res_def split: Option.bind_split)

lemma blind_Let:
  "steady u \<Longrightarrow> blind g \<Longrightarrow> blind (\<lambda>w. Let (u w) g)"
  "steady u \<Longrightarrow> blind_res h \<Longrightarrow> blind_res (\<lambda>w. Let (u w) h)"
  unfolding Let_def by (rule blind_comp; assumption)+

lemma blind_Let_value:
  "(\<And>w. v (blank w) = v w) \<Longrightarrow> (\<And>x. blind (g x)) \<Longrightarrow> blind (\<lambda>w. Let (v w) (\<lambda>x. g x w))"
  "(\<And>w. v (blank w) = v w) \<Longrightarrow> (\<And>x. blind_res (h x)) \<Longrightarrow> blind_res (\<lambda>w. Let (v w) (\<lambda>x. h x w))"
  by (auto simp: blind_def blind_res_def)

lemma blind_if:
  "(\<And>w. P (blank w) = P w) \<Longrightarrow> blind f \<Longrightarrow> blind g \<Longrightarrow> blind (\<lambda>w. if P w then f w else g w)"
  "(\<And>w. P (blank w) = P w) \<Longrightarrow> blind_res h \<Longrightarrow> blind_res k \<Longrightarrow> blind_res (\<lambda>w. if P w then h w else k w)"
  by (auto simp: blind_def blind_res_def)

lemma blind_case_option:
  "(\<And>w. r (blank w) = r w) \<Longrightarrow> blind f \<Longrightarrow> (\<And>x. blind (g x)) \<Longrightarrow>
   blind (\<lambda>w. case r w of None \<Rightarrow> f w | Some x \<Rightarrow> g x w)"
  "(\<And>w. r (blank w) = r w) \<Longrightarrow> blind_res h \<Longrightarrow> (\<And>x. blind_res (k x)) \<Longrightarrow>
   blind_res (\<lambda>w. case r w of None \<Rightarrow> h w | Some x \<Rightarrow> k x w)"
  by (auto simp: blind_def blind_res_def split: option.split)

lemma blind_case_prod:
  "(\<And>w. p (blank w) = p w) \<Longrightarrow> (\<And>x y. blind (g x y)) \<Longrightarrow> blind (\<lambda>w. case p w of (x, y) \<Rightarrow> g x y w)"
  "(\<And>w. p (blank w) = p w) \<Longrightarrow> (\<And>x y. blind_res (h x y)) \<Longrightarrow> blind_res (\<lambda>w. case p w of (x, y) \<Rightarrow> h x y w)"
  by (auto simp: blind_def blind_res_def split: prod.split)

lemmas blind_rules = blind_None blind_Some blind_bind blind_bind_res blind_upd blind_Let blind_if
  blind_case_option blind_case_prod blind_read blind_Let_value
  steady_case_option steady_case_prod steady_if steadyI

end

section \<open>Outside the lock\<close>

text \<open>Everything but what is typed, the message under it and the drawing calls.\<close>

definition outside :: "world \<Rightarrow> world" where
  "outside w = w\<lparr>s_password := [], s_password_len := 0, s_lock := (s_lock w)\<lparr>show_error := False\<rparr>,
     calls := filter (\<lambda>c. \<not> drawing_call c) (calls w)\<rparr>"

interpretation pub: view outside
  by unfold_locales (simp add: outside_def)

lemma blind_listen_all: "pub.blind (listen_all ow fs)"
proof (induction fs)
  case Nil
  have "listen_all ow [] = Some" by (simp add: fun_eq_iff)
  then show ?case by (simp add: pub.blind_Some)
next
  case (Cons f fs)
  have "pub.blind (listen (ow, f))" unfolding listen_def
    by (rule pub.blind_rules | simp add: outside_def)+
  from pub.blind_bind(1) [OF this Cons] show ?case by simp
qed

lemma blind_unlisten_all: "pub.blind (unlisten_all ow fs)"
proof (induction fs)
  case Nil
  have "unlisten_all ow [] = Some" by (simp add: fun_eq_iff)
  then show ?case by (simp add: pub.blind_Some)
next
  case (Cons f fs)
  have "pub.blind (unlisten (ow, f))" unfolding unlisten_def
    by (rule pub.blind_rules | simp add: outside_def)+
  from pub.blind_bind(1) [OF this Cons] show ?case by simp
qed

lemmas out_rules = pub.blind_rules blind_listen_all blind_unlisten_all
lemmas out_defs = outside_def emits_def cancel_grab_def release_grab_def store_buf_def

lemma blind_focus: "pub.blind (zen_xdg_focus_toplevel E c p)"
  unfolding zen_xdg_focus_toplevel_def deactivate_prev_def seat_enter_def
  by (rule out_rules | simp add: out_defs)+

text \<open>Reading loops over the windows.\<close>

lemma loops_outside [simp]:
  "next_mapped E a (w\<lparr>s_password := p, s_password_len := n, s_lock := l, calls := cs\<rparr>) ts = next_mapped E a w ts"
  "append_app_ids B (w\<lparr>s_password := p, s_password_len := n, s_lock := l, calls := cs\<rparr>) i ts = append_app_ids B w i ts"
proof -
  show "next_mapped E a (w\<lparr>s_password := p, s_password_len := n, s_lock := l, calls := cs\<rparr>) ts = next_mapped E a w ts"
    by (induction ts) (simp_all split: option.split Option.bind_split)
  show "append_app_ids B (w\<lparr>s_password := p, s_password_len := n, s_lock := l, calls := cs\<rparr>) i ts = append_app_ids B w i ts"
    by (induction ts arbitrary: i) (simp_all split: option.split Option.bind_split)
qed

lemmas focus_rules = blind_focus pub.blind_comp(1) [OF blind_focus]

lemma blind_map:
  "pub.blind (handle_toplevel_map E a)" "pub.blind (handle_toplevel_unmap E a)" "pub.blind (handle_toplevel_commit a)"
  unfolding handle_toplevel_map_def handle_toplevel_unmap_def handle_toplevel_commit_def
  by (rule out_rules focus_rules | simp add: out_defs)+

lemma blind_toplevel_destroy: "pub.blind (handle_toplevel_destroy E a)"
  unfolding handle_toplevel_destroy_def free_toplevel_def by (rule out_rules focus_rules | simp add: out_defs)+

lemma blind_fill: "pub.blind (\<lambda>w. Some (fill_output E x n st out w))"
proof (cases out)
  case (Some o')
  obtain bx by' bw bh where "x_box E o' = ((bx, by'), (bw, bh))" by (metis surj_pair)
  then have "fill_output E x n st out = emits [Xdg (Set_size x bw bh), Xdg (st x True), Node (Set_position n bx by')]"
    by (simp add: fun_eq_iff fill_output_def Some)
  then show ?thesis by simp (rule out_rules | simp add: out_defs)+
qed (simp add: fill_output_def pub.blind_Some)

lemma blind_request:
  "pub.blind (handle_toplevel_request_move E a)" "pub.blind (handle_toplevel_request_resize a)"
  "pub.blind (handle_toplevel_request_maximize E a)" "pub.blind (handle_toplevel_request_fullscreen E a)"
  unfolding handle_toplevel_request_move_def handle_toplevel_request_resize_def
    handle_toplevel_request_maximize_def handle_toplevel_request_fullscreen_def
  by (rule blind_fill out_rules | simp add: out_defs)+

lemma blind_set:
  "pub.blind (handle_toplevel_set_title E a)" "pub.blind (handle_toplevel_set_app_id E a)"
  unfolding handle_toplevel_set_title_def handle_toplevel_set_app_id_def by (rule out_rules | simp add: out_defs)+

lemma blind_window: "pub.blind (toplevel_notify E f a)" "pub.blind (handle_new_xdg_toplevel E x)"
  unfolding toplevel_notify_def handle_new_xdg_toplevel_def
  by (rule out_rules blind_map blind_toplevel_destroy blind_request blind_set | simp add: out_defs)+

lemma blind_motion:
  "pub.blind (handle_cursor_motion E t dx dy)" "pub.blind (handle_cursor_motion_absolute E t x y)"
  unfolding handle_cursor_motion_def handle_cursor_motion_absolute_def zen_input_process_cursor_motion_def
    move_grabbed_def
  by (rule out_rules | simp add: out_defs)+

lemma blind_button:
  "pub.blind (handle_cursor_button E t b p)" "pub.blind (handle_request_cursor E cl s hx hy)"
  unfolding handle_cursor_button_def handle_request_cursor_def
  by (rule out_rules blind_focus | simp add: out_defs)+

lemma blind_keyboard:
  "pub.blind (handle_keyboard_modifiers kb)" "pub.blind (handle_keyboard_destroy kb)"
  unfolding handle_keyboard_modifiers_def handle_keyboard_destroy_def
  by (rule out_rules | simp add: out_defs)+

lemma blind_capabilities: "pub.blind update_capabilities"
  unfolding update_capabilities_def by (rule out_rules | simp add: out_defs)+

lemma blind_attach: "pub.blind (attach_keyboard E a)"
  unfolding attach_keyboard_def by (rule out_rules | simp add: out_defs)+

lemma blind_layer: "pub.blind (layer_notify f a)" "pub.blind (handle_new_layer_surface E ls)"
  unfolding layer_notify_def handle_layer_surface_map_def handle_layer_surface_unmap_def
    handle_layer_surface_destroy_def set_layer_enabled_def handle_new_layer_surface_def
  by (rule out_rules | simp add: out_defs cong: option.case_cong)+

lemma blind_output:
  "pub.blind (output_handle_frame a)" "pub.blind (output_handle_request_state a)" "pub.blind (output_handle_destroy a)"
  unfolding output_handle_frame_def output_handle_request_state_def output_handle_destroy_def
  by (rule out_rules | simp add: out_defs)+

lemma blind_device: "pub.blind (handle_new_input E ty d)"
  unfolding handle_new_input_def
  by (cases ty; simp; (rule out_rules blind_attach blind_capabilities pub.blind_comp(1) [OF blind_capabilities]
        | simp add: out_defs)+)

lemma blind_submit: "pub.blind_res (zen_cairo_buffer_submit p)"
  unfolding zen_cairo_buffer_submit_def by (rule out_rules | simp add: out_defs)+

lemma blind_destroy: "pub.blind (zen_cairo_buffer_destroy p)"
  unfolding zen_cairo_buffer_destroy_def by (rule out_rules | simp add: out_defs)+

lemma blind_create: "pub.blind_res (zen_cairo_buffer_create C p q wd ht)"
proof -
  have cl: "pub.blind_res (cairo_buffer_cleanup b)" for b
    unfolding cairo_buffer_cleanup_def by (rule out_rules blind_destroy | simp add: out_defs)+
  show ?thesis unfolding zen_cairo_buffer_create_def
    by (rule out_rules pub.blind_comp(2) [OF cl] cl | simp add: out_defs)+
qed

lemma blind_new_output: "pub.blind (handle_new_output Q out)"
proof -
  have "pub.blind_res (zen_wallpaper_render_output V a)" for V a
    unfolding zen_wallpaper_render_output_def render_output_internal_def wallpaper_output_cleanup_def
    by (rule out_rules | simp add: out_defs)+
  moreover have "pub.blind (create_test_overlay Q)"
    unfolding create_test_overlay_def
    by (rule out_rules blind_submit pub.blind_arg [OF blind_create] | simp add: out_defs zen_cairo_buffer_get_pango_def)+
  ultimately show ?thesis unfolding handle_new_output_def
    by - (rule out_rules | assumption | simp add: out_defs)+
qed

text \<open>The methods of the bus: they look at the message and at the windows.\<close>

lemma blind_message:
  "pub.blind_res f \<Longrightarrow> (\<And>x xs. pub.blind_res (g x xs)) \<Longrightarrow> pub.blind_res (\<lambda>w. case args of [] \<Rightarrow> f w | x # xs \<Rightarrow> g x xs w)"
  "(\<And>s. pub.blind_res (h s)) \<Longrightarrow> (\<And>b. pub.blind_res (i b)) \<Longrightarrow> (\<And>n. pub.blind_res (j n)) \<Longrightarrow>
   pub.blind_res (\<lambda>w. case m of M_s s \<Rightarrow> h s w | M_b b \<Rightarrow> i b w | M_i n \<Rightarrow> j n w)"
  "(\<And>ret. pub.blind_res (k ret)) \<Longrightarrow> (\<And>ids. pub.blind_res (l ids)) \<Longrightarrow>
   pub.blind_res (\<lambda>w. case r of Inl ret \<Rightarrow> k ret w | Inr ids \<Rightarrow> l ids w)"
  by (simp_all add: pub.blind_res_def split: list.split marg.split sum.split)

lemma blind_reply: "pub.blind_res (reply_return B v)" "pub.blind_res (invalid_argument msg)"
  unfolding reply_return_def invalid_argument_def by (rule out_rules | simp add: out_defs)+

lemma blind_method:
  assumes "m \<in> set compositor_vtable"
  shows "pub.blind_res (vm_handler m B)"
proof -
  note rules = blind_message blind_reply pub.blind_comp(2) [OF blind_reply(1)] out_rules
  have "pub.blind_res (handle_get_running_apps B)"
    unfolding handle_get_running_apps_def by (rule rules | simp add: out_defs)+
  moreover have "pub.blind_res (handle_launch_app B)" "pub.blind_res (handle_pin_to_shelf B)"
    "pub.blind_res (handle_unpin_from_shelf B)"
    unfolding handle_launch_app_def handle_pin_to_shelf_def handle_unpin_from_shelf_def
    by (rule rules | simp add: out_defs)+
  moreover have "pub.blind_res (handle_set_shelf_config B)" "pub.blind_res (handle_show_notification B)"
    unfolding handle_set_shelf_config_def handle_show_notification_def by (rule rules | simp add: out_defs)+
  moreover have "pub.blind_res (handle_toggle_dark_mode B)"
    unfolding handle_toggle_dark_mode_def reply_return_def Let_def by (rule rules | simp add: out_defs)+
  ultimately show ?thesis using assms by (auto simp: compositor_vtable_def)
qed

lemma blind_bus: "pub.blind (\<lambda>w. discard (dbus_dispatch_cb m w))"
proof -
  have "pub.blind_res (dbus_dispatch_cb m)"
  proof (cases "\<exists>member B mt. m = Some (member, B) \<and> find (\<lambda>m. vm_member m = member) compositor_vtable = Some mt")
    case True
    then obtain member B mt where m: "m = Some (member, B)" "find (\<lambda>m. vm_member m = member) compositor_vtable = Some mt"
      by blast
    then have "pub.blind_res (vm_handler mt B)" by (intro blind_method) (auto simp: find_Some_iff)
    then show ?thesis unfolding dbus_dispatch_cb_def m option.case prod.case m(2)
      by - (rule out_rules | assumption | simp add: out_defs)+
  next
    case False
    then have "dbus_dispatch_cb m w = Some (w, 0)" for w by (auto simp: dbus_dispatch_cb_def split: option.split)
    then show ?thesis by (simp add: pub.blind_res_def pub.idem)
  qed
  then show ?thesis
    unfolding pub.blind_res_def pub.blind_def discard_def option.map_comp
    by (metis (no_types, lifting) fst_comp_map_prod option.map_comp)
qed

section \<open>Events that are not keys\<close>

fun is_key :: "desktop_event \<Rightarrow> bool" where
  "is_key (Key_event E kb t kc p) \<longleftrightarrow> True"
| "is_key _ \<longleftrightarrow> False"

lemma blind_signal: "pub.blind h \<Longrightarrow> pub.blind (signal l h)"
  unfolding signal_def by (rule out_rules | assumption | simp add: out_defs)+

lemma outside_locked: "outside w = outside w' \<Longrightarrow> locked w = locked w'"
proof -
  have "locked (outside v) = locked v" for v by (simp add: outside_def)
  then show "outside w = outside w' \<Longrightarrow> locked w = locked w'" by metis
qed

lemma deliver_blind:
  assumes "\<not> is_key e" "locked w" "outside w = outside w'"
  shows "map_option outside (deliver e w) = map_option outside (deliver e w')"
proof -
  have bus: "pub.blind (deliver (Bus_readable m))" for m
    unfolding deliver.simps by (rule out_rules blind_bus | simp add: out_defs)+
  have lock: "pub.blind (\<lambda>w. Some (handle_new_lock i w))" for i
    unfolding handle_new_lock_def by (rule out_rules | simp add: out_defs)+
  have idle: "deliver (Idle_expires E) v = Some v" "deliver (Logind_locks E) v = Some v" if "locked v" for E v
    using that by (simp_all add: discard_def idle_timeout_cb_def lock_signal_cb_def zen_lock_activate_def)
  show ?thesis
  proof (cases e)
    case (Bus_readable m)
    from pub.blindD [OF bus assms(3)] Bus_readable show ?thesis by (simp only:)
  next
    case (Idle_expires E)
    with idle(1) assms(2,3) outside_locked [OF assms(3)] show ?thesis by (simp del: deliver.simps)
  next
    case (Logind_locks E)
    with idle(2) assms(2,3) outside_locked [OF assms(3)] show ?thesis by (simp del: deliver.simps)
  qed (use assms(1) lock in \<open>auto intro!: pub.blindD [OF _ assms(3)] blind_signal
       intro: blind_window blind_motion blind_button blind_keyboard blind_device blind_layer blind_output blind_new_output\<close>)
qed

section \<open>Keys on a locked screen\<close>

interpretation pubf: frame outside .

lemma submit_outside: "pubf.keeps_res (zen_cairo_buffer_submit p)"
  unfolding zen_cairo_buffer_submit_def by (rule pubf.keeps_rules | simp add: out_defs drawing_call_def)+

lemma render_outside: "pubf.keeps (render_lock_ui E)"
  unfolding render_lock_ui_def
  by (rule pubf.keeps_rules pubf.keeps_comp(2) [OF submit_outside] | simp add: out_defs drawing_call_def)+

lemma deactivate_unlocks: "locked w \<Longrightarrow> zen_lock_deactivate w = Some v \<Longrightarrow> \<not> locked v"
  by (auto simp: zen_lock_deactivate_def bind_eq_Some_conv Let_def split: option.splits)

lemma lock_key_outside:
  assumes "zen_lock_handle_key E kc ks p w = Some (v, r)" "locked v"
  shows "outside v = outside w"
proof -
  have "outside (set_show_error b u) = outside u" "outside (wipe_password u) = outside u"
    "outside (u\<lparr>s_password := pw, s_password_len := n\<rparr>) = outside u" for u b pw n
    by (simp_all add: outside_def set_show_error_def wipe_password_def)
  with assms show ?thesis
    by (auto simp: zen_lock_handle_key_def bind_eq_Some_conv split: if_splits
        dest: pubf.keepsD [OF render_outside] deactivate_unlocks)
qed

lemma lock_keys_outside:
  "lock_keys L i kc ss p w = Some v \<Longrightarrow> locked v \<Longrightarrow> outside v = outside w"
proof (induction ss arbitrary: i w)
  case (Cons s ss)
  then obtain u r where u: "zen_lock_handle_key (L i) kc s p w = Some (u, r)" "lock_keys L (Suc i) kc ss p u = Some v"
    by (auto simp: bind_eq_Some_conv)
  have "lock_keys L j kc ss p x = Some x" if "\<not> locked x" for j x
    using that by (induction ss arbitrary: j) (simp_all add: zen_lock_handle_key_def)
  with u(2) Cons.prems(2) have "locked u" by fastforce
  with Cons.IH [OF u(2) Cons.prems(2)] lock_key_outside [OF u(1)] show ?case by simp
qed simp

lemma key_outside:
  assumes "is_key e" "locked w" "deliver e w = Some v" "locked v"
  shows "outside v = outside w"
  using assms by (cases e) (auto simp: signal_def handle_keyboard_key_def bind_eq_Some_conv Let_def
      dest: lock_keys_outside split: if_splits)

section \<open>Purging the keys\<close>

lemma run_purged:
  assumes "desktop_wf w" "events_ok es w" "stays_locked es w" "outside w = outside u"
  shows "map_option outside (run_events es w) = map_option outside (run_events (filter (\<lambda>e. \<not> is_key e) es) u)"
  using assms
proof (induction es arbitrary: w u)
  case (Cons e es)
  from Cons.prems(3) obtain v where v: "deliver e w = Some v" "stays_locked es v" and l: "locked w"
    by (auto split: option.splits)
  from deliver_handled [OF Cons.prems(1), of e] Cons.prems(2) v(1) have wf: "desktop_wf v" "events_ok es v"
    by (auto simp: handled_def)
  show ?case
  proof (cases "is_key e")
    case True
    have "locked v" using v(2) by (cases es) simp_all
    from key_outside [OF True l v(1) this] Cons.IH [OF wf v(2), of u] Cons.prems(4) True v(1) show ?thesis by simp
  next
    case False
    from deliver_blind [OF False l Cons.prems(4)] v(1) obtain v' where
      v': "deliver e u = Some v'" "outside v = outside v'" by (cases "deliver e u") auto
    from Cons.IH [OF wf v(2) v'(2)] False v(1) v'(1) show ?thesis by simp
  qed
qed simp

text \<open>
  C4. What is typed on a locked screen interferes with nothing. Take any run of the desktop
  during which the screen stays locked, and remove all its key events: the run without them
  does not fault either, and ends in the same state but for the password field and the error
  message, having sent the same to clients, devices, bus and child processes; only the
  drawing of the lock screen differs.
\<close>

theorem typing_interferes_with_nothing:
  assumes "desktop_wf w" "events_ok es w" "stays_locked es w"
  shows "\<exists>v v'. run_events es w = Some v \<and> run_events (filter (\<lambda>e. \<not> is_key e) es) w = Some v' \<and>
    outside v = outside v'"
proof -
  from run_events_wf [OF assms(1,2)] obtain v where "run_events es w = Some v" by blast
  with run_purged [OF assms refl] show ?thesis
    by (cases "run_events (filter (\<lambda>e. \<not> is_key e) es) w") auto
qed

section \<open>Typing and not unlocking\<close>

text \<open>Modifiers change, which the focused client is told; then two letters and Escape are typed.\<close>

definition demo_typing :: "desktop_event list" where
  "demo_typing = Modifiers_event 40 # map demo_key (map sym_of ''ze'' @ [0xff1b])"

lemma demo_linked: "(Of_Keyboard 40, f) \<in> set (lregs demo_running)" if "f = L_key \<or> f = L_modifiers" for f
  using that by (auto simp: demo_running_def demo_seat_def keyboard_listeners_def)

lemma demo_modifiers:
  obtains v where "deliver (Modifiers_event 40) demo_running = Some v" "desktop_wf v"
    "lock_abs_of v = Locked [] False" "lregs v = lregs demo_running"
proof -
  from deliver_handled [OF demo_running_wf, of "Modifiers_event 40"] obtain v where
    v: "deliver (Modifiers_event 40) demo_running = Some v" "desktop_wf v" by (auto simp: handled_def)
  have "lock_abs_of v = Locked [] False"
    using sec_other [OF demo_running_wf _ _ v(1)] demo_running_empty by (simp add: secrecy_def locked_iff_abs)
  moreover have "lregs v = lregs demo_running"
    using v(1) demo_linked [of L_modifiers]
    by (auto simp: signal_def handle_keyboard_modifiers_def bind_eq_Some_conv emits_def)
  ultimately show ?thesis using v by (intro that)
qed

lemma demo_typing_ok: "events_ok demo_typing demo_running"
  unfolding demo_typing_def by (auto simp: demo_keys_ok simp del: map_append list.map split: option.split)

lemma demo_typing_locked: "stays_locked demo_typing demo_running"
proof -
  obtain v where v: "deliver (Modifiers_event 40) demo_running = Some v" "desktop_wf v"
    "lock_abs_of v = Locked [] False" "lregs v = lregs demo_running" by (rule demo_modifiers)
  have "typed (map demo_key (map sym_of ''ze'' @ [0xff1b])) v =
      map (Pair (lock_auth demo_env)) (map sym_of ''ze'' @ [0xff1b])"
    using demo_linked [of L_key] by (intro demo_typed_text [OF v(2,3)]) (simp_all add: v(4) printable_def)
  then have "edit (typed demo_typing demo_running) (lock_abs_of demo_running) \<noteq> Unlocked"
    using v(1) by (simp add: demo_typing_def demo_running_empty sym_of_def)
  moreover have "locked demo_running" by (simp add: demo_running_def)
  ultimately show ?thesis using desktop_run [OF demo_running_wf _ demo_typing_ok] by blast
qed

theorem typing_interferes_with_nothing_witness:
  "\<exists>v v'. run_events demo_typing demo_running = Some v \<and> run_events [Modifiers_event 40] demo_running = Some v' \<and>
    outside v = outside v'"
proof -
  have "filter (\<lambda>e. \<not> is_key e) demo_typing = [Modifiers_event 40]" by (simp add: demo_typing_def demo_key_def)
  with typing_interferes_with_nothing [OF demo_running_wf demo_typing_ok demo_typing_locked] show ?thesis by simp
qed

end
