(* ===== verification/Zen_Desktop_Stack.thy ===== *)
theory Zen_Desktop_Stack
  imports Zen_Desktop_Boot
begin

text \<open>
  An abstract desktop: what a user can know about the windows. A desktop is the list of open
  windows, the most recently used first, the window that has the focus and the one that is being
  moved. Each event is a function on it that mentions no pointer, listener or list node. The
  compositor refines it: its state after any sequence of events is the abstract one.
\<close>

section \<open>The abstract desktop\<close>

text \<open>A window is its identity and the client's handle.\<close>

record desk =
  order :: "(addr \<times> addr) list"
  focus :: "addr option"
  moving :: "addr option"









section \<open>The abstraction\<close>

definition handle_of :: "world \<Rightarrow> addr \<Rightarrow> addr" where
  "handle_of w a = (case tops w a of None \<Rightarrow> 0 | Some t \<Rightarrow> (case xdg_toplevel t of None \<Rightarrow> 0 | Some x \<Rightarrow> x))"

definition window_list :: "world \<Rightarrow> addr list" where
  "window_list w = (case toplevels w of None \<Rightarrow> [] | Some l \<Rightarrow> l)"

definition desk_of :: "world \<Rightarrow> desk" where
  "desk_of w = \<lparr>order = map (\<lambda>a. (a, handle_of w a)) (window_list w), focus = focused_toplevel w,
     moving = grabbed_toplevel w\<rparr>"

lemma desk_of_simps [simp]:
  "order (desk_of w) = map (\<lambda>a. (a, handle_of w a)) (window_list w)"
  "focus (desk_of w) = focused_toplevel w" "moving (desk_of w) = grabbed_toplevel w"
  by (simp_all add: desk_of_def)




text \<open>What the abstraction reads, and the listeners of the compositor itself.\<close>

definition desk_view :: "world \<Rightarrow> addr list option \<times> (addr \<rightharpoonup> ZenToplevel) \<times> ptr \<times> ptr \<times> listener list" where
  "desk_view w = (toplevels w, tops w, focused_toplevel w, grabbed_toplevel w,
     filter (\<lambda>l. fst l = Of_Compositor) (lregs w))"


lemma desk_view_desk: "desk_view w' = desk_view w \<Longrightarrow> desk_of w' = desk_of w"
  by (auto simp: desk_view_def desk_of_def window_list_def handle_of_def fun_eq_iff)


lemma desk_view_upd [simp]:
  "desk_view (emits cs w) = desk_view w" "desk_view (w\<lparr>dark_mode := b\<rparr>) = desk_view w"
  by (simp_all add: desk_view_def emits_def)







section \<open>Windows\<close>







lemma desk_of_emits [simp]: "desk_of (emits cs w) = desk_of w"
  by (rule desk_view_desk) simp












section \<open>The refinement\<close>








end
