(* ===== verification/Zen_Scan.thy ===== *)
theory Zen_Scan
  imports Zen_Wallpaper "HOL-Library.While_Combinator"
begin

text \<open>
  The pointer loops of the two parsers as they are written: a pointer walks over a buffer that
  ends in a NUL, one read at a time, and nothing but its own tests stops it. A read outside of
  the buffer and a signed overflow are faults. The interface states what a loop body has to
  promise; every such loop ends, inside the text, without a fault, and the two instances stop
  exactly where the list functions of the parsers say.
\<close>

section \<open>A pointer into a buffer\<close>

definition c_read :: "char list \<Rightarrow> nat \<Rightarrow> char option" where
  "c_read buf i = (if i < length buf then Some (buf ! i) else None)"

text \<open>
  What a loop body does at a character that is not NUL: fault, leave the loop some characters
  further on, or go round again. It may read the next character.
\<close>

datatype 's verdict = Fault | Stop 's nat | Go 's nat

datatype 's pointer = At nat 's | Halted nat 's | Faulted

fun running :: "'s pointer \<Rightarrow> bool" where
  "running (At i s) \<longleftrightarrow> True"
| "running _ \<longleftrightarrow> False"

fun pointer_step :: "('s \<Rightarrow> char \<Rightarrow> char option \<Rightarrow> 's verdict) \<Rightarrow> char list \<Rightarrow> 's pointer \<Rightarrow> 's pointer" where
  "pointer_step body buf (At i s) = (case c_read buf i of
      None \<Rightarrow> Faulted
    | Some c \<Rightarrow> if c = NUL then Halted i s
        else (case body s c (c_read buf (Suc i)) of
                Fault \<Rightarrow> Faulted | Stop s' k \<Rightarrow> Halted (i + k) s' | Go s' k \<Rightarrow> At (i + k) s'))"
| "pointer_step body buf p = p"

definition run_pointer :: "('s \<Rightarrow> char \<Rightarrow> char option \<Rightarrow> 's verdict) \<Rightarrow> char list \<Rightarrow> nat \<Rightarrow> 's \<Rightarrow> 's pointer option" where
  "run_pointer body buf i s = while_option running (pointer_step body buf) (At i s)"

section \<open>Loops that stay inside the text\<close>

locale pointer_loop =
  fixes body :: "'s \<Rightarrow> char \<Rightarrow> char option \<Rightarrow> 's verdict"
    and ok :: "nat \<Rightarrow> 's \<Rightarrow> bool"
    and limit :: nat
  assumes no_fault: "ok i s \<Longrightarrow> i < limit \<Longrightarrow> c \<noteq> NUL \<Longrightarrow> body s c (Some d) \<noteq> Fault"
    and go: "ok i s \<Longrightarrow> c \<noteq> NUL \<Longrightarrow> body s c (Some d) = Go s' k \<Longrightarrow> ok (i + k) s' \<and> (k = 1 \<or> k = 2 \<and> d \<noteq> NUL)"
    and stop: "c \<noteq> NUL \<Longrightarrow> body s c (Some d) = Stop s' k \<Longrightarrow> k \<le> 1"
begin

fun inside :: "nat \<Rightarrow> nat \<Rightarrow> 's pointer \<Rightarrow> bool" where
  "inside len i0 (At i s) \<longleftrightarrow> i0 \<le> i \<and> i \<le> len \<and> ok i s"
| "inside len i0 (Halted i s) \<longleftrightarrow> i0 \<le> i \<and> i \<le> len"
| "inside len i0 Faulted \<longleftrightarrow> False"

lemma reads:
  assumes "buf = t @ NUL # rest" "i \<le> length t" "NUL \<notin> set t"
  shows "c_read buf i = Some (if i < length t then t ! i else NUL)"
    "i < length t \<Longrightarrow> t ! i \<noteq> NUL"
    "i < length t \<Longrightarrow> c_read buf (Suc i) = Some (if Suc i < length t then t ! Suc i else NUL)"
proof -
  show "i < length t \<Longrightarrow> t ! i \<noteq> NUL" using assms(3) by (metis nth_mem)
qed (use assms in \<open>auto simp: c_read_def nth_append\<close>)

lemma step_inside:
  assumes buf: "buf = t @ NUL # rest" "NUL \<notin> set t" "length t \<le> limit"
    and p: "inside (length t) i0 p" "running p"
  shows "inside (length t) i0 (pointer_step body buf p)"
proof -
  from p obtain i s where i: "p = At i s" "i0 \<le> i" "i \<le> length t" "ok i s" by (cases p) auto
  note r = reads [OF buf(1) i(3) buf(2)]
  show ?thesis
  proof (cases "i < length t")
    case True
    let ?d = "if Suc i < length t then t ! Suc i else NUL"
    show ?thesis
    proof (cases "body s (t ! i) (Some ?d)")
      case Fault
      with no_fault [OF i(4) _ r(2) [OF True], of ?d] True buf(3) show ?thesis by simp
    next
      case (Stop s' k)
      with stop [OF r(2) [OF True] Stop] True i(1,2) r show ?thesis by simp
    next
      case (Go s' k)
      with go [OF i(4) r(2) [OF True] Go] True i(1,2) r show ?thesis by (auto split: if_splits)
    qed
  qed (use i r in simp)
qed

definition distance :: "nat \<Rightarrow> 's pointer \<Rightarrow> nat" where
  "distance len p = (case p of At i s \<Rightarrow> Suc len - i | _ \<Rightarrow> 0)"

lemma step_closer:
  assumes "buf = t @ NUL # rest" "NUL \<notin> set t" "inside (length t) i0 p" "running p"
  shows "distance (length t) (pointer_step body buf p) < distance (length t) p"
proof -
  from assms(3,4) obtain i s where i: "p = At i s" "i \<le> length t" "ok i s" by (cases p) auto
  note r = reads [OF assms(1) i(2) assms(2)]
  show ?thesis
  proof (cases "i < length t")
    case True
    let ?d = "if Suc i < length t then t ! Suc i else NUL"
    show ?thesis
      using i(1) True r go [OF i(3) r(2) [OF True], of ?d]
      by (cases "body s (t ! i) (Some ?d)") (auto simp: distance_def)
  qed (use i r in \<open>simp add: distance_def\<close>)
qed

text \<open>The loop ends, and what its steps keep holds where it stops.\<close>

lemma halts:
  assumes "buf = t @ NUL # rest" "NUL \<notin> set t" "length t \<le> limit" "i \<le> length t" "ok i s"
    and keep: "\<And>p. inside (length t) i p \<Longrightarrow> running p \<Longrightarrow> Q p \<Longrightarrow> Q (pointer_step body buf p)" and init: "Q (At i s)"
  shows "\<exists>j s'. run_pointer body buf i s = Some (Halted j s') \<and> i \<le> j \<and> j \<le> length t \<and> Q (Halted j s')"
proof -
  let ?P = "\<lambda>p. inside (length t) i p \<and> Q p"
  have start: "?P (At i s)" using assms(4,5) init by simp
  have step: "?P (pointer_step body buf p)" if "?P p" "running p" for p
    using that step_inside [OF assms(1-3)] keep by blast
  have "\<exists>p. while_option running (pointer_step body buf) (At i s) = Some p"
    by (rule measure_while_option_Some [where P = ?P and f = "distance (length t)"])
       (use start step step_closer [OF assms(1,2)] in blast)+
  then obtain p where p: "run_pointer body buf i s = Some p" by (auto simp: run_pointer_def)
  have "?P p"
    by (rule while_option_rule [where P = ?P and b = running and c = "pointer_step body buf" and s = "At i s"])
       (use p start step in \<open>auto simp: run_pointer_def\<close>)
  moreover have "\<not> running p" using p unfolding run_pointer_def by (rule while_option_stop)
  ultimately show ?thesis using p by (cases p) auto
qed

end

section \<open>The two loops\<close>

text \<open>\<open>while (*pos && *pos != '"')\<close> of the theme: an escape takes two characters.\<close>

definition theme_body :: "unit \<Rightarrow> char \<Rightarrow> char option \<Rightarrow> unit verdict" where
  "theme_body u c nxt =
     (if c = QUOTE then Stop () 0
      else if c = BACKSLASH then (case nxt of None \<Rightarrow> Fault | Some d \<Rightarrow> if d = NUL then Stop () 1 else Go () 2)
      else Go () 1)"

text \<open>\<open>while (*q)\<close> to the matching brace, with its depth counted in an \<open>int\<close>.\<close>

definition brace_body :: "int \<Rightarrow> char \<Rightarrow> char option \<Rightarrow> int verdict" where
  "brace_body depth c nxt =
     (if c = CHR ''{'' then (case c_add depth 1 of None \<Rightarrow> Fault | Some d \<Rightarrow> Go d 1)
      else if c = CHR ''}'' then
        (case c_add depth (-1) of None \<Rightarrow> Fault | Some d \<Rightarrow> if d = 0 then Stop d 1 else Go d 1)
      else Go depth 1)"

interpretation theme_loop: pointer_loop theme_body "\<lambda>i u. True" limit for limit
  by unfold_locales (auto simp: theme_body_def split: if_splits)

lemma depth_fits:
  assumes "\<bar>d\<bar> \<le> int i" "i < 2 ^ 31 - 1"
  shows "in_int (d + 1)" "in_int (d - 1)"
  using assms by (auto simp: in_int_def INT_MIN_def INT_MAX_def)

interpretation brace_loop: pointer_loop brace_body "\<lambda>i depth. \<bar>depth\<bar> \<le> int i" "2 ^ 31 - 1"
proof
  fix i :: nat and s :: int and c d
  assume "\<bar>s\<bar> \<le> int i" "i < 2 ^ 31 - 1"
  from depth_fits [OF this] show "brace_body s c (Some d) \<noteq> Fault" by (simp add: brace_body_def c_add_def)
next
  fix i k :: nat and s s' :: int and c d
  assume "\<bar>s\<bar> \<le> int i" "brace_body s c (Some d) = Go s' k"
  then show "\<bar>s'\<bar> \<le> int (i + k) \<and> (k = 1 \<or> k = 2 \<and> d \<noteq> NUL)"
    by (auto simp: brace_body_def c_add_def split: if_splits)
next
  fix k :: nat and s s' :: int and c d
  assume "brace_body s c (Some d) = Stop s' k"
  then show "k \<le> 1" by (simp add: brace_body_def c_add_def split: if_splits)
qed

lemma drop_at: "i < length t \<Longrightarrow> drop i t = t ! i # drop (Suc i) t"
  by (rule Cons_nth_drop_Suc [symmetric])

text \<open>
  C27. The loop to the closing quote in the theme ends on every text, reads nothing behind
  the NUL of the buffer, and stops where the scanner of the model stops.
\<close>

theorem theme_loop_terminates:
  assumes "buf = t @ NUL # rest" "NUL \<notin> set t" "i \<le> length t"
  shows "\<exists>j. run_pointer theme_body buf i () = Some (Halted j ()) \<and> i \<le> j \<and> j \<le> length t \<and>
    drop j t = theme_scan (drop i t)"
proof -
  let ?Q = "\<lambda>p. case p of At k _ \<Rightarrow> theme_scan (drop k t) = theme_scan (drop i t)
    | Halted k _ \<Rightarrow> drop k t = theme_scan (drop i t) | Faulted \<Rightarrow> False"
  have "?Q (pointer_step theme_body buf p)" if p: "theme_loop.inside (length t) i p" "running p" "?Q p" for p
  proof -
    from p obtain k where k: "p = At k ()" "k \<le> length t" "theme_scan (drop k t) = theme_scan (drop i t)"
      by (cases p) auto
    note r = theme_loop.reads [OF assms(1) k(2) assms(2)]
    show ?thesis
    proof (cases "k < length t")
      case True
      have "t ! Suc k \<noteq> NUL" if "Suc k < length t" using assms(2) that by (metis nth_mem)
      then show ?thesis using k r True drop_at [OF True] drop_at [of "Suc k" t]
        by (cases "Suc k < length t") (auto simp: theme_body_def r(2))
    qed (use k r in simp)
  qed
  from theme_loop.halts [OF assms(1,2) order_refl assms(3) TrueI, of ?Q "()", OF this] show ?thesis by auto
qed

text \<open>
  C26. The loop to the matching brace of a keybinding ends on every text, reads nothing behind
  the NUL, and splits the object off where the parser of the model does; its depth cannot
  overflow in a file of less than two gigabytes.
\<close>

theorem brace_loop_terminates:
  assumes "buf = t @ NUL # rest" "NUL \<notin> set t" "length t \<le> 2 ^ 31 - 1" "i \<le> length t"
  shows "\<exists>j depth. run_pointer brace_body buf i 0 = Some (Halted j depth) \<and> i \<le> j \<and> j \<le> length t \<and>
    split_object 0 (drop i t) = (take (j - i) (drop i t), drop j t)"
proof -
  let ?Q = "\<lambda>p. case p of At k d \<Rightarrow> snd (split_object d (drop k t)) = snd (split_object 0 (drop i t))
    | Halted k d \<Rightarrow> drop k t = snd (split_object 0 (drop i t)) | Faulted \<Rightarrow> False"
  have "?Q (pointer_step brace_body buf p)" if p: "brace_loop.inside (length t) i p" "running p" "?Q p" for p
  proof -
    from p obtain k d where k: "p = At k d" "k \<le> length t" "\<bar>d\<bar> \<le> int k"
      "snd (split_object d (drop k t)) = snd (split_object 0 (drop i t))" by (cases p) auto
    note r = brace_loop.reads [OF assms(1) k(2) assms(2)]
    show ?thesis
    proof (cases "k < length t")
      case True
      with assms(3) have "k < 2 ^ 31 - 1" by linarith
      from depth_fits [OF k(3) this] show ?thesis using k(1,4) r True drop_at [OF True]
        by (auto simp: brace_body_def c_add_def r(2) split: prod.splits if_splits)
    qed (use k r in simp)
  qed
  from brace_loop.halts [OF assms(1-4), of 0 ?Q, OF _ this] obtain j depth where
    j: "run_pointer brace_body buf i 0 = Some (Halted j depth)" "i \<le> j" "j \<le> length t"
      "drop j t = snd (split_object 0 (drop i t))" by auto
  obtain a b where ab: "split_object 0 (drop i t) = (a, b)" by fastforce
  from split_object_append [OF this] j(2,4) ab have "drop i t = a @ drop j t" by simp
  moreover have "length (drop i t) - length (drop j t) = j - i" using j(2,3) by simp
  ultimately have "a = take (j - i) (drop i t)" by (metis append_eq_conv_conj length_append add_diff_cancel_right')
  with j ab show ?thesis by auto
qed

theorem theme_loop_terminates_witness:
  "\<exists>j. run_pointer theme_body (''ab'' @ [QUOTE, NUL]) 0 () = Some (Halted j ()) \<and> drop j (''ab'' @ [QUOTE]) = [QUOTE]"
  using theme_loop_terminates [of "''ab'' @ [QUOTE, NUL]" "''ab'' @ [QUOTE]" "[]" 0] by auto

theorem brace_loop_terminates_witness:
  "\<exists>j depth. run_pointer brace_body (''{{}},'' @ [NUL]) 0 0 = Some (Halted j depth) \<and> drop j ''{{}},'' = '',''"
  using brace_loop_terminates [of "''{{}},'' @ [NUL]" "''{{}},''" "[]" 0] by auto

end
