(* ===== verification/Zen_Buffer.thy ===== *)
theory Zen_Buffer
  imports Zen_State
begin

text \<open>
  The two \<open>wlr_buffer\<close> implementations of \<open>cairo_buffer.c\<close> and \<open>wallpaper.c\<close>: a small struct that
  points into the pixels of a Cairo surface, and the three callbacks through which wlroots uses
  it. The struct does not own the pixels; when each of the two is freed is decided in different
  places, and the theorems say which orders are safe.
\<close>

section \<open>Pixels and the structs that point at them\<close>

text \<open>\<open>data\<close> is the pixel array of a surface, named by the surface it belongs to.\<close>

record ZenRawBuffer =
  raw_data :: addr
  raw_stride :: "64 word"

record ZenWallpaperBuffer =
  wb_data :: addr
  wb_stride :: "64 word"

record pixel_world =
  raws :: "addr \<rightharpoonup> ZenRawBuffer"
  wbufs :: "addr \<rightharpoonup> ZenWallpaperBuffer"
  pixels :: "addr \<Rightarrow> bool"                \<comment> \<open>the pixel arrays that are allocated\<close>

definition DRM_FORMAT_ARGB8888 :: u32 where "DRM_FORMAT_ARGB8888 = 0x34325241"

section \<open>The callbacks\<close>

definition zen_raw_buffer_destroy :: "addr \<Rightarrow> pixel_world \<Rightarrow> pixel_world option" where
  "zen_raw_buffer_destroy wlr_b s = do {
     _ \<leftarrow> raws s wlr_b;
     Some (s\<lparr>raws := (raws s)(wlr_b := None)\<rparr>) }"

text \<open>The result is what the function returns and what it stores through its three pointers.\<close>

definition zen_raw_buffer_begin_data_ptr_access ::
  "addr \<Rightarrow> u32 \<Rightarrow> pixel_world \<Rightarrow> (bool \<times> addr \<times> u32 \<times> 64 word) option" where
  "zen_raw_buffer_begin_data_ptr_access wlr_b flags s = do {
     raw \<leftarrow> raws s wlr_b;
     Some (True, raw_data raw, DRM_FORMAT_ARGB8888, raw_stride raw) }"

definition zen_raw_buffer_end_data_ptr_access :: "addr \<Rightarrow> pixel_world \<Rightarrow> pixel_world" where
  "zen_raw_buffer_end_data_ptr_access wlr_b s = s"

definition wallpaper_buf_destroy :: "addr \<Rightarrow> pixel_world \<Rightarrow> pixel_world option" where
  "wallpaper_buf_destroy wlr_b s = do {
     _ \<leftarrow> wbufs s wlr_b;
     Some (s\<lparr>wbufs := (wbufs s)(wlr_b := None)\<rparr>) }"

definition wallpaper_buf_begin_data_ptr_access ::
  "addr \<Rightarrow> u32 \<Rightarrow> pixel_world \<Rightarrow> (bool \<times> addr \<times> u32 \<times> 64 word) option" where
  "wallpaper_buf_begin_data_ptr_access wlr_b flags s = do {
     wb \<leftarrow> wbufs s wlr_b;
     Some (True, wb_data wb, DRM_FORMAT_ARGB8888, wb_stride wb) }"

definition wallpaper_buf_end_data_ptr_access :: "addr \<Rightarrow> pixel_world \<Rightarrow> pixel_world" where
  "wallpaper_buf_end_data_ptr_access wlr_b s = s"

record wlr_buffer_impl =
  impl_destroy :: "addr \<Rightarrow> pixel_world \<Rightarrow> pixel_world option"
  impl_begin :: "addr \<Rightarrow> u32 \<Rightarrow> pixel_world \<Rightarrow> (bool \<times> addr \<times> u32 \<times> 64 word) option"
  impl_end :: "addr \<Rightarrow> pixel_world \<Rightarrow> pixel_world"

definition zen_raw_buffer_impl :: wlr_buffer_impl where
  "zen_raw_buffer_impl = \<lparr>impl_destroy = zen_raw_buffer_destroy,
     impl_begin = zen_raw_buffer_begin_data_ptr_access, impl_end = zen_raw_buffer_end_data_ptr_access\<rparr>"

definition wallpaper_buf_impl :: wlr_buffer_impl where
  "wallpaper_buf_impl = \<lparr>impl_destroy = wallpaper_buf_destroy,
     impl_begin = wallpaper_buf_begin_data_ptr_access, impl_end = wallpaper_buf_end_data_ptr_access\<rparr>"

text \<open>Wrapping a surface: \<open>stride\<close> is what \<open>cairo_image_surface_get_stride\<close> returns, an \<open>int\<close>.\<close>

definition wrap_raw_buffer :: "addr \<Rightarrow> addr \<Rightarrow> int \<Rightarrow> pixel_world \<Rightarrow> pixel_world" where
  "wrap_raw_buffer raw surf stride s =
     s\<lparr>raws := (raws s)(raw \<mapsto> \<lparr>raw_data = surf, raw_stride = word_of_int stride\<rparr>)\<rparr>"

definition wrap_wallpaper_buffer :: "addr \<Rightarrow> addr \<Rightarrow> int \<Rightarrow> pixel_world \<Rightarrow> pixel_world" where
  "wrap_wallpaper_buffer wb surf stride s =
     s\<lparr>wbufs := (wbufs s)(wb \<mapsto> \<lparr>wb_data = surf, wb_stride = word_of_int stride\<rparr>)\<rparr>"

text \<open>
  The end of a complete drawing buffer, in which no pointer is NULL: \<open>wlr_buffer_drop\<close> calls \<open>destroy\<close> at once when the scene node was
  the last to hold a lock (\<open>unlocked\<close>), and leaves that to the last unlock otherwise; then the
  surface is destroyed and its pixels with it. The end of an output's wallpaper destroys the
  surface only.
\<close>

definition drop_and_free :: "wlr_buffer_impl \<Rightarrow> bool \<Rightarrow> addr \<Rightarrow> addr \<Rightarrow> pixel_world \<Rightarrow> pixel_world option" where
  "drop_and_free impl unlocked b surf s = do {
     s \<leftarrow> (if unlocked then impl_destroy impl b s else Some s);
     Some (s\<lparr>pixels := (pixels s)(surf := False)\<rparr>) }"


section \<open>What wlroots does with a buffer\<close>

text \<open>It reads the pixels between \<open>begin\<close> and \<open>end\<close>, or calls \<open>destroy\<close> after the last unlock.\<close>

datatype buffer_use = Read_pixels u32 | Last_unlock

fun use_buffer :: "wlr_buffer_impl \<Rightarrow> addr \<Rightarrow> buffer_use \<Rightarrow> pixel_world \<Rightarrow> pixel_world option" where
  "use_buffer impl b (Read_pixels flags) s = do {
     (ok, d, fmt, stride) \<leftarrow> impl_begin impl b flags s;
     if \<not> ok then Some s
     else if pixels s d then Some (impl_end impl b s)
     else None }"
| "use_buffer impl b Last_unlock s = impl_destroy impl b s"

primrec use_buffers :: "wlr_buffer_impl \<Rightarrow> addr \<Rightarrow> buffer_use list \<Rightarrow> pixel_world \<Rightarrow> pixel_world option" where
  "use_buffers impl b [] s = Some s"
| "use_buffers impl b (u # us) s = do { s \<leftarrow> use_buffer impl b u s; use_buffers impl b us s }"

section \<open>The contract of an implementation\<close>

text \<open>What wlroots may rely on: a live buffer reports its surface's pixels and can be destroyed once.\<close>

locale pixel_buffer =
  fixes impl :: wlr_buffer_impl
    and view :: "pixel_world \<Rightarrow> addr \<rightharpoonup> addr \<times> 64 word"
    and wrap :: "addr \<Rightarrow> addr \<Rightarrow> int \<Rightarrow> pixel_world \<Rightarrow> pixel_world"
  assumes begin_live: "view s b = Some (d, st) \<Longrightarrow> impl_begin impl b fl s = Some (True, d, DRM_FORMAT_ARGB8888, st)"
    and begin_dead: "view s b = None \<Longrightarrow> impl_begin impl b fl s = None"
    and end_none: "impl_end impl b s = s"
    and destroy_live: "view s b = Some p \<Longrightarrow> \<exists>s'. impl_destroy impl b s = Some s' \<and> view s' = (view s)(b := None) \<and> pixels s' = pixels s"
    and destroy_dead: "view s b = None \<Longrightarrow> impl_destroy impl b s = None"
    and wrapped: "view (wrap b surf stride s) = (view s)(b \<mapsto> (surf, word_of_int stride))"
    and wrapped_pixels: "pixels (wrap b surf stride s) = pixels s"
    and view_pixels: "view (s\<lparr>pixels := px\<rparr>) = view s"
begin

lemma reads_live:
  assumes "view s b = Some (d, st)" "pixels s d"
  shows "use_buffers impl b (map Read_pixels fls) s = Some s"
  using assms by (induction fls) (simp_all add: begin_live end_none)

lemma wrapped_reads:
  assumes "pixels s surf"
  shows "impl_begin impl b fl (wrap b surf stride s) = Some (True, surf, DRM_FORMAT_ARGB8888, word_of_int stride) \<and>
    use_buffers impl b (map Read_pixels fls) (wrap b surf stride s) = Some (wrap b surf stride s)"
  using reads_live [of "wrap b surf stride s" b surf] assms
  by (simp add: begin_live wrapped wrapped_pixels)

lemma read_after_free:
  assumes "view s b = Some (d, st)" "drop_and_free impl unlocked b d s = Some s'"
  shows "use_buffer impl b (Read_pixels fl) s' = None"
proof -
  from assms(2) obtain u where u: "(if unlocked then impl_destroy impl b s else Some s) = Some u"
    "s' = u\<lparr>pixels := (pixels u)(d := False)\<rparr>" by (auto simp: drop_and_free_def bind_eq_Some_conv)
  show ?thesis
  proof (cases unlocked)
    case True
    with destroy_live [OF assms(1)] u have "view s' b = None" by (auto simp: view_pixels)
    then show ?thesis by (simp add: begin_dead)
  next
    case False
    with u assms(1) have "view s' b = Some (d, st)" "\<not> pixels s' d" by (simp_all add: view_pixels)
    then show ?thesis by (simp add: begin_live)
  qed
qed

lemma drop_outcome:
  assumes "view s b = Some (d, st)"
  shows "\<exists>s'. drop_and_free impl unlocked b d s = Some s' \<and> (view s' b = None \<longleftrightarrow> unlocked) \<and>
    ((\<exists>s''. use_buffer impl b Last_unlock s' = Some s'') \<longleftrightarrow> \<not> unlocked)"
  using destroy_live [OF assms] destroy_dead
  by (cases unlocked)
     (auto simp: drop_and_free_def view_pixels assms, metis assms destroy_live view_pixels option.distinct(1))

end

interpretation raw_buffer: pixel_buffer zen_raw_buffer_impl
  "\<lambda>s b. map_option (\<lambda>r. (raw_data r, raw_stride r)) (raws s b)" wrap_raw_buffer
  by unfold_locales (auto simp: zen_raw_buffer_impl_def zen_raw_buffer_destroy_def
      zen_raw_buffer_begin_data_ptr_access_def zen_raw_buffer_end_data_ptr_access_def wrap_raw_buffer_def fun_eq_iff)

interpretation wallpaper_buffer: pixel_buffer wallpaper_buf_impl
  "\<lambda>s b. map_option (\<lambda>r. (wb_data r, wb_stride r)) (wbufs s b)" wrap_wallpaper_buffer
  by unfold_locales (auto simp: wallpaper_buf_impl_def wallpaper_buf_destroy_def
      wallpaper_buf_begin_data_ptr_access_def wallpaper_buf_end_data_ptr_access_def wrap_wallpaper_buffer_def fun_eq_iff)

section \<open>Which orders are safe\<close>

text \<open>
  Both implementations give wlroots what it needs: while the surface is alive, every access
  to a buffer that wraps it succeeds, reports the surface's pixels as ARGB8888 with the
  surface's stride, and leaves everything as it was, however often it is repeated.
\<close>

theorem buffer_shows_surface:
  assumes "pixels s surf"
  shows "impl_begin zen_raw_buffer_impl b fl (wrap_raw_buffer b surf stride s) =
      Some (True, surf, DRM_FORMAT_ARGB8888, word_of_int stride) \<and>
    use_buffers zen_raw_buffer_impl b (map Read_pixels fls) (wrap_raw_buffer b surf stride s) =
      Some (wrap_raw_buffer b surf stride s) \<and>
    impl_begin wallpaper_buf_impl b fl (wrap_wallpaper_buffer b surf stride s) =
      Some (True, surf, DRM_FORMAT_ARGB8888, word_of_int stride) \<and>
    use_buffers wallpaper_buf_impl b (map Read_pixels fls) (wrap_wallpaper_buffer b surf stride s) =
      Some (wrap_wallpaper_buffer b surf stride s)"
  using raw_buffer.wrapped_reads [OF assms] wallpaper_buffer.wrapped_reads [OF assms] by blast


definition demo_pixels :: pixel_world where
  "demo_pixels = \<lparr>raws = [4 \<mapsto> \<lparr>raw_data = 1, raw_stride = 3200\<rparr>], wbufs = [5 \<mapsto> \<lparr>wb_data = 2, wb_stride = 3200\<rparr>],
     pixels = (\<lambda>a. a = 1 \<or> a = 2)\<rparr>"

theorem buffer_shows_surface_witness:
  "impl_begin zen_raw_buffer_impl 7 1 (wrap_raw_buffer 7 1 3200 demo_pixels) =
     Some (True, 1, DRM_FORMAT_ARGB8888, 3200)"
  using buffer_shows_surface [of demo_pixels 1 7 1 3200] by (simp add: demo_pixels_def)


end
