(* ===== verification/Zen_Stubs.thy ===== *)
theory Zen_Stubs
  imports Zen_Errors
begin

text \<open>
  The parts of the system whose functions are placeholders so far: the helpers for D-Bus, the
  components of the desktop shell, the four daemons, the first-boot wizard and the installer.
  Each function is given the whole state of the process, of any type, and returns it with the
  value the source returns; the programs are composed as their \<open>main\<close> composes them.
\<close>

section \<open>Helpers for D-Bus\<close>

definition zen_dbus_reply_error :: "ptr \<Rightarrow> ZenError \<Rightarrow> 's \<Rightarrow> 's \<times> int" where
  "zen_dbus_reply_error msg err s = (s, -1)"

definition zen_dbus_get_property_string :: "ptr \<Rightarrow> cstring \<Rightarrow> cstring \<Rightarrow> 's \<Rightarrow> 's \<times> cstring" where
  "zen_dbus_get_property_string msg interface property s = (s, None)"

definition zen_dbus_emit_signal :: "cstring \<Rightarrow> cstring \<Rightarrow> cstring \<Rightarrow> 's \<Rightarrow> 's \<times> int" where
  "zen_dbus_emit_signal path interface member s = (s, -1)"

section \<open>The desktop shell\<close>

definition zen_shell_set_dark_mode :: "int \<Rightarrow> 's \<Rightarrow> 's" where
  "zen_shell_set_dark_mode enabled s = s"

definition zen_app_launcher_init :: "'s \<Rightarrow> 's \<times> int" where
  "zen_app_launcher_init s = (s, 0)"

definition zen_app_launcher_destroy :: "'s \<Rightarrow> 's" where
  "zen_app_launcher_destroy s = s"

definition zen_app_launcher_show :: "'s \<Rightarrow> 's" where
  "zen_app_launcher_show s = s"

definition zen_app_launcher_hide :: "'s \<Rightarrow> 's" where
  "zen_app_launcher_hide s = s"

definition zen_notifications_init :: "'s \<Rightarrow> 's \<times> int" where
  "zen_notifications_init s = (s, 0)"

definition zen_notifications_destroy :: "'s \<Rightarrow> 's" where
  "zen_notifications_destroy s = s"

definition zen_notifications_show ::
  "cstring \<Rightarrow> cstring \<Rightarrow> cstring \<Rightarrow> cstring \<Rightarrow> int \<Rightarrow> int \<Rightarrow> 's \<Rightarrow> 's \<times> int" where
  "zen_notifications_show app summary body icon urgency timeout_ms s = (s, 0)"

definition zen_quick_settings_init :: "'s \<Rightarrow> 's \<times> int" where
  "zen_quick_settings_init s = (s, 0)"

definition zen_quick_settings_destroy :: "'s \<Rightarrow> 's" where
  "zen_quick_settings_destroy s = s"

definition zen_quick_settings_toggle :: "'s \<Rightarrow> 's" where
  "zen_quick_settings_toggle s = s"

definition zen_shelf_init :: "'s \<Rightarrow> 's \<times> int" where
  "zen_shelf_init s = (s, 0)"

definition zen_shelf_destroy :: "'s \<Rightarrow> 's" where
  "zen_shelf_destroy s = s"

definition zen_shelf_pin_app :: "cstring \<Rightarrow> 's \<Rightarrow> 's \<times> int" where
  "zen_shelf_pin_app app s = (s, 0)"

definition zen_shelf_unpin_app :: "cstring \<Rightarrow> 's \<Rightarrow> 's \<times> int" where
  "zen_shelf_unpin_app app s = (s, 0)"

section \<open>Daemons\<close>

text \<open>The shape of a daemon's \<open>main\<close>.\<close>

definition daemon_main :: "('s \<Rightarrow> 's \<times> int) \<Rightarrow> ('s \<Rightarrow> 's) \<Rightarrow> ('s \<Rightarrow> 's) \<Rightarrow> 's \<Rightarrow> 's \<times> int" where
  "daemon_main init run destroy s =
     (let (s, rc) = init s in if rc \<noteq> 0 then (s, 1) else (destroy (run s), 0))"

definition zen_package_manager_init :: "'s \<Rightarrow> 's \<times> int" where
  "zen_package_manager_init s = (s, 0)"

definition zen_package_manager_run :: "'s \<Rightarrow> 's" where
  "zen_package_manager_run s = s"

definition zen_package_manager_destroy :: "'s \<Rightarrow> 's" where
  "zen_package_manager_destroy s = s"

definition package_manager_main :: "'s \<Rightarrow> 's \<times> int" where
  "package_manager_main = daemon_main zen_package_manager_init zen_package_manager_run zen_package_manager_destroy"

definition zen_privacy_guard_init :: "'s \<Rightarrow> 's \<times> int" where
  "zen_privacy_guard_init s = (s, 0)"

definition zen_privacy_guard_run :: "'s \<Rightarrow> 's" where
  "zen_privacy_guard_run s = s"

definition zen_privacy_guard_destroy :: "'s \<Rightarrow> 's" where
  "zen_privacy_guard_destroy s = s"

definition privacy_guard_main :: "'s \<Rightarrow> 's \<times> int" where
  "privacy_guard_main = daemon_main zen_privacy_guard_init zen_privacy_guard_run zen_privacy_guard_destroy"

definition zen_resource_manager_init :: "'s \<Rightarrow> 's \<times> int" where
  "zen_resource_manager_init s = (s, 0)"

definition zen_resource_manager_run :: "'s \<Rightarrow> 's" where
  "zen_resource_manager_run s = s"

definition zen_resource_manager_destroy :: "'s \<Rightarrow> 's" where
  "zen_resource_manager_destroy s = s"

definition resource_manager_main :: "'s \<Rightarrow> 's \<times> int" where
  "resource_manager_main = daemon_main zen_resource_manager_init zen_resource_manager_run zen_resource_manager_destroy"

definition zen_update_manager_init :: "'s \<Rightarrow> 's \<times> int" where
  "zen_update_manager_init s = (s, 0)"

definition zen_update_manager_run :: "'s \<Rightarrow> 's" where
  "zen_update_manager_run s = s"

definition zen_update_manager_destroy :: "'s \<Rightarrow> 's" where
  "zen_update_manager_destroy s = s"

definition update_manager_main :: "'s \<Rightarrow> 's \<times> int" where
  "update_manager_main = daemon_main zen_update_manager_init zen_update_manager_run zen_update_manager_destroy"

section \<open>First boot and installation\<close>

text \<open>The shape of the \<open>main\<close> of the two wizards, which returns what the wizard returns.\<close>

definition wizard_main :: "('s \<Rightarrow> 's \<times> int) \<Rightarrow> ('s \<Rightarrow> 's \<times> int) \<Rightarrow> ('s \<Rightarrow> 's) \<Rightarrow> 's \<Rightarrow> 's \<times> int" where
  "wizard_main init run destroy s =
     (let (s, rc) = init s in if rc \<noteq> 0 then (s, 1)
      else let (s, ret) = run s in (destroy s, ret))"

definition zen_oobe_init :: "'s \<Rightarrow> 's \<times> int" where
  "zen_oobe_init s = (s, 0)"

definition zen_oobe_run :: "'s \<Rightarrow> 's \<times> int" where
  "zen_oobe_run s = (s, 0)"

definition zen_oobe_destroy :: "'s \<Rightarrow> 's" where
  "zen_oobe_destroy s = s"

definition oobe_main :: "'s \<Rightarrow> 's \<times> int" where
  "oobe_main = wizard_main zen_oobe_init zen_oobe_run zen_oobe_destroy"

definition zen_installer_init :: "'s \<Rightarrow> 's \<times> int" where
  "zen_installer_init s = (s, 0)"

definition zen_installer_run :: "'s \<Rightarrow> 's \<times> int" where
  "zen_installer_run s = (s, 0)"

definition zen_installer_destroy :: "'s \<Rightarrow> 's" where
  "zen_installer_destroy s = s"

definition installer_main :: "'s \<Rightarrow> 's \<times> int" where
  "installer_main = wizard_main zen_installer_init zen_installer_run zen_installer_destroy"

section \<open>What the programs do\<close>

text \<open>
  A daemon whose event loop returns at once ends with the state its own three functions leave;
  a failed initialisation ends it before its loop, with status 1 and nothing destroyed.
\<close>

lemma daemon_main_cases:
  "daemon_main init run destroy s =
     (if snd (init s) \<noteq> 0 then (fst (init s), 1) else (destroy (run (fst (init s))), 0))"
  by (simp add: daemon_main_def split: prod.split)

text \<open>
  As they are, the four daemons end successfully as soon as they are started, although their
  headers say that they block until terminated and their units wait for a name on the bus.
\<close>

lemma daemons_exit_at_once:
  "package_manager_main s = (s, 0)" "privacy_guard_main s = (s, 0)"
  "resource_manager_main s = (s, 0)" "update_manager_main s = (s, 0)"
  by (simp_all add: daemon_main_cases package_manager_main_def privacy_guard_main_def resource_manager_main_def
      update_manager_main_def zen_package_manager_init_def zen_package_manager_run_def zen_package_manager_destroy_def
      zen_privacy_guard_init_def zen_privacy_guard_run_def zen_privacy_guard_destroy_def
      zen_resource_manager_init_def zen_resource_manager_run_def zen_resource_manager_destroy_def
      zen_update_manager_init_def zen_update_manager_run_def zen_update_manager_destroy_def)

end
